(* ===== verification/Prelude.thy ===== *)
theory Prelude
  imports Main "HOL-Library.Word" "HOL-Library.Monad_Syntax"
begin

text \<open>
  Shared vocabulary of the development: the machine types of the C++ sources, byte strings,
  little-endian encoding of plain data, the result codes of
  \<^verbatim>\<open>src/smem/csrc/common/smem_types.h\<close>, and the generic lemmas on lists, options and words
  the component theories use.

  Conventions. A C++ function whose execution can leave the language (an out-of-bounds read,
  a null dereference, a division by zero, a signed overflow) returns \<open>'a cpp\<close>, an option
  whose \<open>None\<close> is undefined behaviour and nothing else; error codes are ordinary values.
  \<open>std::string\<close> and \<open>std::vector<uint8_t>\<close> are both byte lists.
\<close>

section \<open>Machine types\<close>

type_synonym byte = "8 word"
type_synonym bytes = "byte list"
type_synonym u16 = "16 word"
type_synonym u32 = "32 word"
type_synonym u64 = "64 word"
type_synonym result = int
type_synonym 'a cpp = "'a option"

named_theorems cpp_simps \<open>evaluation of the option-valued C++ operations\<close>
named_theorems handler_defs \<open>definitions of the request handlers\<close>

declare bind_eq_Some_conv [cpp_simps]

text \<open>
  An early return is \<open>Inl\<close>; the two shapes in which the models continue after a call that may
  return early.
\<close>

lemma case_sum_eq_Inr [cpp_simps]:
  "(case r of Inl e \<Rightarrow> Inl (f e) | Inr x \<Rightarrow> g x) = Inr y \<longleftrightarrow> (\<exists>x. r = Inr x \<and> g x = Inr y)"
  by (cases r) auto

lemma case_sum_eq_Some_Inr [cpp_simps]:
  "(case r of Inl e \<Rightarrow> Some (Inl (f e)) | Inr x \<Rightarrow> g x) = Some (Inr y) \<longleftrightarrow>
     (\<exists>x. r = Inr x \<and> g x = Some (Inr y))"
  by (cases r) auto

text \<open>String literals of the sources, as bytes.\<close>

definition str :: "string \<Rightarrow> bytes" where
  "str s = map of_char s"

lemma str_Nil [simp]: "str [] = []"
  by (simp add: str_def)

lemma length_str [simp]: "length (str s) = length s"
  by (simp add: str_def)

lemma str_append: "str (s @ t) = str s @ str t"
  by (simp add: str_def)

section \<open>Result codes\<close>

abbreviation (input) SM_OK :: result where "SM_OK \<equiv> 0"
abbreviation (input) SM_ERROR :: result where "SM_ERROR \<equiv> - 1"
abbreviation (input) SM_INVALID_PARAM :: result where "SM_INVALID_PARAM \<equiv> - 2000"
abbreviation (input) SM_MALLOC_FAILED :: result where "SM_MALLOC_FAILED \<equiv> - 2001"
abbreviation (input) SM_REPEAT_CALL :: result where "SM_REPEAT_CALL \<equiv> - 2005"
abbreviation (input) SM_OBJECT_NOT_EXISTS :: result where "SM_OBJECT_NOT_EXISTS \<equiv> - 2007"
abbreviation (input) SM_NOT_INITIALIZED :: result where "SM_NOT_INITIALIZED \<equiv> - 2008"
abbreviation (input) SM_GET_OBJIECT :: result where "SM_GET_OBJIECT \<equiv> - 2011"

section \<open>Little-endian plain data\<close>

text \<open>
  The sources copy plain integers to and from byte buffers with \<open>reinterpret_cast\<close>. The
  supported targets (x86-64, AArch64) are little-endian.
\<close>

fun le_encode :: "nat \<Rightarrow> nat \<Rightarrow> bytes" where
  "le_encode 0 x = []"
| "le_encode (Suc n) x = of_nat (x mod 256) # le_encode n (x div 256)"

fun le_decode :: "bytes \<Rightarrow> nat" where
  "le_decode [] = 0"
| "le_decode (b # bs) = unat b + 256 * le_decode bs"

lemma length_le_encode [simp]: "length (le_encode n x) = n"
  by (induction n arbitrary: x) auto

lemma unat_byte_less: "unat (b :: byte) < 256"
  using unsigned_less [of b, where ?'a = nat] by simp

lemma unat_byte_of_nat_mod [simp]: "unat (of_nat (x mod 256) :: byte) = x mod 256"
  by (simp add: unat_of_nat)

lemma mod_256_step: "x mod 256 + 256 * (x div 256 mod 256 ^ n) = x mod 256 ^ Suc n" for x n :: nat
  by (simp add: mod_mult2_eq)

lemma le_decode_encode: "le_decode (le_encode n x) = x mod 256 ^ n"
proof (induction n arbitrary: x)
  case (Suc n)
  show ?case
    by (simp only: le_encode.simps le_decode.simps Suc.IH unat_byte_of_nat_mod mod_256_step)
qed simp

lemma le_encode_decode: "le_encode (length bs) (le_decode bs) = bs"
proof (induction bs)
  case (Cons b bs)
  have "(unat b + 256 * le_decode bs) mod 256 = unat b"
    using unat_byte_less [of b] by simp
  moreover have "(unat b + 256 * le_decode bs) div 256 = le_decode bs"
    using unat_byte_less [of b] by simp
  ultimately show ?case
    using Cons.IH by simp
qed simp

lemma le_encode_decode_len: "length bs = n \<Longrightarrow> le_encode n (le_decode bs) = bs"
  using le_encode_decode by blast

lemma le_decode_less: "le_decode bs < 256 ^ length bs"
  by (metis le_decode_encode le_encode_decode mod_less_divisor zero_less_numeral zero_less_power)

lemma le_decode_encode_small: "x < 256 ^ n \<Longrightarrow> le_decode (le_encode n x) = x"
  by (simp add: le_decode_encode)

text \<open>An integer of \<open>8 * n\<close> bits, written and read back.\<close>

definition le_word :: "'a::len word \<Rightarrow> bytes" where
  "le_word w = le_encode (LENGTH('a) div 8) (unat w)"

definition word_le :: "bytes \<Rightarrow> 'a::len word" where
  "word_le bs = of_nat (le_decode bs)"

lemma length_le_word [simp]: "length (le_word (w :: 'a::len word)) = LENGTH('a) div 8"
  by (simp add: le_word_def)

lemma word_le_le_word:
  assumes "8 dvd LENGTH('a::len)"
  shows "word_le (le_word (w :: 'a word)) = w"
proof -
  have "(2 ^ 8 :: nat) ^ (LENGTH('a) div 8) = 2 ^ LENGTH('a)"
    using assms by (simp only: power_mult [symmetric] dvd_mult_div_cancel)
  then have "(256 :: nat) ^ (LENGTH('a) div 8) = 2 ^ LENGTH('a)"
    by simp
  then show ?thesis
    using unsigned_less [of w, where ?'a = nat] by (simp add: word_le_def le_word_def le_decode_encode)
qed

end
