(* ===== verification/Containers.thy ===== *)
theory Containers
  imports Prelude
begin

text \<open>
  The standard containers the sources use, as executable lists.

  \<^item> \<open>std::unordered_set\<close> is a distinct list and \<open>std::unordered_map\<close> an association list with
    distinct keys; the list is the iteration order. A new element goes to the front, which is
    where libstdc++ links a node whose bucket is empty; every lemma below is stated for lists
    in any order, so no property of the development rests on the position.
  \<^item> \<open>std::map\<close> is an association list with strictly increasing keys, and \<open>std::set\<close> a strictly
    increasing list; \<open>lower_bound\<close> and \<open>--upper_bound\<close> are the searches the sources perform.

  The locale \<open>finite_map\<close> is the contract the two map implementations share; both are
  interpretations of it.
\<close>

named_theorems container_simps \<open>lookup after update for the container operations\<close>

section \<open>Unordered sets\<close>

definition us_insert :: "'a \<Rightarrow> 'a list \<Rightarrow> 'a list" where
  "us_insert x xs = (if x \<in> set xs then xs else x # xs)"

definition us_erase :: "'a \<Rightarrow> 'a list \<Rightarrow> 'a list" where
  "us_erase x xs = filter (\<lambda>y. y \<noteq> x) xs"

lemma set_us_insert [simp]: "set (us_insert x xs) = insert x (set xs)"
  by (auto simp: us_insert_def)

lemma distinct_us_insert [simp]: "distinct (us_insert x xs) = distinct xs"
  by (simp add: us_insert_def)

lemma set_us_erase [simp]: "set (us_erase x xs) = set xs - {x}"
  by (auto simp: us_erase_def)

lemma distinct_us_erase [simp]: "distinct xs \<Longrightarrow> distinct (us_erase x xs)"
  by (simp add: us_erase_def)

section \<open>The contract of a key-value container\<close>

locale finite_map =
  fixes inv :: "('k \<times> 'v) list \<Rightarrow> bool"
    and upd :: "'k \<Rightarrow> 'v \<Rightarrow> ('k \<times> 'v) list \<Rightarrow> ('k \<times> 'v) list"
    and del :: "'k \<Rightarrow> ('k \<times> 'v) list \<Rightarrow> ('k \<times> 'v) list"
  assumes inv_empty: "inv []"
    and inv_upd: "inv m \<Longrightarrow> inv (upd k v m)"
    and inv_del: "inv m \<Longrightarrow> inv (del k m)"
    and lookup_upd: "map_of (upd k v m) = (map_of m)(k \<mapsto> v)"
    and lookup_del: "map_of (del k m) = (map_of m)(k := None)"
begin

lemma upd_overwrites: "map_of (upd k w (upd k v m)) = map_of (upd k w m)"
  by (simp add: lookup_upd)

lemma upd_commutes:
  "k \<noteq> l \<Longrightarrow> map_of (upd k v (upd l w m)) = map_of (upd l w (upd k v m))"
  by (simp add: lookup_upd fun_upd_twist)

lemma del_upd: "map_of (del k (upd k v m)) = map_of (del k m)"
  by (simp add: lookup_upd lookup_del)

lemma del_idem: "map_of (del k (del k m)) = map_of (del k m)"
  by (simp add: lookup_del)

lemma dom_upd: "fst ` set (upd k v m) = insert k (fst ` set m)"
  using arg_cong [OF lookup_upd, of dom] by (simp add: dom_map_of_conv_image_fst)

lemma dom_del: "fst ` set (del k m) = fst ` set m - {k}"
  using arg_cong [OF lookup_del, of dom] by (simp add: dom_map_of_conv_image_fst)

end

section \<open>Unordered maps\<close>

abbreviation um_ok :: "('k \<times> 'v) list \<Rightarrow> bool" where
  "um_ok m \<equiv> distinct (map fst m)"

definition um_set :: "'k \<Rightarrow> 'v \<Rightarrow> ('k \<times> 'v) list \<Rightarrow> ('k \<times> 'v) list" where
  "um_set k v m =
     (if map_of m k = None then (k, v) # m
      else map (\<lambda>(x, y). if x = k then (x, v) else (x, y)) m)"

definition um_emplace :: "'k \<Rightarrow> 'v \<Rightarrow> ('k \<times> 'v) list \<Rightarrow> ('k \<times> 'v) list" where
  "um_emplace k v m = (if map_of m k = None then (k, v) # m else m)"

definition um_erase :: "'k \<Rightarrow> ('k \<times> 'v) list \<Rightarrow> ('k \<times> 'v) list" where
  "um_erase k m = filter (\<lambda>e. fst e \<noteq> k) m"

lemma map_of_replace:
  "map_of (map (\<lambda>(x, y). if x = k then (x, v) else (x, y)) m) l =
     (if l = k \<and> map_of m k \<noteq> None then Some v else map_of m l)"
  by (induction m) auto

lemma map_of_um_set [simp]: "map_of (um_set k v m) = (map_of m)(k \<mapsto> v)"
  by (rule ext) (simp add: um_set_def map_of_replace)

lemma map_of_um_erase [simp]: "map_of (um_erase k m) = (map_of m)(k := None)"
  by (induction m) (auto simp: um_erase_def)

lemma map_of_um_emplace:
  "map_of (um_emplace k v m) = (if map_of m k = None then (map_of m)(k \<mapsto> v) else map_of m)"
  by (simp add: um_emplace_def)

lemma um_ok_um_set:
  assumes "um_ok m"
  shows "um_ok (um_set k v m)"
proof (cases "map_of m k")
  case None
  with assms show ?thesis
    by (simp add: um_set_def map_of_eq_None_iff)
next
  case (Some w)
  have "map fst (map (\<lambda>(x, y). if x = k then (x, v) else (x, y)) m) = map fst m"
    by (induction m) auto
  then have "map fst (um_set k v m) = map fst m"
    using Some by (simp only: um_set_def option.distinct if_False)
  with assms show ?thesis
    by simp
qed

lemma um_ok_um_emplace: "um_ok m \<Longrightarrow> um_ok (um_emplace k v m)"
  by (auto simp: um_emplace_def map_of_eq_None_iff)

lemma um_ok_um_erase: "um_ok m \<Longrightarrow> um_ok (um_erase k m)"
  by (simp add: um_erase_def distinct_map_filter)

lemma um_erase_absent: "map_of m k = None \<Longrightarrow> um_erase k m = m"
  by (auto simp: um_erase_def map_of_eq_None_iff filter_id_conv)

lemma set_um_erase: "set (um_erase k m) = {e \<in> set m. fst e \<noteq> k}"
  by (auto simp: um_erase_def)

interpretation umap: finite_map um_ok um_set um_erase
  by unfold_locales (simp_all add: um_ok_um_set um_ok_um_erase)

section \<open>Ordered maps\<close>

definition om_ok :: "('k::linorder \<times> 'v) list \<Rightarrow> bool" where
  "om_ok m \<longleftrightarrow> sorted_wrt (<) (map fst m)"

fun om_set :: "'k::linorder \<Rightarrow> 'v \<Rightarrow> ('k \<times> 'v) list \<Rightarrow> ('k \<times> 'v) list" where
  "om_set k v [] = [(k, v)]"
| "om_set k v ((x, y) # m) =
     (if k < x then (k, v) # (x, y) # m
      else if k = x then (k, v) # m
      else (x, y) # om_set k v m)"

definition om_emplace :: "'k::linorder \<Rightarrow> 'v \<Rightarrow> ('k \<times> 'v) list \<Rightarrow> ('k \<times> 'v) list" where
  "om_emplace k v m = (if map_of m k = None then om_set k v m else m)"

definition om_erase :: "'k::linorder \<Rightarrow> ('k \<times> 'v) list \<Rightarrow> ('k \<times> 'v) list" where
  "om_erase k m = filter (\<lambda>e. fst e \<noteq> k) m"

text \<open>\<open>--lower_bound(k)\<close> where it exists: the last entry below \<open>k\<close>; and \<open>--upper_bound(k)\<close>:
  the last entry not above \<open>k\<close>.\<close>

definition om_before :: "'k::linorder \<Rightarrow> ('k \<times> 'v) list \<Rightarrow> ('k \<times> 'v) option" where
  "om_before k m = (case filter (\<lambda>e. fst e < k) m of [] \<Rightarrow> None | es \<Rightarrow> Some (last es))"

definition om_floor :: "'k::linorder \<Rightarrow> ('k \<times> 'v) list \<Rightarrow> ('k \<times> 'v) option" where
  "om_floor k m = (case filter (\<lambda>e. fst e \<le> k) m of [] \<Rightarrow> None | es \<Rightarrow> Some (last es))"

lemma om_ok_Nil [simp]: "om_ok []"
  by (simp add: om_ok_def)

lemma om_ok_Cons [simp]: "om_ok (e # m) \<longleftrightarrow> (\<forall>f \<in> set m. fst e < fst f) \<and> om_ok m"
  by (simp add: om_ok_def)

lemma om_ok_distinct: "om_ok m \<Longrightarrow> distinct (map fst m)"
  by (simp add: om_ok_def strict_sorted_iff)

lemma set_om_set_subset: "set (om_set k v m) \<subseteq> insert (k, v) (set m)"
  by (induction m) (auto split: if_splits)

lemma map_of_om_set [simp]: "map_of (om_set k v m) = (map_of m)(k \<mapsto> v)"
  by (induction m) (auto simp: fun_eq_iff)

lemma map_of_om_erase [simp]: "map_of (om_erase k m) = (map_of m)(k := None)"
  by (induction m) (auto simp: om_erase_def)

lemma om_ok_om_set: "om_ok m \<Longrightarrow> om_ok (om_set k v m)"
proof (induction m)
  case (Cons e m)
  obtain x y where e: "e = (x, y)"
    by (cases e)
  show ?case
  proof (cases "k \<le> x")
    case True
    with Cons.prems e show ?thesis
      by (fastforce simp: le_less)
  next
    case False
    then have "x < k"
      by simp
    moreover have "\<forall>f \<in> set (om_set k v m). x < fst f"
      using set_om_set_subset [of k v m] Cons.prems e \<open>x < k\<close> by fastforce
    ultimately show ?thesis
      using Cons e False by auto
  qed
qed simp

lemma om_ok_filter: "om_ok m \<Longrightarrow> om_ok (filter P m)"
  by (induction m) auto

lemma om_ok_om_erase: "om_ok m \<Longrightarrow> om_ok (om_erase k m)"
  by (simp add: om_erase_def om_ok_filter)

lemma om_ok_om_emplace: "om_ok m \<Longrightarrow> om_ok (om_emplace k v m)"
  by (simp add: om_emplace_def om_ok_om_set)

lemma set_om_erase [simp]: "set (om_erase k m) = {e \<in> set m. fst e \<noteq> k}"
  by (auto simp: om_erase_def)

lemma om_mem_iff: "om_ok m \<Longrightarrow> (k, v) \<in> set m \<longleftrightarrow> map_of m k = Some v"
  by (simp add: om_ok_distinct)

lemma set_om_set:
  assumes "om_ok m"
  shows "set (om_set k v m) = insert (k, v) {e \<in> set m. fst e \<noteq> k}"
proof -
  have "(x, y) \<in> set (om_set k v m) \<longleftrightarrow> (x, y) \<in> insert (k, v) {e \<in> set m. fst e \<noteq> k}" for x y
    using om_mem_iff [OF assms, of x y] om_mem_iff [OF om_ok_om_set [OF assms], of x y k v]
    by auto
  then show ?thesis
    by (auto simp: set_eq_iff split_paired_all simp del: insert_iff)
qed

lemma last_filter_greatest:
  assumes "om_ok m" and "filter P m \<noteq> []" and "e = last (filter P m)"
  shows "e \<in> set m \<and> P e \<and> (\<forall>f \<in> set m. P f \<longrightarrow> fst f \<le> fst e)"
  using assms
proof (induction m)
  case (Cons a m)
  show ?case
  proof (cases "filter P m = []")
    case True
    with Cons.prems show ?thesis
      by (auto simp: filter_empty_conv split: if_splits)
  next
    case False
    with Cons.prems have l: "e = last (filter P m)"
      by (simp split: if_splits)
    with Cons False have IH: "e \<in> set m \<and> P e \<and> (\<forall>f \<in> set m. P f \<longrightarrow> fst f \<le> fst e)"
      by simp
    moreover from IH Cons.prems have "fst a < fst e"
      by simp
    ultimately show ?thesis
      by auto
  qed
qed simp

lemma om_floor_SomeD:
  assumes "om_ok m" and "om_floor k m = Some e"
  shows "e \<in> set m" and "fst e \<le> k" and "\<forall>f \<in> set m. fst f \<le> k \<longrightarrow> fst f \<le> fst e"
  using assms last_filter_greatest [OF assms(1), of "\<lambda>e. fst e \<le> k" e]
  by (auto simp: om_floor_def split: list.splits)

lemma om_floor_NoneD: "om_floor k m = None \<Longrightarrow> \<forall>f \<in> set m. k < fst f"
  by (auto simp: om_floor_def filter_empty_conv split: list.splits)

lemma om_floorI:
  assumes "om_ok m" and "e \<in> set m" and "fst e \<le> k"
    and "\<And>f. f \<in> set m \<Longrightarrow> fst f \<le> k \<Longrightarrow> fst f \<le> fst e"
  shows "om_floor k m = Some e"
proof (cases "om_floor k m")
  case None
  with assms(2,3) om_floor_NoneD [OF None] show ?thesis
    by auto
next
  case (Some f)
  note f = om_floor_SomeD [OF assms(1) Some]
  then have "fst f = fst e"
    using assms by (meson order_antisym)
  with f(1) assms(1,2) have "f = e"
    by (metis om_mem_iff option.inject prod.collapse)
  with Some show ?thesis
    by simp
qed

lemma om_before_SomeD:
  assumes "om_ok m" and "om_before k m = Some e"
  shows "e \<in> set m" and "fst e < k" and "\<forall>f \<in> set m. fst f < k \<longrightarrow> fst f \<le> fst e"
  using assms last_filter_greatest [OF assms(1), of "\<lambda>e. fst e < k" e]
  by (auto simp: om_before_def split: list.splits)

lemma om_before_NoneD: "om_before k m = None \<Longrightarrow> \<forall>f \<in> set m. k \<le> fst f"
  by (auto simp: om_before_def filter_empty_conv not_less split: list.splits)

interpretation omap: finite_map om_ok om_set om_erase
  by unfold_locales (simp_all add: om_ok_om_set om_ok_om_erase)

section \<open>Ordered sets\<close>

abbreviation os_ok :: "'a::linorder list \<Rightarrow> bool" where
  "os_ok s \<equiv> sorted_wrt (<) s"

fun os_insert :: "'a::linorder \<Rightarrow> 'a list \<Rightarrow> 'a list" where
  "os_insert x [] = [x]"
| "os_insert x (y # s) =
     (if x < y then x # y # s else if x = y then y # s else y # os_insert x s)"

definition os_erase :: "'a::linorder \<Rightarrow> 'a list \<Rightarrow> 'a list" where
  "os_erase x s = filter (\<lambda>y. y \<noteq> x) s"

definition os_lower_bound :: "'a::linorder \<Rightarrow> 'a list \<Rightarrow> 'a option" where
  "os_lower_bound x s = find (\<lambda>y. x \<le> y) s"

lemma set_os_insert [simp]: "set (os_insert x s) = insert x (set s)"
  by (induction s) auto

lemma set_os_erase [simp]: "set (os_erase x s) = set s - {x}"
  by (auto simp: os_erase_def)

lemma os_ok_insert: "os_ok s \<Longrightarrow> os_ok (os_insert x s)"
  by (induction s) auto

lemma os_ok_erase: "os_ok s \<Longrightarrow> os_ok (os_erase x s)"
  by (simp add: os_erase_def sorted_wrt_filter)

lemma os_lower_bound_SomeD:
  assumes "os_ok s" and "os_lower_bound x s = Some y"
  shows "y \<in> set s" and "x \<le> y" and "\<forall>z \<in> set s. x \<le> z \<longrightarrow> y \<le> z"
proof -
  from assms have "y \<in> set s \<and> x \<le> y \<and> (\<forall>z \<in> set s. x \<le> z \<longrightarrow> y \<le> z)"
    unfolding os_lower_bound_def
    by (induction s) (auto split: if_splits)
  then show "y \<in> set s" and "x \<le> y" and "\<forall>z \<in> set s. x \<le> z \<longrightarrow> y \<le> z"
    by auto
qed

lemma os_lower_bound_None: "os_lower_bound x s = None \<longleftrightarrow> (\<forall>z \<in> set s. z < x)"
  by (auto simp: os_lower_bound_def find_None_iff not_le)

end
