(* ===== verification/Store_Backend.thy ===== *)
theory Store_Backend
  imports Containers
begin

text \<open>
  The storage interface of the configuration store and its in-memory implementation
  (\<^verbatim>\<open>src/smem/csrc/config_store/backend/\<close>).

  \<open>backend_ops\<close> is the virtual interface \<open>ConfigStoreBackend\<close>: a record of its operations, passed
  to the server as the object's virtual table. The locale \<open>store_backend\<close> states what the
  interface documents, \<open>reliable_backend\<close> adds that \<open>Put\<close> does not fail; \<open>SmemLocalMemoryBackend\<close>
  is an interpretation of both. \<open>DistributedLockGuard\<close> is modelled over the interface.
\<close>

section \<open>Error codes\<close>

datatype StoreErrorCode = SUCCESS | ERROR | INVALID_MESSAGE | INVALID_KEY | NOT_EXIST | RESTORE
  | TIMEOUT | IO_ERROR

fun store_code :: "StoreErrorCode \<Rightarrow> int" where
  "store_code SUCCESS = 0"
| "store_code ERROR = - 1"
| "store_code INVALID_MESSAGE = - 400"
| "store_code INVALID_KEY = - 401"
| "store_code NOT_EXIST = - 404"
| "store_code RESTORE = - 405"
| "store_code TIMEOUT = - 601"
| "store_code IO_ERROR = - 602"

lemma store_code_inj: "store_code a = store_code b \<longleftrightarrow> a = b"
  by (cases a; cases b) auto

section \<open>The interface\<close>

text \<open>\<open>Get\<close> takes the output parameter's old value, since it is written on success only.\<close>

record 'b backend_ops =
  be_get :: "'b \<Rightarrow> bytes \<Rightarrow> bytes \<Rightarrow> StoreErrorCode \<times> bytes"
  be_put :: "'b \<Rightarrow> bytes \<Rightarrow> bytes \<Rightarrow> int \<Rightarrow> StoreErrorCode \<times> 'b"
  be_delete :: "'b \<Rightarrow> bytes \<Rightarrow> StoreErrorCode \<times> 'b"
  be_exist :: "'b \<Rightarrow> bytes \<Rightarrow> StoreErrorCode"
  be_clear :: "'b \<Rightarrow> 'b"
  be_acquire :: "'b \<Rightarrow> bytes \<Rightarrow> StoreErrorCode \<times> 'b"
  be_release :: "'b \<Rightarrow> bytes \<Rightarrow> StoreErrorCode \<times> 'b"
  be_try_acquire :: "'b \<Rightarrow> bytes \<Rightarrow> int \<Rightarrow> StoreErrorCode \<times> 'b"

locale store_backend =
  fixes ops :: "'b backend_ops"
    and lookup :: "'b \<Rightarrow> bytes \<rightharpoonup> bytes"
  assumes get_spec: "be_get ops b k out =
      (case lookup b k of None \<Rightarrow> (NOT_EXIST, out) | Some v \<Rightarrow> (SUCCESS, v))"
    and put_success: "be_put ops b k v ttl = (SUCCESS, b') \<Longrightarrow> lookup b' = (lookup b)(k \<mapsto> v)"
    and put_failure: "be_put ops b k v ttl = (e, b') \<Longrightarrow> e \<noteq> SUCCESS \<Longrightarrow> lookup b' = lookup b"
    and delete_code: "fst (be_delete ops b k) = (if lookup b k = None then NOT_EXIST else SUCCESS)"
    and delete_lookup: "lookup (snd (be_delete ops b k)) = (lookup b)(k := None)"
    and exist_spec: "be_exist ops b k = (if lookup b k = None then NOT_EXIST else SUCCESS)"
    and clear_lookup: "lookup (be_clear ops b) = Map.empty"
begin

lemma exist_success_iff: "be_exist ops b k = SUCCESS \<longleftrightarrow> lookup b k \<noteq> None"
  by (simp add: exist_spec)

lemma get_success_iff: "fst (be_get ops b k out) = SUCCESS \<longleftrightarrow> lookup b k \<noteq> None"
  by (simp add: get_spec split: option.splits)

end

locale reliable_backend = store_backend +
  assumes put_succeeds: "fst (be_put ops b k v ttl) = SUCCESS"
begin

lemma put_lookup: "lookup (snd (be_put ops b k v ttl)) = (lookup b)(k \<mapsto> v)"
  using put_success [of b k v ttl] put_succeeds [of b k v ttl] by (metis prod.collapse)

lemma put_pair: "be_put ops b k v ttl = (SUCCESS, snd (be_put ops b k v ttl))"
  using put_succeeds [of b k v ttl] by (metis prod.collapse)

lemma get_put: "be_get ops (snd (be_put ops b k v ttl)) k out = (SUCCESS, v)"
  by (simp add: get_spec put_lookup)

end

section \<open>SmemLocalMemoryBackend\<close>

record LocalBackend =
  kvStore :: "(bytes \<times> bytes) list"

definition local_get :: "LocalBackend \<Rightarrow> bytes \<Rightarrow> bytes \<Rightarrow> StoreErrorCode \<times> bytes" where
  "local_get b key outValue =
     (case map_of (kvStore b) key of
        None \<Rightarrow> (NOT_EXIST, outValue)
      | Some v \<Rightarrow> (SUCCESS, v))"

definition local_put :: "LocalBackend \<Rightarrow> bytes \<Rightarrow> bytes \<Rightarrow> int \<Rightarrow> StoreErrorCode \<times> LocalBackend" where
  "local_put b key value ttlSeconds = (SUCCESS, b\<lparr>kvStore := um_set key value (kvStore b)\<rparr>)"

definition local_delete :: "LocalBackend \<Rightarrow> bytes \<Rightarrow> StoreErrorCode \<times> LocalBackend" where
  "local_delete b key =
     (if map_of (kvStore b) key \<noteq> None then SUCCESS else NOT_EXIST,
      b\<lparr>kvStore := um_erase key (kvStore b)\<rparr>)"

definition local_exist :: "LocalBackend \<Rightarrow> bytes \<Rightarrow> StoreErrorCode" where
  "local_exist b key = (if map_of (kvStore b) key \<noteq> None then SUCCESS else NOT_EXIST)"

definition local_clear :: "LocalBackend \<Rightarrow> LocalBackend" where
  "local_clear b = b\<lparr>kvStore := []\<rparr>"

definition local_lock :: "LocalBackend \<Rightarrow> bytes \<Rightarrow> StoreErrorCode \<times> LocalBackend" where
  "local_lock b name = (ERROR, b)"

definition local_unlock :: "LocalBackend \<Rightarrow> bytes \<Rightarrow> StoreErrorCode \<times> LocalBackend" where
  "local_unlock b name = (ERROR, b)"

definition local_try_lock :: "LocalBackend \<Rightarrow> bytes \<Rightarrow> int \<Rightarrow> StoreErrorCode \<times> LocalBackend" where
  "local_try_lock b name timeoutMs = (ERROR, b)"

definition local_ops :: "LocalBackend backend_ops" where
  "local_ops = \<lparr>be_get = local_get, be_put = local_put, be_delete = local_delete,
     be_exist = local_exist, be_clear = local_clear, be_acquire = local_lock,
     be_release = local_unlock, be_try_acquire = local_try_lock\<rparr>"

definition local_lookup :: "LocalBackend \<Rightarrow> bytes \<rightharpoonup> bytes" where
  "local_lookup b = map_of (kvStore b)"

lemmas local_backend_defs = local_ops_def local_get_def local_put_def local_delete_def
  local_exist_def local_clear_def local_lock_def local_unlock_def local_try_lock_def local_lookup_def

interpretation local: reliable_backend local_ops local_lookup
  by unfold_locales (auto simp: local_backend_defs)

section \<open>DistributedLockGuard\<close>

text \<open>A guard holds the lock's name and whether it owns the lock; \<open>backend_\<close> is never null here.\<close>

record LockGuard =
  lockName :: bytes
  isLocked :: bool

definition guard_acquire :: "'b backend_ops \<Rightarrow> bytes \<Rightarrow> 'b \<Rightarrow> LockGuard \<times> 'b" where
  "guard_acquire ops name b =
     (let (result, b) = be_acquire ops b name
      in (\<lparr>lockName = name, isLocked = (result = SUCCESS)\<rparr>, b))"

definition guard_try :: "'b backend_ops \<Rightarrow> bytes \<Rightarrow> int \<Rightarrow> 'b \<Rightarrow> StoreErrorCode \<times> LockGuard \<times> 'b" where
  "guard_try ops name timeout b =
     (let (result, b) = be_try_acquire ops b name timeout
      in (result, \<lparr>lockName = name, isLocked = (result = SUCCESS)\<rparr>, b))"

definition guard_destroy :: "'b backend_ops \<Rightarrow> LockGuard \<Rightarrow> 'b \<Rightarrow> 'b" where
  "guard_destroy ops g b = (if isLocked g then snd (be_release ops b (lockName g)) else b)"

definition guard_move :: "LockGuard \<Rightarrow> LockGuard \<times> LockGuard" where
  "guard_move other = (other, other\<lparr>lockName := [], isLocked := False\<rparr>)"

definition guard_move_assign ::
    "'b backend_ops \<Rightarrow> LockGuard \<Rightarrow> LockGuard \<Rightarrow> 'b \<Rightarrow> LockGuard \<times> LockGuard \<times> 'b" where
  "guard_move_assign ops this other b =
     (let b = (if isLocked this then snd (be_release ops b (lockName this)) else b)
      in (other, other\<lparr>lockName := [], isLocked := False\<rparr>, b))"

definition guard_unlock :: "'b backend_ops \<Rightarrow> LockGuard \<Rightarrow> 'b \<Rightarrow> LockGuard \<times> 'b" where
  "guard_unlock ops g b =
     (if isLocked g then (g\<lparr>isLocked := False\<rparr>, snd (be_release ops b (lockName g))) else (g, b))"

end
