(* ===== verification/Message_Packer.thy ===== *)
theory Message_Packer
  imports Prelude
begin

text \<open>
  The wire format of the configuration store
  (\<^verbatim>\<open>src/smem/csrc/config_store/tcp_store/smem_message_packer.h/.cpp\<close>): the message
  record, \<open>Pack\<close>, \<open>Full\<close>, \<open>MessageSize\<close> and \<open>Unpack\<close>. A buffer pointer is \<open>None\<close> for null and
  otherwise the bytes it may read, so that \<open>bufferLen\<close> is their number. \<open>Unpack\<close> has type
  \<open>cpp\<close>: its reads of the item sizes are not checked against the buffer.

  The lemmas show that packing then unpacking returns the message, whatever follows it in the
  buffer; that every message \<open>Unpack\<close> accepts is the packing of what it returns; and that a
  well-formed prefix can make \<open>Unpack\<close> read past the end.
\<close>

section \<open>Messages\<close>

datatype MessageType = SET | GET | ADD | REMOVE | APPEND | CAS | WRITE | WATCH_RANK_STATE
  | HEARTBEAT | INVALID_MSG

record SmemMessage =
  mt :: MessageType
  userDef :: u64
  keys :: "bytes list"
  vals :: "bytes list"

abbreviation (input) MAX_KEY_COUNT :: nat where "MAX_KEY_COUNT \<equiv> 10"
abbreviation (input) MAX_KEY_SIZE :: nat where "MAX_KEY_SIZE \<equiv> 2048"
abbreviation (input) MAX_VALUE_COUNT :: nat where "MAX_VALUE_COUNT \<equiv> 10"
abbreviation (input) MAX_VALUE_SIZE :: nat where "MAX_VALUE_SIZE \<equiv> 67108864"

text \<open>The default member initialisers: type \<open>type\<close>, \<open>userDef\<close> -1, no keys, no values.\<close>

definition message :: "MessageType \<Rightarrow> SmemMessage" where
  "message type = \<lparr>mt = type, userDef = - 1, keys = [], vals = []\<rparr>"

fun mt_code :: "MessageType \<Rightarrow> nat" where
  "mt_code SET = 0"
| "mt_code GET = 1"
| "mt_code ADD = 2"
| "mt_code REMOVE = 3"
| "mt_code APPEND = 4"
| "mt_code CAS = 5"
| "mt_code WRITE = 6"
| "mt_code WATCH_RANK_STATE = 7"
| "mt_code HEARTBEAT = 8"
| "mt_code INVALID_MSG = 9"

definition mt_list :: "MessageType list" where
  "mt_list = [SET, GET, ADD, REMOVE, APPEND, CAS, WRITE, WATCH_RANK_STATE, HEARTBEAT, INVALID_MSG]"

section \<open>Packing\<close>

definition PackValue :: "bytes \<Rightarrow> nat \<Rightarrow> nat \<Rightarrow> bytes" where
  "PackValue dest n value = dest @ le_encode n value"

definition PackString :: "bytes \<Rightarrow> bytes \<Rightarrow> bytes" where
  "PackString dest s =
     (let dest = PackValue dest 8 (length s) in if s \<noteq> [] then dest @ s else dest)"

definition PackBytes :: "bytes \<Rightarrow> bytes \<Rightarrow> bytes" where
  "PackBytes dest bs = PackValue dest 8 (length bs) @ bs"

definition baseSize :: nat where
  "baseSize = 4 * 8 + 2"

definition totalSize :: "SmemMessage \<Rightarrow> nat" where
  "totalSize m =
     fold (\<lambda>v n. n + (8 + length v)) (vals m)
       (fold (\<lambda>k n. n + (8 + length k)) (keys m) baseSize)"

definition Pack :: "SmemMessage \<Rightarrow> bytes" where
  "Pack m =
     (let result = PackValue [] 8 (totalSize m);
          result = PackValue result 8 (unat (userDef m));
          result = PackValue result 2 (mt_code (mt m));
          result = PackValue result 8 (length (keys m));
          result = fold (\<lambda>k r. PackString r k) (keys m) result;
          result = PackValue result 8 (length (vals m))
      in fold (\<lambda>v r. PackBytes r v) (vals m) result)"

section \<open>Unpacking\<close>

text \<open>A read of \<open>n\<close> bytes at an offset: undefined past the end of the buffer.\<close>

definition read_at :: "nat \<Rightarrow> bytes \<Rightarrow> nat \<Rightarrow> nat cpp" where
  "read_at n buf off = (if off + n \<le> length buf then Some (le_decode (take n (drop off buf))) else None)"

definition Full :: "bytes \<Rightarrow> bool" where
  "Full buf = (if length buf < baseSize then False else le_decode (take 8 buf) \<le> length buf)"

definition MessageSize :: "bytes \<Rightarrow> int" where
  "MessageSize buf = (if length buf < baseSize then - 1 else sint (word_le (take 8 buf) :: u64))"

text \<open>
  One of the two item loops of \<open>Unpack\<close>: \<open>n\<close> more items, each with its size in front, of at most
  \<open>limit\<close> bytes. \<open>Inl\<close> is the early return of -1.
\<close>

fun unpack_items :: "nat \<Rightarrow> nat \<Rightarrow> bytes \<Rightarrow> nat \<Rightarrow> (int + bytes list \<times> nat) cpp" where
  "unpack_items limit 0 buf off = Some (Inr ([], off))"
| "unpack_items limit (Suc n) buf off =
     do {
       size \<leftarrow> read_at 8 buf off;
       let off = off + 8;
       if size > limit \<or> off + size > length buf then Some (Inl (- 1))
       else do {
         r \<leftarrow> unpack_items limit n buf (off + size);
         Some (case r of
             Inl e \<Rightarrow> Inl e
           | Inr (items, off') \<Rightarrow> Inr (take size (drop off buf) # items, off'))
       }
     }"

definition Unpack :: "bytes option \<Rightarrow> (int + SmemMessage \<times> int) cpp" where
  "Unpack buffer =
     (case buffer of
        None \<Rightarrow> Some (Inl (- 1))
      | Some buf \<Rightarrow>
          if \<not> Full buf then Some (Inl (- 1))
          else do {
            total \<leftarrow> read_at 8 buf 0;
            ud \<leftarrow> read_at 8 buf 8;
            ty \<leftarrow> read_at 2 buf 16;
            let ty = sint (of_nat ty :: u16);
            if ty < 0 \<or> ty > 9 then Some (Inl (- 1))
            else do {
              keyCount \<leftarrow> read_at 8 buf 18;
              if keyCount > MAX_KEY_COUNT then Some (Inl (- 1))
              else do {
                rk \<leftarrow> unpack_items MAX_KEY_SIZE keyCount buf 26;
                case rk of
                  Inl e \<Rightarrow> Some (Inl e)
                | Inr (ks, off) \<Rightarrow>
                    do {
                      valueCount \<leftarrow> read_at 8 buf off;
                      if valueCount > MAX_VALUE_COUNT then Some (Inl (- 1))
                      else do {
                        rv \<leftarrow> unpack_items MAX_VALUE_SIZE valueCount buf (off + 8);
                        case rv of
                          Inl e \<Rightarrow> Some (Inl e)
                        | Inr (vs, off) \<Rightarrow>
                            if total \<noteq> off then Some (Inl (- 1))
                            else Some (Inr (\<lparr>mt = mt_list ! nat ty, userDef = of_nat ud,
                                              keys = ks, vals = vs\<rparr>, int total))
                      }
                    }
              }
            }
          })"

section \<open>The layout of a packed message\<close>

definition item_bytes :: "bytes \<Rightarrow> bytes" where
  "item_bytes s = le_encode 8 (length s) @ s"

definition items_bytes :: "bytes list \<Rightarrow> bytes" where
  "items_bytes xs = concat (map item_bytes xs)"

lemma length_item_bytes [simp]: "length (item_bytes s) = 8 + length s"
  by (simp add: item_bytes_def)

lemma items_bytes_simps [simp]:
  "items_bytes [] = []"
  "items_bytes (x # xs) = item_bytes x @ items_bytes xs"
  by (simp_all add: items_bytes_def)

lemma PackString_eq: "PackString dest s = dest @ item_bytes s"
  by (simp add: PackString_def PackValue_def item_bytes_def Let_def)

lemma PackBytes_eq: "PackBytes dest s = dest @ item_bytes s"
  by (simp add: PackBytes_def PackValue_def item_bytes_def)

lemma fold_PackString: "fold (\<lambda>k r. PackString r k) ks r = r @ items_bytes ks"
  by (induction ks arbitrary: r) (simp_all add: PackString_eq)

lemma fold_PackBytes: "fold (\<lambda>k r. PackBytes r k) ks r = r @ items_bytes ks"
  by (induction ks arbitrary: r) (simp_all add: PackBytes_eq)

lemma fold_size: "fold (\<lambda>k n. n + (8 + length k)) ks n = n + length (items_bytes ks)"
  by (induction ks arbitrary: n) simp_all

lemma totalSize_eq:
  "totalSize m = 34 + length (items_bytes (keys m)) + length (items_bytes (vals m))"
  by (simp add: totalSize_def fold_size baseSize_def)

lemma Pack_eq:
  "Pack m = le_encode 8 (totalSize m) @ le_encode 8 (unat (userDef m)) @ le_encode 2 (mt_code (mt m))
     @ le_encode 8 (length (keys m)) @ items_bytes (keys m)
     @ le_encode 8 (length (vals m)) @ items_bytes (vals m)"
  by (simp add: Pack_def PackValue_def fold_PackString fold_PackBytes Let_def)

lemma length_Pack: "length (Pack m) = totalSize m"
  by (simp add: Pack_eq totalSize_eq)

section \<open>Packing then unpacking\<close>

definition wf_message :: "SmemMessage \<Rightarrow> bool" where
  "wf_message m \<longleftrightarrow>
     length (keys m) \<le> MAX_KEY_COUNT \<and> (\<forall>k \<in> set (keys m). length k \<le> MAX_KEY_SIZE) \<and>
     length (vals m) \<le> MAX_VALUE_COUNT \<and> (\<forall>v \<in> set (vals m). length v \<le> MAX_VALUE_SIZE)"

lemma read_at_mid:
  "length pre = off \<Longrightarrow> x < 256 ^ n \<Longrightarrow> read_at n (pre @ le_encode n x @ post) off = Some x"
  by (simp add: read_at_def le_decode_encode_small)

lemma unpack_items_pack:
  assumes "\<forall>x \<in> set xs. length x \<le> limit" and "limit < 256 ^ 8"
  shows "unpack_items limit (length xs) (pre @ items_bytes xs @ post) (length pre) =
    Some (Inr (xs, length pre + length (items_bytes xs)))"
  using assms
proof (induction xs arbitrary: pre)
  case (Cons x xs)
  let ?pre = "pre @ item_bytes x"
  have "unpack_items limit (length xs) (?pre @ items_bytes xs @ post) (length ?pre) =
      Some (Inr (xs, length ?pre + length (items_bytes xs)))"
    using Cons.prems by (intro Cons.IH) simp_all
  moreover have "read_at 8 (pre @ le_encode 8 (length x) @ (x @ items_bytes xs @ post)) (length pre) =
      Some (length x)"
    using Cons.prems by (intro read_at_mid) auto
  ultimately show ?case
    using Cons.prems by (simp add: item_bytes_def add.assoc Let_def)
qed simp

lemma length_items_bytes_le:
  "\<forall>x \<in> set xs. length x \<le> limit \<Longrightarrow> length (items_bytes xs) \<le> length xs * (8 + limit)"
  by (induction xs) auto

lemma wf_totalSize: "wf_message m \<Longrightarrow> totalSize m < 256 ^ 8"
proof -
  assume wf: "wf_message m"
  then have "length (items_bytes (keys m)) \<le> length (keys m) * (8 + MAX_KEY_SIZE)"
    and "length (items_bytes (vals m)) \<le> length (vals m) * (8 + MAX_VALUE_SIZE)"
    using length_items_bytes_le [of "keys m" MAX_KEY_SIZE] length_items_bytes_le [of "vals m" MAX_VALUE_SIZE]
    by (simp_all add: wf_message_def)
  moreover have "length (keys m) * (8 + MAX_KEY_SIZE) \<le> 10 * (8 + MAX_KEY_SIZE)"
    and "length (vals m) * (8 + MAX_VALUE_SIZE) \<le> 10 * (8 + MAX_VALUE_SIZE)"
    using wf by (auto simp: wf_message_def)
  ultimately show ?thesis
    by (simp add: totalSize_eq)
qed

lemma mt_code_less: "mt_code t < 10"
  by (cases t) auto

lemma mt_list_code: "mt_list ! mt_code t = t"
  by (cases t) (simp_all add: mt_list_def)

lemma mt_code_list: "n < 10 \<Longrightarrow> mt_code (mt_list ! n) = n"
  by (auto simp: mt_list_def less_Suc_eq numeral_eq_Suc)

lemma sint_u16_small: "n < 10 \<Longrightarrow> sint (of_nat n :: u16) = int n"
  by (auto simp: less_Suc_eq numeral_eq_Suc)

lemma sint_u16_range:
  assumes "n < 65536" and "0 \<le> sint (of_nat n :: u16)" and "sint (of_nat n :: u16) \<le> 9"
  shows "sint (of_nat n :: u16) = int n" and "n \<le> 9"
proof -
  let ?w = "of_nat n :: u16"
  have "uint ?w = take_bit 16 (sint ?w)"
    by (simp add: uint_sint)
  with assms(2,3) have "uint ?w = sint ?w"
    by (simp add: take_bit_eq_mod)
  moreover have "uint ?w = int n"
    using assms(1) by (simp add: unsigned_of_nat take_bit_nat_eq_self)
  ultimately show "sint ?w = int n"
    by simp
  with assms(3) show "n \<le> 9"
    by simp
qed

lemma unpack_pack_prefix:
  assumes "wf_message m"
  shows "Unpack (Some (Pack m @ rest)) = Some (Inr (m, int (length (Pack m))))"
proof -
  let ?K = "items_bytes (keys m)" and ?V = "items_bytes (vals m)"
  let ?h = "le_encode 8 (totalSize m)" and ?u = "le_encode 8 (unat (userDef m))"
  let ?t = "le_encode 2 (mt_code (mt m))" and ?kc = "le_encode 8 (length (keys m))"
  let ?vc = "le_encode 8 (length (vals m))"
  let ?buf = "Pack m @ rest"
  have buf: "?buf = ?h @ ?u @ ?t @ ?kc @ ?K @ ?vc @ ?V @ rest"
    by (simp add: Pack_eq)
  have tot: "read_at 8 ?buf 0 = Some (totalSize m)"
    using read_at_mid [of "[]" 0 "totalSize m" 8] wf_totalSize [OF assms] by (simp add: buf)
  then have full: "Full ?buf"
    by (auto simp: Full_def read_at_def length_Pack totalSize_eq baseSize_def)
  have ud: "read_at 8 ?buf 8 = Some (unat (userDef m))"
    using read_at_mid [of ?h 8 "unat (userDef m)" 8] unsigned_less [of "userDef m", where ?'a = nat]
    by (simp add: buf)
  have ty: "read_at 2 ?buf 16 = Some (mt_code (mt m))"
    using read_at_mid [of "?h @ ?u" 16 "mt_code (mt m)" 2] mt_code_less [of "mt m"]
    by (simp add: buf)
  have kc: "read_at 8 ?buf 18 = Some (length (keys m))"
    using read_at_mid [of "?h @ ?u @ ?t" 18 "length (keys m)" 8] assms
    by (simp add: buf wf_message_def)
  have ks: "unpack_items MAX_KEY_SIZE (length (keys m)) ?buf 26 = Some (Inr (keys m, 26 + length ?K))"
    using unpack_items_pack [of "keys m" MAX_KEY_SIZE "?h @ ?u @ ?t @ ?kc" "?vc @ ?V @ rest"] assms
    by (simp add: buf wf_message_def)
  have vc: "read_at 8 ?buf (26 + length ?K) = Some (length (vals m))"
    using read_at_mid [of "?h @ ?u @ ?t @ ?kc @ ?K" "26 + length ?K" "length (vals m)" 8] assms
    by (simp add: buf wf_message_def)
  have vs: "unpack_items MAX_VALUE_SIZE (length (vals m)) ?buf (34 + length ?K) =
      Some (Inr (vals m, totalSize m))"
    using unpack_items_pack [of "vals m" MAX_VALUE_SIZE "?h @ ?u @ ?t @ ?kc @ ?K @ ?vc" "rest"] assms
    by (simp add: buf wf_message_def totalSize_eq)
  have "\<lparr>mt = mt_list ! mt_code (mt m), userDef = of_nat (unat (userDef m)), keys = keys m,
      vals = vals m\<rparr> = m"
    by (simp add: mt_list_code)
  then show ?thesis
    using assms mt_code_less [of "mt m"]
    by (simp add: Unpack_def full tot ud ty kc ks vc vs sint_u16_small length_Pack
        wf_message_def Let_def)
qed

section \<open>Unpacking is canonical\<close>

lemma read_at_SomeD:
  assumes "read_at n buf off = Some x"
  shows "off + n \<le> length buf" and "take n (drop off buf) = le_encode n x" and "x < 256 ^ n"
proof -
  from assms show "off + n \<le> length buf"
    by (simp add: read_at_def split: if_splits)
  with assms have x: "x = le_decode (take n (drop off buf))" and l: "length (take n (drop off buf)) = n"
    by (auto simp: read_at_def)
  from x l show "take n (drop off buf) = le_encode n x" and "x < 256 ^ n"
    using le_encode_decode_len [OF l] le_decode_less [of "take n (drop off buf)"] by simp_all
qed

lemma take_drop_append:
  "take (n + k) (drop a xs) = take n (drop a xs) @ take k (drop (a + n) xs)"
  by (simp add: take_add add.commute [of n a])

lemma unpack_items_canonical:
  assumes "unpack_items limit n buf off = Some (Inr (xs, off'))" and "off \<le> length buf"
  shows "length xs = n \<and> (\<forall>x \<in> set xs. length x \<le> limit) \<and> off' \<le> length buf \<and>
    off' = off + length (items_bytes xs) \<and>
    take (length (items_bytes xs)) (drop off buf) = items_bytes xs"
  using assms
proof (induction n arbitrary: off xs)
  case (Suc n)
  from Suc.prems obtain size ys where
    rd: "read_at 8 buf off = Some size" and lim: "size \<le> limit" "off + 8 + size \<le> length buf"
    and rec: "unpack_items limit n buf (off + 8 + size) = Some (Inr (ys, off'))"
    and xs: "xs = take size (drop (off + 8) buf) # ys"
    by (auto simp: Let_def cpp_simps not_less split: if_splits)
  let ?x = "take size (drop (off + 8) buf)"
  have len: "length ?x = size"
    using lim by simp
  note IH = Suc.IH [OF rec lim(2)]
  have item: "take (8 + size) (drop off buf) = item_bytes ?x"
    using read_at_SomeD(2) [OF rd] len by (simp only: item_bytes_def take_drop_append)
  have "take (8 + size + length (items_bytes ys)) (drop off buf) = item_bytes ?x @ items_bytes ys"
    using IH take_drop_append [of "8 + size" "length (items_bytes ys)" off buf] item
    by (simp add: add.assoc)
  then show ?case
    using IH lim len by (simp add: xs)
qed simp

lemma Unpack_canonical:
  assumes "Unpack (Some buf) = Some (Inr (m, n))"
  shows "wf_message m \<and> n = int (length (Pack m)) \<and> take (length (Pack m)) buf = Pack m"
proof -
  from assms obtain total ud ty kc ks off vc vs off' where
    tot: "read_at 8 buf 0 = Some total" and ud: "read_at 8 buf 8 = Some ud"
    and ty: "read_at 2 buf 16 = Some ty"
    and tyr: "0 \<le> sint (of_nat ty :: u16)" "sint (of_nat ty :: u16) \<le> 9"
    and kc: "read_at 8 buf 18 = Some kc" "kc \<le> MAX_KEY_COUNT"
    and ks: "unpack_items MAX_KEY_SIZE kc buf 26 = Some (Inr (ks, off))"
    and vc: "read_at 8 buf off = Some vc" "vc \<le> MAX_VALUE_COUNT"
    and vs: "unpack_items MAX_VALUE_SIZE vc buf (off + 8) = Some (Inr (vs, off'))"
    and fin: "total = off'" "n = int total"
    and m: "m = \<lparr>mt = mt_list ! nat (sint (of_nat ty :: u16)), userDef = of_nat ud, keys = ks,
              vals = vs\<rparr>"
    by (auto simp: Unpack_def Let_def cpp_simps not_less split: if_splits)
  note r = read_at_SomeD
  have ty9: "sint (of_nat ty :: u16) = int ty" "ty \<le> 9"
    using sint_u16_range [of ty] r(3) [OF ty] tyr by simp_all
  note K = unpack_items_canonical [OF ks]
  have K': "length ks = kc" "\<forall>x \<in> set ks. length x \<le> MAX_KEY_SIZE" "off = 26 + length (items_bytes ks)"
    "take (length (items_bytes ks)) (drop 26 buf) = items_bytes ks"
    using K r(1) [OF kc(1)] by auto
  note V = unpack_items_canonical [OF vs]
  have V': "length vs = vc" "\<forall>x \<in> set vs. length x \<le> MAX_VALUE_SIZE"
    "off' = off + 8 + length (items_bytes vs)"
    "take (length (items_bytes vs)) (drop (off + 8) buf) = items_bytes vs"
    using V r(1) [OF vc(1)] by auto
  have wf: "wf_message m"
    using kc vc K' V' by (simp add: wf_message_def m)
  have size: "totalSize m = total"
    by (simp add: totalSize_eq m fin K' V')
  have ud64: "unat (of_nat ud :: u64) = ud"
    using r(3) [OF ud] by (simp add: unat_of_nat)
  have mtc: "mt_code (mt m) = ty"
    using ty9 by (simp add: m mt_code_list)
  let ?k = "length (items_bytes ks)" and ?v = "length (items_bytes vs)"
  have "total = 8 + (8 + (2 + (8 + (?k + (8 + ?v)))))"
    using fin K' V' by simp
  then have "take total buf = take 8 (drop 0 buf) @ take 8 (drop 8 buf) @ take 2 (drop 16 buf)
      @ take 8 (drop 18 buf) @ take ?k (drop 26 buf) @ take 8 (drop off buf)
      @ take ?v (drop (off + 8) buf)"
    using take_drop_append [of 8 "8 + (2 + (8 + (?k + (8 + ?v))))" 0 buf]
      take_drop_append [of 8 "2 + (8 + (?k + (8 + ?v)))" 8 buf]
      take_drop_append [of 2 "8 + (?k + (8 + ?v))" 16 buf]
      take_drop_append [of 8 "?k + (8 + ?v)" 18 buf]
      take_drop_append [of ?k "8 + ?v" 26 buf] take_drop_append [of 8 ?v off buf] K'(3)
    by simp
  also have "\<dots> = Pack m"
    using r(2) [OF tot] r(2) [OF ud] r(2) [OF ty] r(2) [OF kc(1)] r(2) [OF vc(1)] K' V'
    by (simp add: Pack_eq size mtc) (simp add: m ud64)
  finally show ?thesis
    using wf size fin by (simp add: length_Pack)
qed

section \<open>Properties\<close>

text \<open>
  C3. Packing and unpacking are inverse in the strongest sense: \<open>Unpack\<close> returns the message \<open>m\<close> and
  the size \<open>n\<close> for exactly the buffers that begin with the packed form of \<open>m\<close>, for messages within
  the limits on the number and the size of keys and values, and \<open>n\<close> is the length of that form.
\<close>

theorem unpack_iff_packed:
  "Unpack (Some buf) = Some (Inr (m, n)) \<longleftrightarrow>
     wf_message m \<and> n = int (length (Pack m)) \<and> (\<exists>rest. buf = Pack m @ rest)"
proof
  assume "Unpack (Some buf) = Some (Inr (m, n))"
  note can = Unpack_canonical [OF this]
  then have "buf = Pack m @ drop (length (Pack m)) buf"
    by (metis append_take_drop_id)
  with can show "wf_message m \<and> n = int (length (Pack m)) \<and> (\<exists>rest. buf = Pack m @ rest)"
    by blast
qed (use unpack_pack_prefix in blast)

text \<open>
  \<open>Unpack\<close> checks that a key or a value lies inside the buffer, but not that the size in front of
  it or the number of values does: a complete 34 byte packet that announces one empty key makes it
  read eight bytes behind the buffer.
\<close>

theorem unpack_reads_outside:
  "\<exists>buf. length buf = 34 \<and> Full buf \<and> Unpack (Some buf) = None"
proof (intro exI conjI)
  let ?buf = "le_encode 8 34 @ le_encode 8 0 @ le_encode 2 0 @ le_encode 8 1 @ le_encode 8 0"
  show "length ?buf = 34"
    by simp
  show "Full ?buf"
    by code_simp
  show "Unpack (Some ?buf) = None"
    by code_simp
qed

end
