(* ===== verification/Store_Server.thy ===== *)
theory Store_Server
  imports Store_Backend Message_Packer Str_Util
begin

text \<open>
  The configuration store server, \<open>AccStoreServer\<close>
  (\<^verbatim>\<open>src/smem/csrc/config_store/tcp_store/smem_tcp_config_store_server.h/.cpp\<close>): its state and
  every handler, each as one atomic step, which is what the mutex \<open>storeMutex_\<close> makes of it.

  A step takes the backend's operations and, where the code reads them, the clock and the set of
  established links; it returns the new state, the replies in the order they are sent, and the
  return code. The unordered containers are lists in iteration order (theory \<open>Containers\<close>).
  Handlers registered from outside (\<open>RegisterOpHandler\<close>, \<open>RegisterBrokenLinkCHandler\<close>) are
  functions in the state; \<open>ext\<close> is the state behind them. Logging, threads and the transport's
  send queue are left out.
\<close>

section \<open>State\<close>

type_synonym link = u32

record ReqCtx =
  seqNo :: u32
  ctxLink :: "link option"

record WaitCtx =
  waitId :: u64
  timeoutMs :: int
  waitKey :: bytes
  reqCtx :: ReqCtx

type_synonym reply = "ReqCtx \<times> int \<times> bytes"
type_synonym ('b, 'x) op_handler = "link \<Rightarrow> bytes \<Rightarrow> bytes \<Rightarrow> 'b \<times> 'x \<Rightarrow> (result \<times> bytes \<times> 'b \<times> 'x) cpp"
type_synonym ('b, 'x) broken_handler = "link \<Rightarrow> 'b \<times> 'x \<Rightarrow> ('b \<times> 'x) cpp"

record ('b, 'x) AccStoreServer =
  backend :: 'b
  ext :: 'x
  waitCtx :: "(u64 \<times> WaitCtx) list"
  keyWaiters :: "(bytes \<times> u64 list) list"
  timedWaiters :: "(int \<times> u64 list) list"
  rankStateWaiters :: "(link \<times> WaitCtx) list"
  rankStateTaskQueue :: "u32 list"
  worldSize :: u32
  rankIndex :: u32
  aliveRankSet :: "u32 list"
  externalOpHandlerMap :: "(nat \<times> ('b, 'x) op_handler) list"
  externalBrokenHandler :: "('b, 'x) broken_handler option"
  heartBeatMap :: "(link \<times> int) list"
  idGen :: u64

type_synonym ('b, 'x) step_result = "(('b, 'x) AccStoreServer \<times> reply list \<times> result) cpp"

abbreviation (input) U32_MAX :: u32 where "U32_MAX \<equiv> 4294967295"
abbreviation (input) MAX_KEY_LEN_SERVER :: nat where "MAX_KEY_LEN_SERVER \<equiv> 2048"
abbreviation (input) MAX_U16_INDEX :: nat where "MAX_U16_INDEX \<equiv> 65535"
abbreviation (input) HEARTBEAT_INTERVAL :: int where "HEARTBEAT_INTERVAL \<equiv> 2000"
abbreviation (input) HEARTBEAT_TIMEOUT :: int where "HEARTBEAT_TIMEOUT \<equiv> 3"

definition AutoRankingStr :: bytes where
  "AutoRankingStr = str ''AutoRanking#''"

definition WATCH_RANK_DOWN_KEY :: bytes where
  "WATCH_RANK_DOWN_KEY = str ''WATCH_RANK_DOWN_KEY''"

definition new_server :: "u32 \<Rightarrow> 'b \<Rightarrow> 'x \<Rightarrow> ('b, 'x) AccStoreServer" where
  "new_server world b x = \<lparr>backend = b, ext = x, waitCtx = [], keyWaiters = [], timedWaiters = [],
     rankStateWaiters = [], rankStateTaskQueue = [], worldSize = world, rankIndex = 0,
     aliveRankSet = [], externalOpHandlerMap = [], externalBrokenHandler = None,
     heartBeatMap = [], idGen = 1\<rparr>"

section \<open>Helpers\<close>

definition RegisterOpHandler ::
    "nat \<Rightarrow> ('b, 'x) op_handler \<Rightarrow> ('b, 'x) AccStoreServer \<Rightarrow> ('b, 'x) AccStoreServer" where
  "RegisterOpHandler opcode handler s =
     s\<lparr>externalOpHandlerMap := um_set opcode handler (externalOpHandlerMap s)\<rparr>"

definition RegisterBrokenLinkCHandler ::
    "('b, 'x) broken_handler option \<Rightarrow> ('b, 'x) AccStoreServer \<Rightarrow> ('b, 'x) AccStoreServer" where
  "RegisterBrokenLinkCHandler handler s = s\<lparr>externalBrokenHandler := handler\<rparr>"

definition ExecuteHandle ::
    "MessageType \<Rightarrow> link \<Rightarrow> bytes \<Rightarrow> bytes \<Rightarrow> ('b, 'x) AccStoreServer \<Rightarrow>
       (result \<times> bytes \<times> ('b, 'x) AccStoreServer) cpp" where
  "ExecuteHandle opCode linkId key value s =
     (case map_of (externalOpHandlerMap s) (mt_code opCode) of
        None \<Rightarrow> Some (SM_OK, value, s)
      | Some handler \<Rightarrow> do {
          (r, value, b, x) \<leftarrow> handler linkId key value (backend s, ext s);
          Some (r, value, s\<lparr>backend := b, ext := x\<rparr>)
        })"

definition erase_timed :: "int \<Rightarrow> u64 \<Rightarrow> (int \<times> u64 list) list \<Rightarrow> (int \<times> u64 list) list" where
  "erase_timed t i timed =
     (case map_of timed t of
        None \<Rightarrow> timed
      | Some ids \<Rightarrow>
          let ids = us_erase i ids in if ids = [] then um_erase t timed else um_set t ids timed)"

fun GetOutWaitersInLock ::
    "u64 list \<Rightarrow> ('b, 'x) AccStoreServer \<Rightarrow> ReqCtx list \<times> ('b, 'x) AccStoreServer" where
  "GetOutWaitersInLock [] s = ([], s)"
| "GetOutWaitersInLock (i # ids) s =
     (case map_of (waitCtx s) i of
        None \<Rightarrow> GetOutWaitersInLock ids s
      | Some w \<Rightarrow>
          let s = s\<lparr>timedWaiters := erase_timed (timeoutMs w) (waitId w) (timedWaiters s),
                    waitCtx := um_erase i (waitCtx s)\<rparr>;
              (ctxs, s) = GetOutWaitersInLock ids s
          in (reqCtx w # ctxs, s))"

text \<open>The block the writing handlers share: take out the waiters of a key that is created.\<close>

definition take_key_waiters ::
    "bytes \<Rightarrow> ('b, 'x) AccStoreServer \<Rightarrow> ReqCtx list \<times> ('b, 'x) AccStoreServer" where
  "take_key_waiters key s =
     (case map_of (keyWaiters s) key of
        None \<Rightarrow> ([], s)
      | Some ids \<Rightarrow>
          let (ctxs, s) = GetOutWaitersInLock ids s
          in (ctxs, s\<lparr>keyWaiters := um_erase key (keyWaiters s)\<rparr>))"

text \<open>Replies go to the contexts whose link is still established; a null link is dereferenced.\<close>

fun reply_established :: "(link \<Rightarrow> bool) \<Rightarrow> int \<Rightarrow> bytes \<Rightarrow> ReqCtx list \<Rightarrow> reply list cpp" where
  "reply_established up code payload [] = Some []"
| "reply_established up code payload (c # cs) = do {
     l \<leftarrow> ctxLink c;
     rs \<leftarrow> reply_established up code payload cs;
     Some (if up l then (c, code, payload) # rs else rs)
   }"

definition value_message :: "MessageType \<Rightarrow> bytes \<Rightarrow> bytes" where
  "value_message type value = Pack ((message type)\<lparr>vals := [value]\<rparr>)"

definition WakeupWaiters :: "(link \<Rightarrow> bool) \<Rightarrow> ReqCtx list \<Rightarrow> bytes \<Rightarrow> reply list cpp" where
  "WakeupWaiters up waiters value =
     reply_established up (store_code SUCCESS) (value_message GET value) waiters"

abbreviation (input) text_reply :: "ReqCtx \<Rightarrow> StoreErrorCode \<Rightarrow> string \<Rightarrow> reply" where
  "text_reply c code msg \<equiv> (c, store_code code, str msg)"

section \<open>Request handlers\<close>

definition SetHandler ::
    "'b backend_ops \<Rightarrow> (link \<Rightarrow> bool) \<Rightarrow> ReqCtx \<Rightarrow> SmemMessage \<Rightarrow> ('b, 'x) AccStoreServer \<Rightarrow>
       ('b, 'x) step_result" where
  "SetHandler ops up c request s =
     (if length (keys request) \<noteq> 1 \<or> length (vals request) \<noteq> 1 then
        Some (s, [text_reply c INVALID_MESSAGE ''invalid request: key value should be one''], SM_INVALID_PARAM)
      else let key = keys request ! 0; value = vals request ! 0 in
      if length key > MAX_KEY_LEN_SERVER then Some (s, [], store_code INVALID_KEY)
      else do {
        l \<leftarrow> ctxLink c;
        (r, value, s) \<leftarrow> ExecuteHandle SET l key value s;
        if r \<noteq> SM_OK then Some (s, [text_reply c ERROR ''failed''], store_code ERROR)
        else do {
          let (waiters, s) =
            (if be_exist ops (backend s) key \<noteq> SUCCESS then take_key_waiters key s else ([], s));
          let (ret, b) = be_put ops (backend s) key value 0;
          woken \<leftarrow> WakeupWaiters up waiters value;
          Some (s\<lparr>backend := b\<rparr>,
            text_reply c ret (if ret = SUCCESS then ''success'' else ''error'') # woken, SM_OK)
        }
      })"

text \<open>The search loop of \<open>FindOrInsertRank\<close>: it returns the new \<open>rankIndex_\<close>.\<close>

partial_function (option) find_free_rank :: "u32 \<Rightarrow> u32 list \<Rightarrow> u32 \<Rightarrow> u32 option" where
  "find_free_rank world alive index =
     (let index = index mod world
      in if index \<notin> set alive then Some index else find_free_rank world alive (index + 1))"

definition FindOrInsertRank ::
    "'b backend_ops \<Rightarrow> ReqCtx \<Rightarrow> SmemMessage \<Rightarrow> ('b, 'x) AccStoreServer \<Rightarrow> ('b, 'x) step_result" where
  "FindOrInsertRank ops c request s =
     (case ctxLink c of
        None \<Rightarrow> Some (s, [], SM_INVALID_PARAM)
      | Some linkId \<Rightarrow>
          let rankingKey = keys request ! 0 @ to_string (uint linkId);
              (ret, oldValue) = be_get ops (backend s) rankingKey []
          in if ret = SUCCESS then
               Some (s, [(c, store_code SUCCESS, value_message (mt request) oldValue)], SM_OK)
             else if length (aliveRankSet s) \<ge> unat (worldSize s) then
               Some (s, [text_reply c ERROR ''error: worldSize rankSize bigger than worldSize.''], SM_ERROR)
             else do {
               index \<leftarrow> find_free_rank (worldSize s) (aliveRankSet s) (rankIndex s);
               let data = le_word index;
               let (ret, b) = be_put ops (backend s) rankingKey data 0;
               Some (s\<lparr>backend := b, rankIndex := index, aliveRankSet := us_insert index (aliveRankSet s)\<rparr>,
                 [(c, store_code ret, value_message (mt request) data)], 0)
             })"

definition add_waiter :: "bytes \<Rightarrow> u64 \<Rightarrow> (bytes \<times> u64 list) list \<Rightarrow> (bytes \<times> u64 list) list" where
  "add_waiter key i m =
     (case map_of m key of Some ids \<Rightarrow> um_set key (us_insert i ids) m | None \<Rightarrow> um_emplace key [i] m)"

definition add_timer :: "int \<Rightarrow> u64 \<Rightarrow> (int \<times> u64 list) list \<Rightarrow> (int \<times> u64 list) list" where
  "add_timer t i m =
     (case map_of m t of Some ids \<Rightarrow> um_set t (us_insert i ids) m | None \<Rightarrow> um_emplace t [i] m)"

definition GetHandler ::
    "'b backend_ops \<Rightarrow> int \<Rightarrow> ReqCtx \<Rightarrow> SmemMessage \<Rightarrow> ('b, 'x) AccStoreServer \<Rightarrow> ('b, 'x) step_result" where
  "GetHandler ops now c request s =
     (if length (keys request) \<noteq> 1 \<or> vals request \<noteq> [] then
        Some (s, [text_reply c INVALID_MESSAGE ''invalid request: key should be one and no values.''],
          SM_INVALID_PARAM)
      else let key = keys request ! 0 in
      if length key > MAX_KEY_LEN_SERVER then Some (s, [], store_code INVALID_KEY)
      else if take (length AutoRankingStr) key = AutoRankingStr then FindOrInsertRank ops c request s
      else let (ret, oldValue) = be_get ops (backend s) key [] in
      if ret = SUCCESS then
        Some (s, [(c, store_code SUCCESS, value_message (mt request) oldValue)], SM_OK)
      else do {
        l \<leftarrow> ctxLink c;
        (r, outValue, s) \<leftarrow> ExecuteHandle GET l key [] s;
        if r = SM_GET_OBJIECT then
          Some (s, [(c, store_code RESTORE, value_message (mt request) outValue)], SM_OK)
        else if userDef request = 0 then
          Some (s, [text_reply c NOT_EXIST ''<not exist>''], SM_ERROR)
        else
          let deadline = now + sint (userDef request);
              i = idGen s;
              w = \<lparr>waitId = i, timeoutMs = deadline, waitKey = key, reqCtx = c\<rparr>
          in Some (s\<lparr>idGen := i + 1,
                     waitCtx := um_emplace i w (waitCtx s),
                     keyWaiters := add_waiter key i (keyWaiters s),
                     timedWaiters := (if 0 < sint (userDef request)
                       then add_timer deadline i (timedWaiters s) else timedWaiters s)\<rparr>, [], SM_OK)
      })"

definition long_range :: "int \<Rightarrow> bool" where
  "long_range i \<longleftrightarrow> - 9223372036854775808 \<le> i \<and> i \<le> 9223372036854775807"

definition AddHandler ::
    "'b backend_ops \<Rightarrow> (link \<Rightarrow> bool) \<Rightarrow> ReqCtx \<Rightarrow> SmemMessage \<Rightarrow> ('b, 'x) AccStoreServer \<Rightarrow>
       ('b, 'x) step_result" where
  "AddHandler ops up c request s =
     (if length (keys request) \<noteq> 1 \<or> length (vals request) \<noteq> 1 then
        Some (s, [text_reply c INVALID_MESSAGE ''invalid request: key value should be one.''], SM_INVALID_PARAM)
      else let key = keys request ! 0; value = vals request ! 0 in
      if length key > MAX_KEY_LEN_SERVER then Some (s, [], store_code INVALID_KEY)
      else case String2Int 64 value of
        None \<Rightarrow> Some (s, [], SM_ERROR)
      | Some valueNum \<Rightarrow>
          if value \<noteq> to_string valueNum then
            Some (s, [text_reply c INVALID_MESSAGE ''invalid request: value should be a number.''], SM_ERROR)
          else do {
            (r, value, s) \<leftarrow> (if valueNum > 0 then do {
                l \<leftarrow> ctxLink c;
                ExecuteHandle ADD l key value s
              } else Some (SM_OK, value, s));
            if r \<noteq> SM_OK then Some (s, [text_reply c ERROR ''failed''], store_code ERROR)
            else let (ret, oldValue) = be_get ops (backend s) key [] in
            if ret \<noteq> SUCCESS then do {
              let (waiters, s) = take_key_waiters key s;
              let (ret, b) = be_put ops (backend s) key value 0;
              woken \<leftarrow> WakeupWaiters up waiters value;
              Some (s\<lparr>backend := b\<rparr>, (c, store_code ret, to_string valueNum) # woken, SM_OK)
            }
            else case String2Int 64 oldValue of
              None \<Rightarrow> Some (s, [text_reply c INVALID_MESSAGE ''oldValueStr should be a number.''], SM_ERROR)
            | Some storedValueNum \<Rightarrow>
                if storedValueNum = 0 \<and> oldValue \<noteq> str ''0'' then
                  Some (s, [text_reply c INVALID_MESSAGE ''oldValueStr should be a number.''], SM_ERROR)
                else if \<not> long_range (storedValueNum + valueNum) then None
                else
                  let stored = storedValueNum + valueNum;
                      (_, b) = be_put ops (backend s) key (to_string stored) 0
                  in Some (s\<lparr>backend := b\<rparr>, [(c, store_code ret, to_string stored)], SM_OK)
          })"

definition RemoveHandler ::
    "'b backend_ops \<Rightarrow> ReqCtx \<Rightarrow> SmemMessage \<Rightarrow> ('b, 'x) AccStoreServer \<Rightarrow> ('b, 'x) step_result" where
  "RemoveHandler ops c request s =
     (if length (keys request) \<noteq> 1 \<or> vals request \<noteq> [] then
        Some (s, [text_reply c INVALID_MESSAGE ''invalid request: key should be one and no values.''],
          SM_INVALID_PARAM)
      else let key = keys request ! 0 in
      if length key > MAX_KEY_LEN_SERVER then Some (s, [], store_code INVALID_KEY)
      else if be_exist ops (backend s) key = SUCCESS then
        Some (s\<lparr>backend := snd (be_delete ops (backend s) key)\<rparr>, [text_reply c SUCCESS ''success''], SM_OK)
      else Some (s, [text_reply c NOT_EXIST ''not exist''], SM_OK))"

definition AppendHandler ::
    "'b backend_ops \<Rightarrow> (link \<Rightarrow> bool) \<Rightarrow> ReqCtx \<Rightarrow> SmemMessage \<Rightarrow> ('b, 'x) AccStoreServer \<Rightarrow>
       ('b, 'x) step_result" where
  "AppendHandler ops up c request s =
     (if length (keys request) \<noteq> 1 \<or> length (vals request) \<noteq> 1 then
        Some (s, [text_reply c INVALID_MESSAGE ''invalid request: key & value should be one.''], SM_INVALID_PARAM)
      else let key = keys request ! 0; value = vals request ! 0 in
      if length key > MAX_KEY_LEN_SERVER then Some (s, [], store_code INVALID_KEY)
      else
        let (ret, oldValue) = be_get ops (backend s) key [];
            (newSize, waiters, s, ret) =
              (if ret = SUCCESS then
                 let (ret, b) = be_put ops (backend s) key (oldValue @ value) 0
                 in (length (oldValue @ value), [], s\<lparr>backend := b\<rparr>, ret)
               else
                 let (waiters, s) = take_key_waiters key s;
                     (ret, b) = be_put ops (backend s) key value 0
                 in (length value, waiters, s\<lparr>backend := b\<rparr>, ret))
        in do {
          l \<leftarrow> ctxLink c;
          (r, _, s) \<leftarrow> ExecuteHandle APPEND l key value s;
          if r \<noteq> SM_OK then Some (s, [text_reply c ERROR ''failed''], store_code ERROR)
          else do {
            woken \<leftarrow> WakeupWaiters up waiters value;
            Some (s, (c, store_code ret, to_string (int newSize)) # woken, SM_OK)
          }
        })"

text \<open>\<open>resize(n, 0)\<close> where the vector is shorter, then \<open>copy_n\<close> at an offset inside it.\<close>

definition overwrite_at :: "nat \<Rightarrow> bytes \<Rightarrow> bytes \<Rightarrow> bytes" where
  "overwrite_at offset new old =
     (let cur = (if offset + length new > length old
                 then old @ replicate (offset + length new - length old) 0 else old)
      in take offset cur @ new @ drop (offset + length new) cur)"

definition WriteHandler ::
    "'b backend_ops \<Rightarrow> ReqCtx \<Rightarrow> SmemMessage \<Rightarrow> ('b, 'x) AccStoreServer \<Rightarrow> ('b, 'x) step_result" where
  "WriteHandler ops c request s =
     (if length (keys request) \<noteq> 1 \<or> length (vals request) \<noteq> 1 then
        Some (s, [text_reply c INVALID_MESSAGE ''invalid request: key & value should be one.''], SM_INVALID_PARAM)
      else let key = keys request ! 0; value = vals request ! 0 in
      if length key > MAX_KEY_LEN_SERVER then Some (s, [], store_code INVALID_KEY)
      else do {
        offset \<leftarrow> read_at 4 value 0;
        let realVal = drop 4 value;
        if offset > MAX_U16_INDEX * length realVal then Some (s, [], store_code INVALID_KEY)
        else
          let (ret, oldValue) = be_get ops (backend s) key [];
              (ret, b) = (if ret \<noteq> SUCCESS
                then be_put ops (backend s) key (replicate (offset + length realVal) 0) 0
                else (SUCCESS, backend s));
              s = s\<lparr>backend := b\<rparr>
          in if ret \<noteq> SUCCESS then Some (s, [text_reply c ERROR ''failed''], store_code ERROR)
             else
               let (_, oldValue) = be_get ops (backend s) key oldValue;
                   curValue = overwrite_at offset realVal oldValue
               in do {
                 l \<leftarrow> ctxLink c;
                 (r, _, s) \<leftarrow> ExecuteHandle WRITE l key value s;
                 if r \<noteq> SM_OK then Some (s, [text_reply c ERROR ''failed''], store_code ERROR)
                 else let (ret, b) = be_put ops (backend s) key curValue 0; s = s\<lparr>backend := b\<rparr> in
                 if ret \<noteq> SUCCESS then Some (s, [text_reply c ERROR ''failed''], store_code ERROR)
                 else Some (s, [text_reply c SUCCESS ''success''], SM_OK)
               }
      })"

definition CasHandler ::
    "'b backend_ops \<Rightarrow> (link \<Rightarrow> bool) \<Rightarrow> ReqCtx \<Rightarrow> SmemMessage \<Rightarrow> ('b, 'x) AccStoreServer \<Rightarrow>
       ('b, 'x) step_result" where
  "CasHandler ops up c request s =
     (if length (keys request) \<noteq> 1 \<or> length (vals request) \<noteq> 2 then
        Some (s, [text_reply c INVALID_MESSAGE ''invalid request: count(key)=1 & count(value)=2''], SM_INVALID_PARAM)
      else let key = keys request ! 0; expected = vals request ! 0; exchange = vals request ! 1 in
      if length key > MAX_KEY_LEN_SERVER then Some (s, [], store_code INVALID_KEY)
      else
        let (ret, oldValue) = be_get ops (backend s) key [];
            (exists, waiters, s, ret) =
              (if ret = SUCCESS then
                 (if expected = oldValue then
                    let (ret, b) = be_put ops (backend s) key exchange 0
                    in (oldValue, [], s\<lparr>backend := b\<rparr>, ret)
                  else (oldValue, [], s, ret))
               else if expected = [] then
                 let (ret, b) = be_put ops (backend s) key exchange 0;
                     (waiters, s) = take_key_waiters key (s\<lparr>backend := b\<rparr>)
                 in ([], waiters, s, ret)
               else ([], [], s, SUCCESS))
        in do {
          woken \<leftarrow> WakeupWaiters up waiters exchange;
          Some (s, (c, store_code ret, value_message (mt request) exists) # woken, SM_OK)
        })"

definition WatchRankStateHandler ::
    "ReqCtx \<Rightarrow> SmemMessage \<Rightarrow> ('b, 'x) AccStoreServer \<Rightarrow> ('b, 'x) step_result" where
  "WatchRankStateHandler c request s =
     (if length (keys request) \<noteq> 1 \<or> keys request ! 0 \<noteq> WATCH_RANK_DOWN_KEY then
        Some (s, [text_reply c INVALID_MESSAGE ''invalid request: key should be''], SM_INVALID_PARAM)
      else case ctxLink c of
        None \<Rightarrow> Some (s, [], SM_INVALID_PARAM)
      | Some linkId \<Rightarrow>
          let w = \<lparr>waitId = idGen s, timeoutMs = - 1, waitKey = WATCH_RANK_DOWN_KEY, reqCtx = c\<rparr>;
              s = s\<lparr>idGen := idGen s + 1\<rparr>
          in if map_of (rankStateWaiters s) linkId \<noteq> None then Some (s, [], SM_REPEAT_CALL)
             else Some (s\<lparr>rankStateWaiters := um_emplace linkId w (rankStateWaiters s)\<rparr>, [], SM_OK))"

definition HeartbeatHandler ::
    "int \<Rightarrow> ReqCtx \<Rightarrow> SmemMessage \<Rightarrow> ('b, 'x) AccStoreServer \<Rightarrow> ('b, 'x) step_result" where
  "HeartbeatHandler now c request s =
     (if keys request \<noteq> [] \<or> vals request \<noteq> [] then Some (s, [], SM_INVALID_PARAM)
      else case ctxLink c of
        None \<Rightarrow> Some (s, [], SM_INVALID_PARAM)
      | Some linkId \<Rightarrow> Some (s\<lparr>heartBeatMap := um_set linkId now (heartBeatMap s)\<rparr>, [], SM_OK))"

section \<open>Dispatch\<close>

text \<open>The table \<open>requestHandlers_\<close> built by the constructor; \<open>now\<close> is the clock the handler reads.\<close>

fun requestHandlers ::
    "MessageType \<Rightarrow> ('b backend_ops \<Rightarrow> (link \<Rightarrow> bool) \<Rightarrow> int \<Rightarrow> ReqCtx \<Rightarrow> SmemMessage \<Rightarrow>
       ('b, 'x) AccStoreServer \<Rightarrow> ('b, 'x) step_result) option" where
  "requestHandlers SET = Some (\<lambda>ops up now. SetHandler ops up)"
| "requestHandlers GET = Some (\<lambda>ops up now. GetHandler ops now)"
| "requestHandlers ADD = Some (\<lambda>ops up now. AddHandler ops up)"
| "requestHandlers REMOVE = Some (\<lambda>ops up now. RemoveHandler ops)"
| "requestHandlers APPEND = Some (\<lambda>ops up now. AppendHandler ops up)"
| "requestHandlers CAS = Some (\<lambda>ops up now. CasHandler ops up)"
| "requestHandlers WRITE = Some (\<lambda>ops up now. WriteHandler ops)"
| "requestHandlers WATCH_RANK_STATE = Some (\<lambda>ops up now. WatchRankStateHandler)"
| "requestHandlers HEARTBEAT = Some (\<lambda>ops up now. HeartbeatHandler now)"
| "requestHandlers INVALID_MSG = None"

definition ReceiveMessageHandler ::
    "'b backend_ops \<Rightarrow> (link \<Rightarrow> bool) \<Rightarrow> int \<Rightarrow> ReqCtx \<Rightarrow> bytes option \<Rightarrow> ('b, 'x) AccStoreServer \<Rightarrow>
       ('b, 'x) step_result" where
  "ReceiveMessageHandler ops up now c data s =
     (case data of
        None \<Rightarrow> Some (s, [text_reply c INVALID_MESSAGE ''request no body''], SM_INVALID_PARAM)
      | Some buf \<Rightarrow> do {
          r \<leftarrow> Unpack (Some buf);
          case r of
            Inl e \<Rightarrow> Some (s, [text_reply c INVALID_MESSAGE ''invalid request''], SM_ERROR)
          | Inr (request, _) \<Rightarrow>
              (case requestHandlers (mt request) of
                 None \<Rightarrow> Some (s, [text_reply c INVALID_MESSAGE ''invalid request message type''], SM_ERROR)
               | Some handler \<Rightarrow> handler ops up now c request s)
        })"

section \<open>Links\<close>

definition LinkConnectedHandler ::
    "'b backend_ops \<Rightarrow> u64 \<Rightarrow> link \<Rightarrow> ('b, 'x) AccStoreServer \<Rightarrow> ('b, 'x) AccStoreServer \<times> result" where
  "LinkConnectedHandler ops connRankId linkId s =
     (let world = ucast (drop_bit 32 connRankId) :: u32;
          rankId = ucast connRankId :: u32;
          s = (if worldSize s = U32_MAX then s\<lparr>worldSize := world\<rparr> else s)
      in if rankId \<ge> U32_MAX then (s, SM_OK)
         else
           let (ret, b) = be_put ops (backend s) (AutoRankingStr @ to_string (uint linkId)) (le_word rankId) 0;
               s = s\<lparr>backend := b\<rparr>
           in if ret \<noteq> SUCCESS then (s, store_code ret)
              else (s\<lparr>aliveRankSet := us_insert rankId (aliveRankSet s)\<rparr>, SM_OK))"

definition clear_data :: "'b backend_ops \<Rightarrow> ('b, 'x) AccStoreServer \<Rightarrow> ('b, 'x) AccStoreServer" where
  "clear_data ops s = s\<lparr>rankIndex := 0, backend := be_clear ops (backend s), waitCtx := [],
     keyWaiters := [], timedWaiters := [], rankStateWaiters := [], rankStateTaskQueue := []\<rparr>"

definition LinkBrokenHandler ::
    "'b backend_ops \<Rightarrow> link \<Rightarrow> ('b, 'x) AccStoreServer \<Rightarrow> (('b, 'x) AccStoreServer \<times> result) cpp" where
  "LinkBrokenHandler ops linkId s =
     (let autoKey = AutoRankingStr @ to_string (uint linkId);
          (ret, outValue) = be_get ops (backend s) autoKey []
      in if ret = SUCCESS \<and> length outValue > 4 then None
         else
           let rankId = (if ret = SUCCESS then word_le outValue else U32_MAX);
               (del, s) = (if ret = SUCCESS then
                   let s = s\<lparr>aliveRankSet := us_erase rankId (aliveRankSet s)\<rparr>;
                       (del, b) = be_delete ops (backend s) autoKey
                   in (del, s\<lparr>backend := b\<rparr>)
                 else (SUCCESS, s))
           in if del \<noteq> SUCCESS then Some (s, SM_ERROR)
              else do {
                let s = s\<lparr>heartBeatMap := um_erase linkId (heartBeatMap s)\<rparr>;
                s \<leftarrow> (case externalBrokenHandler s of
                    Some h \<Rightarrow> do {
                      (b, x) \<leftarrow> h linkId (backend s, ext s);
                      Some (s\<lparr>backend := b, ext := x\<rparr>)
                    }
                  | None \<Rightarrow> Some (if aliveRankSet s = [] then clear_data ops s else s));
                let s = s\<lparr>rankStateWaiters := um_erase linkId (rankStateWaiters s)\<rparr>;
                if rankId = U32_MAX then Some (s, SM_OK)
                else Some (s\<lparr>rankStateTaskQueue := rankStateTaskQueue s @ [rankId]\<rparr>, SM_OK)
              })"

text \<open>The overload the checker thread calls for a link whose heartbeat is overdue.\<close>

definition LinkBrokenHandler_id ::
    "link \<Rightarrow> ('b, 'x) AccStoreServer \<Rightarrow> (('b, 'x) AccStoreServer \<times> result) cpp" where
  "LinkBrokenHandler_id linkId s = do {
     s \<leftarrow> (case externalBrokenHandler s of
         Some h \<Rightarrow> do {
           (b, x) \<leftarrow> h linkId (backend s, ext s);
           Some (s\<lparr>backend := b, ext := x\<rparr>)
         }
       | None \<Rightarrow> Some s);
     Some (s\<lparr>heartBeatMap := um_erase linkId (heartBeatMap s)\<rparr>, SM_OK)
   }"

section \<open>Background threads\<close>

text \<open>One round of the timer thread: the loop takes entries from \<open>begin()\<close> until one is not due.\<close>

fun collect_due :: "int \<Rightarrow> (int \<times> u64 list) list \<Rightarrow> u64 list \<times> (int \<times> u64 list) list" where
  "collect_due now [] = ([], [])"
| "collect_due now ((t, ids) # timed) =
     (if t > now then ([], (t, ids) # timed)
      else let (due, timed) = collect_due now timed in (foldr us_insert ids due, timed))"

definition TimerThreadTask ::
    "(link \<Rightarrow> bool) \<Rightarrow> int \<Rightarrow> ('b, 'x) AccStoreServer \<Rightarrow> (('b, 'x) AccStoreServer \<times> reply list) cpp" where
  "TimerThreadTask up now s = do {
     let (due, timed) = collect_due now (timedWaiters s);
     let (ctxs, s) = GetOutWaitersInLock due (s\<lparr>timedWaiters := timed\<rparr>);
     rs \<leftarrow> reply_established up (store_code TIMEOUT) (str ''<timeout>'') ctxs;
     Some (s, rs)
   }"

text \<open>One round of the rank state thread: the first rank of the queue is announced to every watcher.\<close>

definition RankStateTask ::
    "(link \<Rightarrow> bool) \<Rightarrow> ('b, 'x) AccStoreServer \<Rightarrow> (('b, 'x) AccStoreServer \<times> reply list) cpp" where
  "RankStateTask up s =
     (case rankStateTaskQueue s of
        [] \<Rightarrow> Some (s, [])
      | rankId # queue \<Rightarrow> do {
          rs \<leftarrow> reply_established up (store_code SUCCESS) (value_message WATCH_RANK_STATE (le_word rankId))
            (map (\<lambda>(l, w). reqCtx w) (rankStateWaiters s));
          Some (s\<lparr>rankStateTaskQueue := queue\<rparr>, rs)
        })"

text \<open>C++ division of signed integers truncates towards zero.\<close>

definition overdue :: "int \<Rightarrow> int \<Rightarrow> bool" where
  "overdue now beat \<longleftrightarrow> sgn (now - beat) * (\<bar>now - beat\<bar> div HEARTBEAT_INTERVAL) > HEARTBEAT_TIMEOUT"

fun break_links :: "link list \<Rightarrow> ('b, 'x) AccStoreServer \<Rightarrow> ('b, 'x) AccStoreServer cpp" where
  "break_links [] s = Some s"
| "break_links (l # ls) s = do {
     (s, _) \<leftarrow> LinkBrokenHandler_id l s;
     break_links ls s
   }"

definition CheckerThreadTask :: "int \<Rightarrow> ('b, 'x) AccStoreServer \<Rightarrow> ('b, 'x) AccStoreServer cpp" where
  "CheckerThreadTask now s =
     (let broken = map fst (filter (\<lambda>(l, t). overdue now t) (heartBeatMap s));
          s = s\<lparr>heartBeatMap := filter (\<lambda>(l, t). \<not> overdue now t) (heartBeatMap s)\<rparr>
      in break_links broken s)"

end
