(* ===== verification/Store_Client.thy ===== *)
theory Store_Client
  imports Store_Server
begin

text \<open>
  The client side of the configuration store: \<open>TcpConfigStore\<close>
  (\<^verbatim>\<open>src/smem/csrc/config_store/tcp_store/smem_tcp_config_store.h/.cpp\<close>), the string overloads of
  \<open>ConfigStore\<close> (\<^verbatim>\<open>smem_config_store.h\<close>) and \<open>PrefixConfigStore\<close> (\<^verbatim>\<open>smem_prefix_config_store.h\<close>).

  The operations take the blocking exchange of a packed request for a response as an argument, a
  function on the state behind it. The machinery that implements the exchange - sequence numbers, the
  table of waiting contexts, delivery of responses, broken links - is modelled separately, over the
  operations of the transport's link.
\<close>

section \<open>Operations\<close>

text \<open>A response: the header's result and the body; the data pointer may be null.\<close>

record Response =
  rspResult :: int
  rspData :: "bytes option"

text \<open>\<open>SendMessageBlocked\<close>: \<open>None\<close> inside is the null pointer.\<close>

type_synonym 's exchange = "bytes \<Rightarrow> 's \<Rightarrow> (Response option \<times> 's) cpp"

abbreviation (input) MAX_KEY_LEN_CLIENT :: nat where "MAX_KEY_LEN_CLIENT \<equiv> 1024"

text \<open>What every operation begins with: the check of the key, the exchange and the null check.\<close>

definition request_reply ::
    "'s exchange \<Rightarrow> bytes \<Rightarrow> SmemMessage \<Rightarrow> 's \<Rightarrow> ((int + Response) \<times> 's) cpp" where
  "request_reply exch key request s =
     (if key = [] \<or> length key > MAX_KEY_LEN_CLIENT then Some (Inl (store_code INVALID_KEY), s)
      else do {
        (response, s) \<leftarrow> exch (Pack request) s;
        Some (case response of None \<Rightarrow> Inl (store_code IO_ERROR) | Some r \<Rightarrow> Inr r, s)
      })"

definition Set :: "'s exchange \<Rightarrow> bytes \<Rightarrow> bytes \<Rightarrow> 's \<Rightarrow> (result \<times> 's) cpp" where
  "Set exch key value s = do {
     (r, s) \<leftarrow> request_reply exch key ((message SET)\<lparr>keys := [key], vals := [value]\<rparr>) s;
     Some (case r of Inl e \<Rightarrow> e | Inr response \<Rightarrow> rspResult response, s)
   }"

text \<open>The body of a response that carries a packed value.\<close>

definition response_value :: "Response \<Rightarrow> (int + bytes) cpp" where
  "response_value response =
     (case rspData response of
        None \<Rightarrow> Some (Inl SM_MALLOC_FAILED)
      | Some data \<Rightarrow> do {
          u \<leftarrow> Unpack (Some data);
          Some (case u of
              Inl e \<Rightarrow> Inl (- 1)
            | Inr (responseBody, _) \<Rightarrow> if vals responseBody = [] then Inl (- 1) else Inr (vals responseBody ! 0))
        })"

text \<open>Output parameters are passed in and returned: they keep their value on the error paths.\<close>

definition GetReal :: "'s exchange \<Rightarrow> bytes \<Rightarrow> bytes \<Rightarrow> u64 \<Rightarrow> 's \<Rightarrow> (result \<times> bytes \<times> 's) cpp" where
  "GetReal exch key value timeout s = do {
     (r, s) \<leftarrow> request_reply exch key ((message GET)\<lparr>keys := [key], userDef := timeout\<rparr>) s;
     case r of
       Inl e \<Rightarrow> Some (e, value, s)
     | Inr response \<Rightarrow>
         if rspResult response \<noteq> 0 \<and> rspResult response \<noteq> store_code RESTORE
         then Some (rspResult response, value, s)
         else do {
           v \<leftarrow> response_value response;
           Some (case v of Inl e \<Rightarrow> (e, value, s) | Inr new \<Rightarrow> (rspResult response, new, s))
         }
   }"

text \<open>
  \<open>errno\<close> is ERANGE after \<open>String2Int\<close> when the number does not fit; on an empty text it keeps the
  thread's old value, the argument \<open>stale\<close>.
\<close>

definition errno_erange :: "bool \<Rightarrow> bytes \<Rightarrow> bool" where
  "errno_erange stale data =
     (if data = [] then stale
      else case strtoll (c_str data) of Some (_, erange, _) \<Rightarrow> erange | None \<Rightarrow> False)"

definition Add :: "bool \<Rightarrow> 's exchange \<Rightarrow> bytes \<Rightarrow> int \<Rightarrow> int \<Rightarrow> 's \<Rightarrow> (result \<times> int \<times> 's) cpp" where
  "Add stale exch key increment value s = do {
     (r, s) \<leftarrow> request_reply exch key ((message ADD)\<lparr>keys := [key], vals := [to_string increment]\<rparr>) s;
     Some (case r of
         Inl e \<Rightarrow> (e, value, s)
       | Inr response \<Rightarrow>
           if rspResult response \<noteq> 0 then (rspResult response, value, s)
           else case rspData response of
             None \<Rightarrow> (store_code IO_ERROR, value, s)
           | Some data \<Rightarrow>
               let ret = String2Int 64 data; value = (case ret of None \<Rightarrow> 0 | Some i \<Rightarrow> i)
               in if errno_erange stale data then (store_code IO_ERROR, value, s)
                  else if (value = 0 \<and> data \<noteq> str ''0'') \<or> ret = None then (store_code ERROR, value, s)
                  else (store_code SUCCESS, value, s))
   }"

definition Remove :: "'s exchange \<Rightarrow> bytes \<Rightarrow> 's \<Rightarrow> (result \<times> 's) cpp" where
  "Remove exch key s = do {
     (r, s) \<leftarrow> request_reply exch key ((message REMOVE)\<lparr>keys := [key]\<rparr>) s;
     Some (case r of Inl e \<Rightarrow> e | Inr response \<Rightarrow> rspResult response, s)
   }"

definition Append :: "'s exchange \<Rightarrow> bytes \<Rightarrow> bytes \<Rightarrow> u64 \<Rightarrow> 's \<Rightarrow> (result \<times> u64 \<times> 's) cpp" where
  "Append exch key value newSize s = do {
     (r, s) \<leftarrow> request_reply exch key ((message APPEND)\<lparr>keys := [key], vals := [value]\<rparr>) s;
     Some (case r of
         Inl e \<Rightarrow> (e, newSize, s)
       | Inr response \<Rightarrow>
           if rspResult response \<noteq> 0 then (rspResult response, newSize, s)
           else case rspData response of
             None \<Rightarrow> (store_code IO_ERROR, newSize, s)
           | Some data \<Rightarrow>
               (case String2Int 64 data of
                  None \<Rightarrow> (store_code ERROR, newSize, s)
                | Some tmpValue \<Rightarrow> (store_code SUCCESS, of_int tmpValue, s)))
   }"

definition Write :: "'s exchange \<Rightarrow> bytes \<Rightarrow> bytes \<Rightarrow> u32 \<Rightarrow> 's \<Rightarrow> (result \<times> 's) cpp" where
  "Write exch key value offset s = do {
     let sendValue = le_word offset @ value;
     (r, s) \<leftarrow> request_reply exch key ((message WRITE)\<lparr>keys := [key], vals := [sendValue]\<rparr>) s;
     Some (case r of Inl e \<Rightarrow> e | Inr response \<Rightarrow> rspResult response, s)
   }"

definition Cas :: "'s exchange \<Rightarrow> bytes \<Rightarrow> bytes \<Rightarrow> bytes \<Rightarrow> bytes \<Rightarrow> 's \<Rightarrow> (result \<times> bytes \<times> 's) cpp" where
  "Cas exch key expect value exists s = do {
     (r, s) \<leftarrow> request_reply exch key ((message CAS)\<lparr>keys := [key], vals := [expect, value]\<rparr>) s;
     case r of
       Inl e \<Rightarrow> Some (e, exists, s)
     | Inr response \<Rightarrow>
         if rspResult response \<noteq> 0 then Some (rspResult response, exists, s)
         else do {
           v \<leftarrow> response_value response;
           Some (case v of Inl e \<Rightarrow> (e, exists, s) | Inr old \<Rightarrow> (0, old, s))
         }
   }"

section \<open>Contexts of requests under way\<close>

text \<open>
  A \<open>ClientWaitContext\<close> refers to a mutex and a condition variable in the frame of the waiting call;
  \<open>frames\<close> holds the sequence numbers whose frame is alive. A \<open>ClientWatchContext\<close> holds a callback,
  of a key or of the rank state; calls of callbacks are the events a step returns.
\<close>

datatype WatchTarget = WatchKey bytes | WatchRank
datatype ClientContext = ClientWaitContext | ClientWatchContext WatchTarget bool
datatype notification = KeyNotify int bytes bytes | RankNotify u32

text \<open>The transport, as far as the client calls it.\<close>

record 'l link_ops =
  NonBlockSend :: "'l \<Rightarrow> u32 \<Rightarrow> bytes \<Rightarrow> result \<times> 'l"
  ConnectToPeerServer :: "'l \<Rightarrow> u64 \<Rightarrow> int \<Rightarrow> result \<times> 'l"

record 'l TcpConfigStore =
  accClient :: bool
  accClientLink :: bool
  net :: 'l
  msgClientContext :: "(u32 \<times> ClientContext) list"
  reqSeqGen :: u32
  rankId :: int
  storeWorldSize :: u32
  isConnect :: bool
  frames :: "u32 list"
  finished :: "(u32 \<times> Response option) list"
  reconnects :: nat

abbreviation (input) ACC_LINK_ERROR :: result where "ACC_LINK_ERROR \<equiv> - 11"
abbreviation (input) CONNECT_RETRY_MAX_TIMES :: int where "CONNECT_RETRY_MAX_TIMES \<equiv> 60"

definition conn_rank_id :: "int \<Rightarrow> u32 \<Rightarrow> u64" where
  "conn_rank_id rank world =
     (if rank \<ge> 0 then or (push_bit 32 (ucast world)) (of_int rank) else or (push_bit 32 (ucast world)) 4294967295)"

text \<open>\<open>reconnects\<close> counts the calls of the reconnect handler.\<close>

definition ReConnectAfterBroken :: "'l link_ops \<Rightarrow> int \<Rightarrow> 'l TcpConfigStore \<Rightarrow> (result \<times> 'l TcpConfigStore) cpp" where
  "ReConnectAfterBroken lops retry s =
     (let retryMaxTimes = (if retry < 0 then CONNECT_RETRY_MAX_TIMES else retry);
          connReq = conn_rank_id (rankId s) (storeWorldSize s)
      in if \<not> accClient s then None
         else
           let (r, l) = ConnectToPeerServer lops (net s) connReq retryMaxTimes; s = s\<lparr>net := l\<rparr>
           in if r \<noteq> 0 then Some (r, s) else Some (SM_OK, s\<lparr>reconnects := Suc (reconnects s)\<rparr>))"

definition LocalNonBlockSend ::
    "'l link_ops \<Rightarrow> u32 \<Rightarrow> bytes \<Rightarrow> 'l TcpConfigStore \<Rightarrow> (result \<times> 'l TcpConfigStore) cpp" where
  "LocalNonBlockSend lops seq d s =
     (if \<not> accClientLink s then None
      else let (ret, l) = NonBlockSend lops (net s) seq d; s = s\<lparr>net := l\<rparr>
      in if ret = ACC_LINK_ERROR then do {
           (_, s) \<leftarrow> ReConnectAfterBroken lops 1 s;
           let (ret, l) = NonBlockSend lops (net s) seq d;
           Some (ret, s\<lparr>net := l\<rparr>)
         }
         else Some (ret, s))"

text \<open>
  \<open>SendMessageBlocked\<close> up to the wait: \<open>None\<close> is the null result of the error paths, on which the frame
  ends. \<open>WaitFinished\<close> is the rest.
\<close>

definition SendMessageBlocked ::
    "'l link_ops \<Rightarrow> bytes \<Rightarrow> 'l TcpConfigStore \<Rightarrow> (u32 option \<times> 'l TcpConfigStore) cpp" where
  "SendMessageBlocked lops reqBody s =
     (let seq = reqSeqGen s; s = s\<lparr>reqSeqGen := seq + 1\<rparr>
      in if \<not> accClientLink s then Some (None, s)
         else do {
           let s = s\<lparr>msgClientContext := um_emplace seq ClientWaitContext (msgClientContext s)\<rparr>;
           (ret, s) \<leftarrow> LocalNonBlockSend lops seq reqBody s;
           if ret \<noteq> SM_OK then Some (None, s) else Some (Some seq, s\<lparr>frames := us_insert seq (frames s)\<rparr>)
         })"

definition WaitFinished :: "u32 \<Rightarrow> 'l TcpConfigStore \<Rightarrow> (Response option \<times> 'l TcpConfigStore) option" where
  "WaitFinished seq s =
     map_option (\<lambda>r. (r, s\<lparr>frames := us_erase seq (frames s), finished := um_erase seq (finished s)\<rparr>))
       (map_of (finished s) seq)"

text \<open>The callbacks \<open>Watch\<close> wraps around the user's.\<close>

definition notify :: "WatchTarget \<Rightarrow> int \<Rightarrow> bytes \<Rightarrow> notification list" where
  "notify target res value =
     (case target of
        WatchKey key \<Rightarrow> [KeyNotify res key value]
      | WatchRank \<Rightarrow> if res = SM_OK \<and> length value = 4 then [RankNotify (word_le value)] else [])"

text \<open>\<open>SetFinished\<close> of both contexts; a wait context whose frame is gone is a dangling reference.\<close>

definition SetFinished ::
    "u32 \<Rightarrow> ClientContext \<Rightarrow> Response \<Rightarrow> 'l TcpConfigStore \<Rightarrow> (notification list \<times> 'l TcpConfigStore) cpp" where
  "SetFinished seq ctx response s =
     (case ctx of
        ClientWaitContext \<Rightarrow>
          if seq \<in> set (frames s) then Some ([], s\<lparr>finished := um_set seq (Some response) (finished s)\<rparr>) else None
      | ClientWatchContext target _ \<Rightarrow>
          (case rspData response of
             None \<Rightarrow> Some ([], s)
           | Some data \<Rightarrow> do {
               u \<leftarrow> Unpack (Some data);
               Some (case u of
                   Inl e \<Rightarrow> notify target (store_code IO_ERROR) []
                 | Inr (responseBody, _) \<Rightarrow>
                     if vals responseBody = [] then notify target (store_code IO_ERROR) []
                     else notify target (store_code SUCCESS) (vals responseBody ! 0), s)
             }))"

definition SetFailedFinish ::
    "u32 \<Rightarrow> ClientContext \<Rightarrow> 'l TcpConfigStore \<Rightarrow> (notification list \<times> 'l TcpConfigStore) cpp" where
  "SetFailedFinish seq ctx s =
     (case ctx of
        ClientWaitContext \<Rightarrow>
          if seq \<in> set (frames s) then Some ([], s\<lparr>finished := um_set seq None (finished s)\<rparr>) else None
      | ClientWatchContext target _ \<Rightarrow> Some (notify target (store_code IO_ERROR) [], s))"

definition OnlyOneTime :: "ClientContext \<Rightarrow> bool" where
  "OnlyOneTime ctx = (case ctx of ClientWaitContext \<Rightarrow> True | ClientWatchContext _ one \<Rightarrow> one)"

definition Blocking :: "ClientContext \<Rightarrow> bool" where
  "Blocking ctx = (case ctx of ClientWaitContext \<Rightarrow> True | ClientWatchContext _ _ \<Rightarrow> False)"

definition ReceiveResponseHandler ::
    "u32 \<Rightarrow> Response \<Rightarrow> 'l TcpConfigStore \<Rightarrow> (result \<times> notification list \<times> 'l TcpConfigStore) cpp" where
  "ReceiveResponseHandler seq response s =
     (case map_of (msgClientContext s) seq of
        None \<Rightarrow> Some (SM_ERROR, [], s)
      | Some ctx \<Rightarrow> do {
          let s = (if OnlyOneTime ctx then s\<lparr>msgClientContext := um_erase seq (msgClientContext s)\<rparr> else s);
          (ns, s) \<leftarrow> SetFinished seq ctx response s;
          Some (SM_OK, ns, s)
        })"

fun fail_contexts ::
    "(u32 \<times> ClientContext) list \<Rightarrow> 'l TcpConfigStore \<Rightarrow> (notification list \<times> 'l TcpConfigStore) cpp" where
  "fail_contexts [] s = Some ([], s)"
| "fail_contexts ((seq, ctx) # rest) s = do {
     (ns, s) \<leftarrow> SetFailedFinish seq ctx s;
     (ns', s) \<leftarrow> fail_contexts rest s;
     Some (ns @ ns', s)
   }"

text \<open>The broken handler a user may register is called in between and does not touch the store's state.\<close>

definition ClientLinkBroken :: "'l TcpConfigStore \<Rightarrow> (notification list \<times> 'l TcpConfigStore) cpp" where
  "ClientLinkBroken s = fail_contexts (msgClientContext s) (s\<lparr>isConnect := False, msgClientContext := []\<rparr>)"

definition SendWatchRequest ::
    "'l link_ops \<Rightarrow> bytes \<Rightarrow> WatchTarget \<Rightarrow> u32 \<Rightarrow> 'l TcpConfigStore \<Rightarrow> (result \<times> u32 \<times> 'l TcpConfigStore) cpp" where
  "SendWatchRequest lops reqBody target wid s =
     (let seq = reqSeqGen s; s = s\<lparr>reqSeqGen := seq + 1\<rparr>
      in if \<not> accClientLink s then Some (SM_NOT_INITIALIZED, wid, s)
         else do {
           let s = s\<lparr>msgClientContext := um_emplace seq (ClientWatchContext target False) (msgClientContext s)\<rparr>;
           (ret, s) \<leftarrow> LocalNonBlockSend lops seq reqBody s;
           if ret \<noteq> SM_OK then Some (ret, wid, s) else Some (SM_OK, seq, s)
         })"

definition Watch :: "'l link_ops \<Rightarrow> bytes \<Rightarrow> u32 \<Rightarrow> 'l TcpConfigStore \<Rightarrow> (result \<times> u32 \<times> 'l TcpConfigStore) cpp" where
  "Watch lops key wid s =
     (if key = [] \<or> length key > MAX_KEY_LEN_CLIENT then Some (store_code INVALID_KEY, wid, s)
      else SendWatchRequest lops (Pack ((message GET)\<lparr>keys := [key]\<rparr>)) (WatchKey key) wid s)"

abbreviation (input) WATCH_RANK_LINK_DOWN :: u32 where "WATCH_RANK_LINK_DOWN \<equiv> 0"

definition Watch_rank :: "'l link_ops \<Rightarrow> u32 \<Rightarrow> u32 \<Rightarrow> 'l TcpConfigStore \<Rightarrow> (result \<times> u32 \<times> 'l TcpConfigStore) cpp" where
  "Watch_rank lops type wid s =
     (if type \<noteq> WATCH_RANK_LINK_DOWN then Some (SM_INVALID_PARAM, wid, s)
      else SendWatchRequest lops (Pack ((message WATCH_RANK_STATE)\<lparr>keys := [WATCH_RANK_DOWN_KEY]\<rparr>)) WatchRank wid s)"

definition Unwatch :: "u32 \<Rightarrow> 'l TcpConfigStore \<Rightarrow> result \<times> 'l TcpConfigStore" where
  "Unwatch wid s =
     (case map_of (msgClientContext s) wid of
        Some ctx \<Rightarrow>
          if \<not> Blocking ctx then (SM_OK, s\<lparr>msgClientContext := um_erase wid (msgClientContext s)\<rparr>)
          else (store_code NOT_EXIST, s)
      | None \<Rightarrow> (store_code NOT_EXIST, s))"

text \<open>One round of the heartbeat thread.\<close>

definition HeartBeat :: "'l link_ops \<Rightarrow> 'l TcpConfigStore \<Rightarrow> 'l TcpConfigStore cpp" where
  "HeartBeat lops s =
     (if isConnect s then do {
        (_, s) \<leftarrow> LocalNonBlockSend lops 0 (Pack (message HEARTBEAT)) s;
        Some s
      } else Some s)"

section \<open>PrefixConfigStore\<close>

text \<open>
  A store is the record of its virtual operations on a state; \<open>tcp_store\<close> is the one over an exchange.
  \<open>PrefixConfigStore\<close> puts its prefix before every key; a base store that is null is not modelled.
\<close>

record 's store_ops =
  st_set :: "bytes \<Rightarrow> bytes \<Rightarrow> 's \<Rightarrow> (result \<times> 's) cpp"
  st_get :: "bytes \<Rightarrow> bytes \<Rightarrow> u64 \<Rightarrow> 's \<Rightarrow> (result \<times> bytes \<times> 's) cpp"
  st_add :: "bytes \<Rightarrow> int \<Rightarrow> int \<Rightarrow> 's \<Rightarrow> (result \<times> int \<times> 's) cpp"
  st_remove :: "bytes \<Rightarrow> 's \<Rightarrow> (result \<times> 's) cpp"
  st_append :: "bytes \<Rightarrow> bytes \<Rightarrow> u64 \<Rightarrow> 's \<Rightarrow> (result \<times> u64 \<times> 's) cpp"
  st_write :: "bytes \<Rightarrow> bytes \<Rightarrow> u32 \<Rightarrow> 's \<Rightarrow> (result \<times> 's) cpp"
  st_cas :: "bytes \<Rightarrow> bytes \<Rightarrow> bytes \<Rightarrow> bytes \<Rightarrow> 's \<Rightarrow> (result \<times> bytes \<times> 's) cpp"
  st_common_prefix :: bytes
  st_complete_key :: "bytes \<Rightarrow> bytes"

definition tcp_store :: "bool \<Rightarrow> 's exchange \<Rightarrow> 's store_ops" where
  "tcp_store stale exch = \<lparr>st_set = Set exch, st_get = GetReal exch, st_add = Add stale exch,
     st_remove = Remove exch, st_append = Append exch, st_write = Write exch, st_cas = Cas exch,
     st_common_prefix = [], st_complete_key = id\<rparr>"

text \<open>
  The string overloads of \<open>ConfigStore\<close>, over any store. Unlike the byte one, that of \<open>Get\<close> drops a
  restored value.
\<close>

definition Get_string :: "'s store_ops \<Rightarrow> bytes \<Rightarrow> bytes \<Rightarrow> u64 \<Rightarrow> 's \<Rightarrow> (result \<times> bytes \<times> 's) cpp" where
  "Get_string st key value timeout s = do {
     (ret, u8val, s) \<leftarrow> st_get st key [] timeout s;
     Some (if ret \<noteq> 0 then (ret, value, s) else (0, u8val, s))
   }"

definition Cas_string :: "'s store_ops \<Rightarrow> bytes \<Rightarrow> bytes \<Rightarrow> bytes \<Rightarrow> bytes \<Rightarrow> 's \<Rightarrow> (result \<times> bytes \<times> 's) cpp" where
  "Cas_string st key expect value exists s = do {
     (ret, u8exists, s) \<leftarrow> st_cas st key expect value [] s;
     Some (if ret \<noteq> SM_OK then (ret, exists, s) else (SM_OK, u8exists, s))
   }"

text \<open>\<open>core\<close> is the store \<open>GetCoreStore\<close> of the base returns, \<open>prefix\<close> the member \<open>keyPrefix_\<close>.\<close>

definition prefix_store :: "'s store_ops \<Rightarrow> bytes \<Rightarrow> 's store_ops" where
  "prefix_store core prefix = \<lparr>st_set = (\<lambda>key. st_set core (prefix @ key)), st_get = (\<lambda>key. st_get core (prefix @ key)),
     st_add = (\<lambda>key. st_add core (prefix @ key)), st_remove = (\<lambda>key. st_remove core (prefix @ key)),
     st_append = (\<lambda>key. st_append core (prefix @ key)), st_write = (\<lambda>key. st_write core (prefix @ key)),
     st_cas = (\<lambda>key. st_cas core (prefix @ key)), st_common_prefix = prefix @ st_common_prefix core,
     st_complete_key = (\<lambda>key. prefix @ key)\<rparr>"

definition PrefixConfigStore :: "'s store_ops \<Rightarrow> 's store_ops \<Rightarrow> bytes \<Rightarrow> 's store_ops" where
  "PrefixConfigStore core base prefix = prefix_store core (st_common_prefix base @ prefix)"

end
