(* ===== verification/Store_Waiters.thy ===== *)
theory Store_Waiters
  imports Store_Server
begin

text \<open>
  Blocked requests of the configuration store server. The invariant \<open>waiters_ok\<close> ties the
  containers of waiting requests together; every step of the server keeps it. On top of it:
  no request stays blocked on a key that exists (\<open>no_stale_waiter\<close>), creating a key answers every
  request that waits for it, and the timer answers only requests that are due.
\<close>

section \<open>Taking waiters out\<close>

declare map_of_eq_Some_iff [simp del]

lemma GetOut_waitCtx:
  "waitCtx (snd (GetOutWaitersInLock ids s)) = filter (\<lambda>e. fst e \<notin> set ids) (waitCtx s)"
proof (induction ids s rule: GetOutWaitersInLock.induct)
  case (2 i ids s)
  show ?case
  proof (cases "map_of (waitCtx s) i")
    case None
    then have "\<forall>e \<in> set (waitCtx s). fst e \<noteq> i"
      by (auto simp: map_of_eq_None_iff)
    then have "filter (\<lambda>e. fst e \<notin> set ids) (waitCtx s) = filter (\<lambda>e. fst e \<notin> set (i # ids)) (waitCtx s)"
      by (intro filter_cong) auto
    with 2 None show ?thesis
      by simp
  next
    case (Some w)
    with 2 show ?thesis
      by (simp add: Let_def case_prod_beta um_erase_def conj_commute)
  qed
qed simp

lemma GetOut_frame [simp]:
  "backend (snd (GetOutWaitersInLock ids s)) = backend s"
  "ext (snd (GetOutWaitersInLock ids s)) = ext s"
  "keyWaiters (snd (GetOutWaitersInLock ids s)) = keyWaiters s"
  "idGen (snd (GetOutWaitersInLock ids s)) = idGen s"
  "aliveRankSet (snd (GetOutWaitersInLock ids s)) = aliveRankSet s"
  "worldSize (snd (GetOutWaitersInLock ids s)) = worldSize s"
  "rankIndex (snd (GetOutWaitersInLock ids s)) = rankIndex s"
  "rankStateWaiters (snd (GetOutWaitersInLock ids s)) = rankStateWaiters s"
  "rankStateTaskQueue (snd (GetOutWaitersInLock ids s)) = rankStateTaskQueue s"
  "heartBeatMap (snd (GetOutWaitersInLock ids s)) = heartBeatMap s"
  "externalOpHandlerMap (snd (GetOutWaitersInLock ids s)) = externalOpHandlerMap s"
  "externalBrokenHandler (snd (GetOutWaitersInLock ids s)) = externalBrokenHandler s"
  by (induction ids s rule: GetOutWaitersInLock.induct)
    (auto simp: Let_def case_prod_beta split: option.splits)

lemma GetOut_contexts:
  "um_ok (waitCtx s) \<Longrightarrow>
     c \<in> set (fst (GetOutWaitersInLock ids s)) \<longleftrightarrow>
       (\<exists>i w. i \<in> set ids \<and> map_of (waitCtx s) i = Some w \<and> c = reqCtx w)"
proof (induction ids s rule: GetOutWaitersInLock.induct)
  case (2 i ids s)
  show ?case
  proof (cases "map_of (waitCtx s) i")
    case None
    with 2 show ?thesis
      by auto
  next
    case (Some w)
    let ?s = "s\<lparr>timedWaiters := erase_timed (timeoutMs w) (waitId w) (timedWaiters s),
                waitCtx := um_erase i (waitCtx s)\<rparr>"
    have "c \<in> set (fst (GetOutWaitersInLock ids ?s)) \<longleftrightarrow>
        (\<exists>j v. j \<in> set ids \<and> j \<noteq> i \<and> map_of (waitCtx s) j = Some v \<and> c = reqCtx v)"
      using "2.IH"(2) [OF Some refl] "2.prems" by (auto simp: um_ok_um_erase)
    with Some show ?thesis
      by (simp add: Let_def case_prod_beta) (metis option.inject)
  qed
qed simp

lemma erase_timed_lookup:
  "map_of (erase_timed t i timed) u =
     (case map_of timed u of
        None \<Rightarrow> None
      | Some ids \<Rightarrow> if u = t then (if us_erase i ids = [] then None else Some (us_erase i ids)) else Some ids)"
  by (auto simp: erase_timed_def Let_def split: option.splits)

lemma um_ok_erase_timed: "um_ok timed \<Longrightarrow> um_ok (erase_timed t i timed)"
  by (auto simp: erase_timed_def Let_def um_ok_um_erase um_ok_um_set split: option.splits)

lemma GetOut_um_ok_timed:
  "um_ok (timedWaiters s) \<Longrightarrow> um_ok (timedWaiters (snd (GetOutWaitersInLock ids s)))"
  by (induction ids s rule: GetOutWaitersInLock.induct)
    (auto simp: Let_def case_prod_beta um_ok_erase_timed split: option.splits)

section \<open>The invariant\<close>

definition waiters_ok :: "('b, 'x) AccStoreServer \<Rightarrow> bool" where
  "waiters_ok s \<longleftrightarrow>
     um_ok (waitCtx s) \<and> um_ok (keyWaiters s) \<and> um_ok (timedWaiters s) \<and>
     (\<forall>i w. map_of (waitCtx s) i = Some w \<longrightarrow>
        waitId w = i \<and> i < idGen s \<and> ctxLink (reqCtx w) \<noteq> None \<and>
        (\<exists>ids. map_of (keyWaiters s) (waitKey w) = Some ids \<and> i \<in> set ids))"

text \<open>The requests that are blocked on a key.\<close>

definition blocked_on :: "bytes \<Rightarrow> ('b, 'x) AccStoreServer \<Rightarrow> ReqCtx set" where
  "blocked_on k s = {reqCtx w |i w. map_of (waitCtx s) i = Some w \<and> waitKey w = k}"

definition blocked_keys :: "('b, 'x) AccStoreServer \<Rightarrow> bytes set" where
  "blocked_keys s = {waitKey w |i w. map_of (waitCtx s) i = Some w}"

lemma waiters_okD:
  assumes "waiters_ok s"
  shows "um_ok (waitCtx s)" "um_ok (keyWaiters s)" "um_ok (timedWaiters s)"
    and "map_of (waitCtx s) i = Some w \<Longrightarrow> waitId w = i"
    and "map_of (waitCtx s) i = Some w \<Longrightarrow> i < idGen s"
    and "map_of (waitCtx s) i = Some w \<Longrightarrow> ctxLink (reqCtx w) \<noteq> None"
    and "map_of (waitCtx s) i = Some w \<Longrightarrow>
      \<exists>ids. map_of (keyWaiters s) (waitKey w) = Some ids \<and> i \<in> set ids"
  using assms by (auto simp: waiters_ok_def)

lemma waiters_ok_frame:
  assumes "waiters_ok s" and "waitCtx t = waitCtx s" and "keyWaiters t = keyWaiters s"
    and "timedWaiters t = timedWaiters s" and "idGen s \<le> idGen t"
  shows "waiters_ok t"
  unfolding waiters_ok_def assms(2-4)
  using waiters_okD [OF assms(1)] order_less_le_trans [OF _ assms(5)] by blast

lemma map_of_filter_keys:
  "map_of (filter (\<lambda>e. fst e \<notin> A) m) i = (if i \<in> A then None else map_of m i)"
  by (induction m) auto

lemma GetOut_lookup:
  "map_of (waitCtx (snd (GetOutWaitersInLock ids s))) i = (if i \<in> set ids then None else map_of (waitCtx s) i)"
  by (simp only: GetOut_waitCtx map_of_filter_keys)

lemma waiters_ok_GetOut:
  assumes "waiters_ok s"
  shows "waiters_ok (snd (GetOutWaitersInLock ids s))"
proof -
  have "um_ok (waitCtx (snd (GetOutWaitersInLock ids s)))"
    using waiters_okD(1) [OF assms] by (simp add: GetOut_waitCtx distinct_map_filter)
  with assms show ?thesis
    unfolding waiters_ok_def
    by (auto simp: GetOut_lookup GetOut_um_ok_timed split: if_splits)
qed

lemma take_key_waiters_simps:
  "take_key_waiters k s =
     (case map_of (keyWaiters s) k of
        None \<Rightarrow> ([], s)
      | Some ids \<Rightarrow> (fst (GetOutWaitersInLock ids s),
          (snd (GetOutWaitersInLock ids s))\<lparr>keyWaiters := um_erase k (keyWaiters s)\<rparr>))"
  by (simp add: take_key_waiters_def case_prod_beta Let_def split: option.split)

lemma take_key_waiters_lookup:
  assumes "waiters_ok s"
  shows "map_of (waitCtx (snd (take_key_waiters k s))) i =
    (case map_of (waitCtx s) i of None \<Rightarrow> None
     | Some w \<Rightarrow> if i \<in> set (case map_of (keyWaiters s) k of None \<Rightarrow> [] | Some ids \<Rightarrow> ids) then None else Some w)"
  by (auto simp: take_key_waiters_simps GetOut_lookup split: option.splits)

lemma take_key_waiters_removes:
  assumes "waiters_ok s" and "map_of (waitCtx (snd (take_key_waiters k s))) i = Some w"
  shows "waitKey w \<noteq> k" and "map_of (waitCtx s) i = Some w"
proof -
  from assms show w: "map_of (waitCtx s) i = Some w"
    by (auto simp: take_key_waiters_lookup split: option.splits if_splits)
  from waiters_okD(7) [OF assms(1) w] assms show "waitKey w \<noteq> k"
    by (auto simp: take_key_waiters_lookup split: option.splits if_splits)
qed

lemma take_key_waiters_frame [simp]:
  "backend (snd (take_key_waiters k s)) = backend s"
  "ext (snd (take_key_waiters k s)) = ext s"
  "idGen (snd (take_key_waiters k s)) = idGen s"
  "externalOpHandlerMap (snd (take_key_waiters k s)) = externalOpHandlerMap s"
  "aliveRankSet (snd (take_key_waiters k s)) = aliveRankSet s"
  "worldSize (snd (take_key_waiters k s)) = worldSize s"
  "rankIndex (snd (take_key_waiters k s)) = rankIndex s"
  by (simp_all add: take_key_waiters_simps split: option.splits)

lemma waiters_ok_take_key_waiters:
  assumes "waiters_ok s"
  shows "waiters_ok (snd (take_key_waiters k s))"
proof -
  let ?t = "snd (take_key_waiters k s)"
  have um: "um_ok (waitCtx ?t)" "um_ok (keyWaiters ?t)" "um_ok (timedWaiters ?t)"
    using waiters_okD(1-3) [OF assms] waiters_ok_GetOut [OF assms] GetOut_um_ok_timed
    by (auto simp: take_key_waiters_simps um_ok_um_erase waiters_ok_def split: option.splits)
  have kw: "map_of (keyWaiters ?t) k' = map_of (keyWaiters s) k'" if "k' \<noteq> k" for k'
    using that by (simp add: take_key_waiters_simps split: option.splits)
  show ?thesis
    unfolding waiters_ok_def
  proof (intro conjI allI impI)
    fix i w
    assume "map_of (waitCtx ?t) i = Some w"
    note old = take_key_waiters_removes [OF assms this]
    then show "waitId w = i" "i < idGen ?t" "ctxLink (reqCtx w) \<noteq> None"
      "\<exists>ids. map_of (keyWaiters ?t) (waitKey w) = Some ids \<and> i \<in> set ids"
      using waiters_okD(4-7) [OF assms old(2)] kw by auto
  qed (use um in simp_all)
qed

lemma take_key_waiters_contexts:
  assumes "waiters_ok s"
  shows "blocked_on k s \<subseteq> set (fst (take_key_waiters k s))"
proof
  fix c
  assume "c \<in> blocked_on k s"
  then obtain i w where w: "map_of (waitCtx s) i = Some w" "waitKey w = k" "c = reqCtx w"
    by (auto simp: blocked_on_def)
  from waiters_okD(7) [OF assms w(1)] w(2) obtain ids where
    "map_of (keyWaiters s) k = Some ids" and "i \<in> set ids"
    by auto
  with w GetOut_contexts [OF waiters_okD(1) [OF assms], of c ids] show "c \<in> set (fst (take_key_waiters k s))"
    by (auto simp: take_key_waiters_simps)
qed

lemma take_key_waiters_no_block:
  "waiters_ok s \<Longrightarrow> blocked_on k (snd (take_key_waiters k s)) = {}"
  unfolding blocked_on_def using take_key_waiters_removes(1) [of s k] by blast

section \<open>Every handler keeps the invariant\<close>

lemma waiters_ok_updates [simp]:
  "waiters_ok (s\<lparr>backend := b\<rparr>) = waiters_ok s"
  "waiters_ok (s\<lparr>ext := x\<rparr>) = waiters_ok s"
  "waiters_ok (s\<lparr>rankIndex := r\<rparr>) = waiters_ok s"
  "waiters_ok (s\<lparr>worldSize := r\<rparr>) = waiters_ok s"
  "waiters_ok (s\<lparr>aliveRankSet := al\<rparr>) = waiters_ok s"
  "waiters_ok (s\<lparr>heartBeatMap := h\<rparr>) = waiters_ok s"
  "waiters_ok (s\<lparr>rankStateWaiters := rw\<rparr>) = waiters_ok s"
  "waiters_ok (s\<lparr>rankStateTaskQueue := q\<rparr>) = waiters_ok s"
  by (simp_all add: waiters_ok_def)

lemma waiters_ok_new_server [simp]: "waiters_ok (new_server n b x)"
  by (simp add: waiters_ok_def new_server_def)

lemma ExecuteHandle_frame:
  "ExecuteHandle op l k v s = Some (r, v', t) \<Longrightarrow> t = s\<lparr>backend := backend t, ext := ext t\<rparr>"
  by (auto simp: ExecuteHandle_def cpp_simps split: option.splits)

lemma waiters_ok_ExecuteHandle:
  assumes "ExecuteHandle op l k v s = Some (r, v', t)" and "waiters_ok s"
  shows "waiters_ok t"
  using assms(2) by (subst ExecuteHandle_frame [OF assms(1)]) simp

lemma waiters_ok_take: "take_key_waiters k s = (ws, t) \<Longrightarrow> waiters_ok s \<Longrightarrow> waiters_ok t"
  using waiters_ok_take_key_waiters [of s k] by simp

lemma add_waiter_lookup:
  "map_of (add_waiter k i m) k' =
     (if k' = k then Some (us_insert i (case map_of m k of None \<Rightarrow> [] | Some ids \<Rightarrow> ids)) else map_of m k')"
  by (auto simp: add_waiter_def us_insert_def map_of_um_emplace split: option.splits)

lemma um_ok_add_timer: "um_ok m \<Longrightarrow> um_ok (add_timer t i m)"
  by (auto simp: add_timer_def um_ok_um_set um_ok_um_emplace split: option.splits)

lemma um_ok_add_waiter: "um_ok m \<Longrightarrow> um_ok (add_waiter k i m)"
  by (auto simp: add_waiter_def um_ok_um_set um_ok_um_emplace split: option.splits)

text \<open>
  Registering a new request. The counter \<open>idGen_\<close> has 64 bits; the step must not wrap it.
\<close>

lemma waiters_ok_register:
  assumes "waiters_ok s" and "idGen s \<noteq> - 1" and "ctxLink (reqCtx w) \<noteq> None"
    and "waitId w = idGen s" and "um_ok timed"
  shows "waiters_ok (s\<lparr>idGen := idGen s + 1, waitCtx := um_emplace (idGen s) w (waitCtx s),
    keyWaiters := add_waiter (waitKey w) (idGen s) (keyWaiters s), timedWaiters := timed\<rparr>)"
proof -
  have fresh: "map_of (waitCtx s) (idGen s) = None"
    using waiters_okD(5) [OF assms(1), of "idGen s"] by (cases "map_of (waitCtx s) (idGen s)") auto
  have step: "idGen s < idGen s + 1"
    using assms(2) inc_less_eq_self_iff_eq [of "idGen s"] by (metis not_le)
  have old: "i < idGen s + 1 \<and> (\<exists>ids. map_of (add_waiter (waitKey w) (idGen s) (keyWaiters s)) (waitKey v) = Some ids
      \<and> i \<in> set ids)" if "map_of (waitCtx s) i = Some v" for i v
    using waiters_okD(5,7) [OF assms(1) that] step by (auto simp: add_waiter_lookup)
  have new: "\<exists>ids. map_of (add_waiter (waitKey w) (idGen s) (keyWaiters s)) (waitKey w) = Some ids \<and> idGen s \<in> set ids"
    by (simp add: add_waiter_lookup)
  show ?thesis
    unfolding waiters_ok_def
    using waiters_okD(1-4,6) [OF assms(1)] assms(3-5) old new step fresh
    by (auto simp: um_ok_um_emplace um_ok_add_waiter map_of_um_emplace split: if_splits)
qed

lemma waiters_ok_SetHandler:
  "SetHandler ops up c request s = Some (t, rs, r) \<Longrightarrow> waiters_ok s \<Longrightarrow> waiters_ok t"
  by (auto simp: SetHandler_def Let_def cpp_simps case_prod_beta waiters_ok_take_key_waiters
      dest!: waiters_ok_ExecuteHandle split: if_splits)

lemma waiters_ok_FindOrInsertRank:
  "FindOrInsertRank ops c request s = Some (t, rs, r) \<Longrightarrow> waiters_ok s \<Longrightarrow> waiters_ok t"
  by (auto simp: FindOrInsertRank_def Let_def cpp_simps case_prod_beta split: if_splits option.splits)

lemma waiters_ok_GetHandler:
  assumes run: "GetHandler ops now c request s = Some (t, rs, r)"
    and ok: "waiters_ok s" and wrap: "idGen s \<noteq> - 1"
  shows "waiters_ok t"
proof -
  have reg: "waiters_ok (u\<lparr>idGen := idGen u + 1,
      waitCtx := um_emplace (idGen u) \<lparr>waitId = idGen u, timeoutMs = d, waitKey = k, reqCtx = c\<rparr> (waitCtx u),
      keyWaiters := add_waiter k (idGen u) (keyWaiters u),
      timedWaiters := (if b then add_timer d (idGen u) (timedWaiters u) else timedWaiters u)\<rparr>)"
    if "ExecuteHandle GET l k' [] s = Some (e, v, u)" and "ctxLink c = Some l" for u l k k' e v b d
  proof -
    have u: "waiters_ok u" "idGen u = idGen s"
      using that(1) ok ExecuteHandle_frame [OF that(1)] waiters_ok_ExecuteHandle [OF that(1)]
      by (auto simp: ExecuteHandle_def cpp_simps split: option.splits)
    then show ?thesis
      using waiters_ok_register [of u "\<lparr>waitId = idGen u, timeoutMs = d, waitKey = k, reqCtx = c\<rparr>"
          "if b then add_timer d (idGen u) (timedWaiters u) else timedWaiters u"]
        wrap that(2) waiters_okD(3) [OF u(1)] by (simp add: um_ok_add_timer)
  qed
  note timed = reg [where b = True, simplified] and untimed = reg [where b = False, simplified]
  from run ok show ?thesis
    by (auto simp: GetHandler_def Let_def cpp_simps case_prod_beta
        dest: waiters_ok_FindOrInsertRank intro: timed untimed waiters_ok_ExecuteHandle split: if_splits)
qed

lemma waiters_ok_AddHandler:
  "AddHandler ops up c request s = Some (t, rs, r) \<Longrightarrow> waiters_ok s \<Longrightarrow> waiters_ok t"
  by (auto simp: AddHandler_def Let_def cpp_simps case_prod_beta waiters_ok_take_key_waiters
      dest!: waiters_ok_ExecuteHandle split: if_splits option.splits)

lemma waiters_ok_RemoveHandler:
  "RemoveHandler ops c request s = Some (t, rs, r) \<Longrightarrow> waiters_ok s \<Longrightarrow> waiters_ok t"
  by (auto simp: RemoveHandler_def Let_def split: if_splits)

lemma waiters_ok_AppendHandler:
  "AppendHandler ops up c request s = Some (t, rs, r) \<Longrightarrow> waiters_ok s \<Longrightarrow> waiters_ok t"
  by (auto simp: AppendHandler_def Let_def cpp_simps case_prod_beta waiters_ok_take_key_waiters
      dest!: waiters_ok_ExecuteHandle split: if_splits)

lemma waiters_ok_WriteHandler:
  "WriteHandler ops c request s = Some (t, rs, r) \<Longrightarrow> waiters_ok s \<Longrightarrow> waiters_ok t"
  by (auto simp: WriteHandler_def Let_def cpp_simps case_prod_beta
      dest!: waiters_ok_ExecuteHandle split: if_splits)

lemma waiters_ok_CasHandler:
  "CasHandler ops up c request s = Some (t, rs, r) \<Longrightarrow> waiters_ok s \<Longrightarrow> waiters_ok t"
  by (auto simp: CasHandler_def Let_def cpp_simps case_prod_beta waiters_ok_take_key_waiters
      split: if_splits)

lemma waiters_ok_WatchRankStateHandler:
  assumes "WatchRankStateHandler c request s = Some (t, rs, r)" and "waiters_ok s" and "idGen s \<noteq> - 1"
  shows "waiters_ok t"
proof -
  have "waiters_ok (s\<lparr>idGen := idGen s + 1\<rparr>)"
    using assms(2,3) inc_less_eq_self_iff_eq [of "idGen s"]
    by (intro waiters_ok_frame [OF assms(2)]) (auto intro: less_imp_le simp: not_le)
  with assms show ?thesis
    by (auto simp: WatchRankStateHandler_def Let_def split: if_splits option.splits)
qed

lemma waiters_ok_HeartbeatHandler:
  "HeartbeatHandler now c request s = Some (t, rs, r) \<Longrightarrow> waiters_ok s \<Longrightarrow> waiters_ok t"
  by (auto simp: HeartbeatHandler_def split: if_splits option.splits)

lemma waiters_ok_requestHandlers:
  assumes "requestHandlers m = Some h" and "h ops up now c request s = Some (t, rs, r)"
    and "waiters_ok s" and "idGen s \<noteq> - 1"
  shows "waiters_ok t"
  using assms
  by (cases m) (auto intro: waiters_ok_SetHandler waiters_ok_GetHandler waiters_ok_AddHandler
      waiters_ok_RemoveHandler waiters_ok_AppendHandler waiters_ok_WriteHandler waiters_ok_CasHandler
      waiters_ok_WatchRankStateHandler waiters_ok_HeartbeatHandler)

lemma ReceiveMessageHandler_cases:
  assumes "ReceiveMessageHandler ops up now c data s = Some (t, rs, r)"
  obtains (rejected) msg where "t = s" "rs = [(c, store_code INVALID_MESSAGE, str msg)]"
  | (handled) buf request n h where "data = Some buf" "Unpack (Some buf) = Some (Inr (request, n))"
      "requestHandlers (mt request) = Some h" "h ops up now c request s = Some (t, rs, r)"
proof (cases data)
  case None
  with assms rejected show ?thesis
    by (auto simp: ReceiveMessageHandler_def)
next
  case (Some buf)
  with assms obtain u where u: "Unpack (Some buf) = Some u"
    by (auto simp: ReceiveMessageHandler_def cpp_simps)
  show ?thesis
  proof (cases u)
    case (Inl e)
    with assms Some u rejected show ?thesis
      by (auto simp: ReceiveMessageHandler_def)
  next
    case (Inr q)
    obtain request n where q: "q = (request, n)"
      by (cases q)
    with assms Some u Inr rejected handled show ?thesis
      by (auto simp: ReceiveMessageHandler_def split: option.splits)
  qed
qed

lemma waiters_ok_ReceiveMessageHandler:
  assumes run: "ReceiveMessageHandler ops up now c data s = Some (t, rs, r)"
    and "waiters_ok s" and "idGen s \<noteq> - 1"
  shows "waiters_ok t"
  using run by (cases rule: ReceiveMessageHandler_cases)
    (use assms(2,3) in \<open>auto intro: waiters_ok_requestHandlers\<close>)

lemma waiters_ok_LinkConnectedHandler:
  "LinkConnectedHandler ops conn l s = (t, r) \<Longrightarrow> waiters_ok s \<Longrightarrow> waiters_ok t"
  by (auto simp: LinkConnectedHandler_def Let_def case_prod_beta split: if_splits)

lemma waiters_ok_clear_data [simp]: "waiters_ok (clear_data ops s)"
  by (simp add: clear_data_def waiters_ok_def)

lemma waiters_ok_LinkBrokenHandler:
  "LinkBrokenHandler ops l s = Some (t, r) \<Longrightarrow> waiters_ok s \<Longrightarrow> waiters_ok t"
  by (auto simp: LinkBrokenHandler_def Let_def cpp_simps case_prod_beta split: if_splits option.splits)

lemma waiters_ok_LinkBrokenHandler_id:
  "LinkBrokenHandler_id l s = Some (t, r) \<Longrightarrow> waiters_ok s \<Longrightarrow> waiters_ok t"
  by (auto simp: LinkBrokenHandler_id_def cpp_simps split: option.splits)

lemma waiters_ok_break_links: "break_links ls s = Some t \<Longrightarrow> waiters_ok s \<Longrightarrow> waiters_ok t"
  by (induction ls arbitrary: s) (auto simp: cpp_simps dest: waiters_ok_LinkBrokenHandler_id)

lemma waiters_ok_CheckerThreadTask: "CheckerThreadTask now s = Some t \<Longrightarrow> waiters_ok s \<Longrightarrow> waiters_ok t"
  by (auto simp: CheckerThreadTask_def Let_def dest!: waiters_ok_break_links)

lemma waiters_ok_RankStateTask: "RankStateTask up s = Some (t, rs) \<Longrightarrow> waiters_ok s \<Longrightarrow> waiters_ok t"
  by (auto simp: RankStateTask_def cpp_simps split: list.splits)

lemma collect_due_subset: "set (snd (collect_due now timed)) \<subseteq> set timed"
  by (induction now timed rule: collect_due.induct) (auto simp: case_prod_beta)

lemma um_ok_collect_due: "um_ok timed \<Longrightarrow> um_ok (snd (collect_due now timed))"
  using collect_due_subset by (induction now timed rule: collect_due.induct) (force simp: case_prod_beta)+

lemma waiters_ok_set_timed: "waiters_ok s \<Longrightarrow> um_ok timed \<Longrightarrow> waiters_ok (s\<lparr>timedWaiters := timed\<rparr>)"
  by (simp add: waiters_ok_def)

lemma TimerThreadTask_eq:
  "TimerThreadTask up now s = Some (t, rs) \<longleftrightarrow>
     (let g = GetOutWaitersInLock (fst (collect_due now (timedWaiters s)))
                (s\<lparr>timedWaiters := snd (collect_due now (timedWaiters s))\<rparr>)
      in t = snd g \<and> reply_established up (store_code TIMEOUT) (str ''<timeout>'') (fst g) = Some rs)"
  by (auto simp: TimerThreadTask_def case_prod_beta cpp_simps Let_def)

lemma waiters_ok_TimerThreadTask:
  "TimerThreadTask up now s = Some (t, rs) \<Longrightarrow> waiters_ok s \<Longrightarrow> waiters_ok t"
  by (auto simp: TimerThreadTask_eq Let_def
      intro!: waiters_ok_GetOut waiters_ok_set_timed um_ok_collect_due dest: waiters_okD(3))

section \<open>Reachable states\<close>

text \<open>
  The steps of the server, in any order: a request, a connection, a broken link and one round of each
  background thread. A request is received only while the 64-bit counter can still grow.
\<close>

datatype event = Received "bytes option" | Connected link | Broken link | TimerRound | RankStateRound | CheckerRound

inductive server_step ::
    "'b backend_ops \<Rightarrow> ('b, 'x) AccStoreServer \<Rightarrow> event \<Rightarrow> reply list \<Rightarrow> ('b, 'x) AccStoreServer \<Rightarrow> bool"
  for ops where
  receive: "ReceiveMessageHandler ops up now c data s = Some (t, rs, r) \<Longrightarrow> idGen s \<noteq> - 1 \<Longrightarrow>
    server_step ops s (Received data) rs t"
| connected: "LinkConnectedHandler ops conn l s = (t, r) \<Longrightarrow> server_step ops s (Connected l) [] t"
| broken: "LinkBrokenHandler ops l s = Some (t, r) \<Longrightarrow> server_step ops s (Broken l) [] t"
| timer: "TimerThreadTask up now s = Some (t, rs) \<Longrightarrow> server_step ops s TimerRound rs t"
| rank_state: "RankStateTask up s = Some (t, rs) \<Longrightarrow> server_step ops s RankStateRound rs t"
| checker: "CheckerThreadTask now s = Some t \<Longrightarrow> server_step ops s CheckerRound [] t"

inductive server_run ::
    "'b backend_ops \<Rightarrow> ('b, 'x) AccStoreServer \<Rightarrow> event list \<Rightarrow> ('b, 'x) AccStoreServer \<Rightarrow> bool"
  for ops where
  start: "server_run ops s [] s"
| step: "server_run ops s evs t \<Longrightarrow> server_step ops t ev rs u \<Longrightarrow> server_run ops s (evs @ [ev]) u"

lemma waiters_ok_server_step: "server_step ops s ev rs t \<Longrightarrow> waiters_ok s \<Longrightarrow> waiters_ok t"
  by (induction rule: server_step.induct)
    (auto intro: waiters_ok_ReceiveMessageHandler waiters_ok_LinkBrokenHandler waiters_ok_TimerThreadTask
      waiters_ok_RankStateTask waiters_ok_CheckerThreadTask waiters_ok_LinkConnectedHandler)

lemma waiters_ok_server_run: "server_run ops s evs t \<Longrightarrow> waiters_ok s \<Longrightarrow> waiters_ok t"
  by (induction rule: server_run.induct) (auto intro: waiters_ok_server_step)

section \<open>No request stays blocked on a key that exists\<close>

definition no_handlers :: "('b, 'x) AccStoreServer \<Rightarrow> bool" where
  "no_handlers s \<longleftrightarrow> externalOpHandlerMap s = [] \<and> externalBrokenHandler s = None"

definition no_stale_waiter :: "('b \<Rightarrow> bytes \<rightharpoonup> bytes) \<Rightarrow> ('b, 'x) AccStoreServer \<Rightarrow> bool" where
  "no_stale_waiter lookup s \<longleftrightarrow>
     (\<forall>i w. map_of (waitCtx s) i = Some w \<longrightarrow>
        lookup (backend s) (waitKey w) = None \<and>
        take (length AutoRankingStr) (waitKey w) \<noteq> AutoRankingStr)"

definition is_write :: "event \<Rightarrow> bool" where
  "is_write ev = (case ev of
       Received (Some buf) \<Rightarrow> (case Unpack (Some buf) of Some (Inr (m, _)) \<Rightarrow> mt m = WRITE | _ \<Rightarrow> False)
     | _ \<Rightarrow> False)"

lemma ExecuteHandle_none: "no_handlers s \<Longrightarrow> ExecuteHandle op l k v s = Some (SM_OK, v, s)"
  by (simp add: ExecuteHandle_def no_handlers_def)

lemma take_key_waiters_no_handlers [simp]: "no_handlers (snd (take_key_waiters k s)) = no_handlers s"
  by (simp add: no_handlers_def take_key_waiters_simps split: option.splits)

lemma no_handlers_updates [simp]:
  "no_handlers (s\<lparr>backend := b\<rparr>) = no_handlers s"
  "no_handlers (s\<lparr>ext := x\<rparr>) = no_handlers s"
  "no_handlers (s\<lparr>rankIndex := i\<rparr>) = no_handlers s"
  "no_handlers (s\<lparr>worldSize := i\<rparr>) = no_handlers s"
  "no_handlers (s\<lparr>aliveRankSet := al\<rparr>) = no_handlers s"
  "no_handlers (s\<lparr>heartBeatMap := h\<rparr>) = no_handlers s"
  "no_handlers (s\<lparr>rankStateWaiters := rw\<rparr>) = no_handlers s"
  "no_handlers (s\<lparr>rankStateTaskQueue := q\<rparr>) = no_handlers s"
  "no_handlers (s\<lparr>waitCtx := wc\<rparr>) = no_handlers s"
  "no_handlers (s\<lparr>keyWaiters := kw\<rparr>) = no_handlers s"
  "no_handlers (s\<lparr>timedWaiters := tw\<rparr>) = no_handlers s"
  "no_handlers (s\<lparr>idGen := g\<rparr>) = no_handlers s"
  by (simp_all add: no_handlers_def)

lemma no_stale_updates [simp]:
  "no_stale_waiter lookup (s\<lparr>ext := x\<rparr>) = no_stale_waiter lookup s"
  "no_stale_waiter lookup (s\<lparr>rankIndex := i\<rparr>) = no_stale_waiter lookup s"
  "no_stale_waiter lookup (s\<lparr>worldSize := i\<rparr>) = no_stale_waiter lookup s"
  "no_stale_waiter lookup (s\<lparr>aliveRankSet := al\<rparr>) = no_stale_waiter lookup s"
  "no_stale_waiter lookup (s\<lparr>heartBeatMap := h\<rparr>) = no_stale_waiter lookup s"
  "no_stale_waiter lookup (s\<lparr>rankStateWaiters := rw\<rparr>) = no_stale_waiter lookup s"
  "no_stale_waiter lookup (s\<lparr>rankStateTaskQueue := q\<rparr>) = no_stale_waiter lookup s"
  "no_stale_waiter lookup (s\<lparr>idGen := g\<rparr>) = no_stale_waiter lookup s"
  "no_stale_waiter lookup (s\<lparr>timedWaiters := tw\<rparr>) = no_stale_waiter lookup s"
  "no_stale_waiter lookup (s\<lparr>keyWaiters := kw\<rparr>) = no_stale_waiter lookup s"
  "no_stale_waiter lookup (s\<lparr>backend := b, rankIndex := i\<rparr>) = no_stale_waiter lookup (s\<lparr>backend := b\<rparr>)"
  "no_stale_waiter lookup (s\<lparr>backend := b, aliveRankSet := al\<rparr>) = no_stale_waiter lookup (s\<lparr>backend := b\<rparr>)"
  "no_stale_waiter lookup (s\<lparr>worldSize := i, backend := b\<rparr>) = no_stale_waiter lookup (s\<lparr>backend := b\<rparr>)"
  "no_stale_waiter lookup (s\<lparr>aliveRankSet := al, backend := b\<rparr>) = no_stale_waiter lookup (s\<lparr>backend := b\<rparr>)"
  by (simp_all add: no_stale_waiter_def)

lemma no_stale_mono:
  assumes "no_stale_waiter lookup s"
    and "\<And>i w. map_of (waitCtx t) i = Some w \<Longrightarrow>
      map_of (waitCtx s) i = Some w \<and>
      (lookup (backend s) (waitKey w) = None \<longrightarrow> take (length AutoRankingStr) (waitKey w) \<noteq> AutoRankingStr \<longrightarrow>
        lookup (backend t) (waitKey w) = None)"
  shows "no_stale_waiter lookup t"
  unfolding no_stale_waiter_def
proof (intro allI impI)
  fix i w
  assume "map_of (waitCtx t) i = Some w"
  with assms(2) [OF this] assms(1)
  show "lookup (backend t) (waitKey w) = None \<and> take (length AutoRankingStr) (waitKey w) \<noteq> AutoRankingStr"
    by (auto simp: no_stale_waiter_def)
qed

lemma no_stale_clear_data:
  "no_stale_waiter lookup (clear_data ops s)" "no_handlers (clear_data ops s) = no_handlers s"
  by (simp_all add: clear_data_def no_stale_waiter_def no_handlers_def)

text \<open>Storing a key whose waiters were just taken out, or a ranking key, leaves no stale waiter.\<close>

definition server_inv :: "('b \<Rightarrow> bytes \<rightharpoonup> bytes) \<Rightarrow> ('b, 'x) AccStoreServer \<Rightarrow> bool" where
  "server_inv lookup s \<longleftrightarrow> waiters_ok s \<and> no_handlers s \<and> no_stale_waiter lookup s"

lemma server_inv_new_server: "server_inv lookup (new_server n b x)"
  by (simp add: server_inv_def no_handlers_def no_stale_waiter_def) (simp add: new_server_def)

lemma no_stale_take:
  "waiters_ok s \<Longrightarrow> no_stale_waiter lookup s \<Longrightarrow> no_stale_waiter lookup (snd (take_key_waiters k s))"
  by (auto simp: no_stale_waiter_def dest: take_key_waiters_removes)

context store_backend
begin

lemma put_other: "k' \<noteq> k \<Longrightarrow> lookup (snd (be_put ops b k v ttl)) k' = lookup b k'"
  using put_success [of b k v ttl] put_failure [of b k v ttl]
  by (cases "be_put ops b k v ttl") (metis fun_upd_apply snd_conv)

lemma put_present: "lookup b k' \<noteq> None \<Longrightarrow> lookup (snd (be_put ops b k v ttl)) k' \<noteq> None"
  using put_success [of b k v ttl] put_failure [of b k v ttl]
  by (cases "be_put ops b k v ttl") (metis fun_upd_apply option.distinct(1) snd_conv)

lemma no_stale_put_existing:
  assumes "no_stale_waiter lookup s" and "lookup (backend s) k \<noteq> None"
  shows "no_stale_waiter lookup (s\<lparr>backend := snd (be_put ops (backend s) k v ttl)\<rparr>)"
  using assms put_other [of _ k "backend s" v ttl] by (auto simp: no_stale_waiter_def) (metis option.distinct(1))

lemma no_stale_put_taken:
  assumes "waiters_ok s" and "no_stale_waiter lookup s"
  shows "no_stale_waiter lookup ((snd (take_key_waiters k s))\<lparr>backend := snd (be_put ops (backend s) k v ttl)\<rparr>)"
  by (rule no_stale_mono [OF assms(2)])
    (use take_key_waiters_removes [OF assms(1), of k] put_other in fastforce)

lemma no_stale_put_ranking:
  assumes "no_stale_waiter lookup s" and "take (length AutoRankingStr) k = AutoRankingStr"
  shows "no_stale_waiter lookup (s\<lparr>backend := snd (be_put ops (backend s) k v ttl)\<rparr>)"
proof (rule no_stale_mono [OF assms(1)])
  show "map_of (waitCtx s) i = Some w \<and> (lookup (backend s) (waitKey w) = None \<longrightarrow>
      take (length AutoRankingStr) (waitKey w) \<noteq> AutoRankingStr \<longrightarrow>
      lookup (backend (s\<lparr>backend := snd (be_put ops (backend s) k v ttl)\<rparr>)) (waitKey w) = None)"
    if "map_of (waitCtx (s\<lparr>backend := snd (be_put ops (backend s) k v ttl)\<rparr>)) i = Some w" for i w
    using that assms(2) put_other [of "waitKey w" k] by (cases "waitKey w = k") auto
qed

lemma no_stale_delete:
  "no_stale_waiter lookup s \<Longrightarrow> no_stale_waiter lookup (s\<lparr>backend := snd (be_delete ops (backend s) k)\<rparr>)"
  by (auto simp: no_stale_waiter_def delete_lookup)

lemma get_failure_lookup: "fst (be_get ops b k out) \<noteq> SUCCESS \<longleftrightarrow> lookup b k = None"
  by (simp add: get_spec split: option.splits)

lemmas inv_simps = server_inv_def Let_def cpp_simps case_prod_beta ExecuteHandle_none
  get_success_iff exist_success_iff waiters_ok_take_key_waiters

lemma no_stale_take_put:
  assumes "waiters_ok s" and "no_stale_waiter lookup s"
  shows "no_stale_waiter lookup (snd (take_key_waiters k (s\<lparr>backend := snd (be_put ops (backend s) k v ttl)\<rparr>)))"
proof (rule no_stale_mono [OF assms(2)])
  let ?s = "s\<lparr>backend := snd (be_put ops (backend s) k v ttl)\<rparr>"
  fix i w
  assume "map_of (waitCtx (snd (take_key_waiters k ?s))) i = Some w"
  with assms(1) have "waitKey w \<noteq> k" "map_of (waitCtx s) i = Some w"
    using take_key_waiters_removes [of ?s k i w] by simp_all
  then show "map_of (waitCtx s) i = Some w \<and> (lookup (backend s) (waitKey w) = None \<longrightarrow>
      take (length AutoRankingStr) (waitKey w) \<noteq> AutoRankingStr \<longrightarrow>
      lookup (backend (snd (take_key_waiters k ?s))) (waitKey w) = None)"
    by (simp add: put_other)
qed

lemma inv_SetHandler:
  "SetHandler ops up c request s = Some (t, rs, r) \<Longrightarrow> server_inv lookup s \<Longrightarrow> server_inv lookup t"
  by (auto simp: SetHandler_def inv_simps no_stale_put_taken no_stale_put_existing split: if_splits)

lemma inv_FindOrInsertRank:
  assumes "FindOrInsertRank ops c request s = Some (t, rs, r)" and "server_inv lookup s"
    and "take (length AutoRankingStr) (keys request ! 0) = AutoRankingStr"
  shows "server_inv lookup t"
proof -
  have "take (length AutoRankingStr) (keys request ! 0 @ d) = AutoRankingStr" for d
    using assms(3) by (metis append_take_drop_id append_eq_conv_conj append_assoc)
  with assms(1,2) show ?thesis
    by (auto simp: FindOrInsertRank_def inv_simps no_stale_put_ranking split: if_splits option.splits)
qed

lemma inv_AddHandler:
  "AddHandler ops up c request s = Some (t, rs, r) \<Longrightarrow> server_inv lookup s \<Longrightarrow> server_inv lookup t"
  by (auto simp: AddHandler_def inv_simps no_stale_put_taken no_stale_put_existing
      split: if_splits option.splits)

lemma inv_RemoveHandler:
  "RemoveHandler ops c request s = Some (t, rs, r) \<Longrightarrow> server_inv lookup s \<Longrightarrow> server_inv lookup t"
  by (auto simp: RemoveHandler_def inv_simps no_stale_delete split: if_splits)

lemma inv_AppendHandler:
  "AppendHandler ops up c request s = Some (t, rs, r) \<Longrightarrow> server_inv lookup s \<Longrightarrow> server_inv lookup t"
  by (auto simp: AppendHandler_def inv_simps no_stale_put_taken no_stale_put_existing split: if_splits)

lemma inv_CasHandler:
  "CasHandler ops up c request s = Some (t, rs, r) \<Longrightarrow> server_inv lookup s \<Longrightarrow> server_inv lookup t"
  by (auto simp: CasHandler_def inv_simps no_stale_take_put no_stale_put_existing split: if_splits)

lemma no_stale_add_waiter:
  assumes "no_stale_waiter lookup s" and "lookup (backend s) (waitKey w) = None"
    and "take (length AutoRankingStr) (waitKey w) \<noteq> AutoRankingStr"
  shows "no_stale_waiter lookup (s\<lparr>idGen := g, waitCtx := um_emplace i w (waitCtx s), keyWaiters := kw,
    timedWaiters := tw\<rparr>)"
  using assms by (auto simp: no_stale_waiter_def map_of_um_emplace split: if_splits)

lemma inv_GetHandler:
  assumes run: "GetHandler ops now c request s = Some (t, rs, r)" and inv: "server_inv lookup s"
    and wrap: "idGen s \<noteq> - 1"
  shows "server_inv lookup t"
proof -
  have ok: "waiters_ok t"
    using waiters_ok_GetHandler [OF run _ wrap] inv by (simp add: server_inv_def)
  have "no_handlers t \<and> no_stale_waiter lookup t"
    if key: "keys request = [k]" "take (length AutoRankingStr) k \<noteq> AutoRankingStr" for k
    using run inv key no_stale_add_waiter [where s = s and i = "idGen s"]
    by (auto simp: GetHandler_def inv_simps get_failure_lookup split: if_splits)
  moreover have "server_inv lookup t" if "take (length AutoRankingStr) (keys request ! 0) = AutoRankingStr"
    using that run inv inv_FindOrInsertRank [of c request s t rs r]
    by (auto simp: GetHandler_def Let_def split: if_splits)
  moreover have "t = s" if "length (keys request) \<noteq> 1"
    using that run by (auto simp: GetHandler_def)
  ultimately show ?thesis
    using ok inv by (cases "keys request") (auto simp: server_inv_def)
qed

lemma inv_WatchRankStateHandler:
  assumes run: "WatchRankStateHandler c request s = Some (t, rs, r)" and "server_inv lookup s" and "idGen s \<noteq> - 1"
  shows "server_inv lookup t"
proof -
  have "no_handlers t \<and> no_stale_waiter lookup t"
    using assms by (auto simp: WatchRankStateHandler_def Let_def server_inv_def split: if_splits option.splits)
  with assms show ?thesis
    using waiters_ok_WatchRankStateHandler [OF run] by (simp add: server_inv_def)
qed

lemma inv_HeartbeatHandler:
  "HeartbeatHandler now c request s = Some (t, rs, r) \<Longrightarrow> server_inv lookup s \<Longrightarrow> server_inv lookup t"
  by (auto simp: HeartbeatHandler_def server_inv_def split: if_splits option.splits)

lemma inv_requestHandlers:
  assumes "requestHandlers m = Some h" and "h ops up now c request s = Some (t, rs, r)"
    and "server_inv lookup s" and "idGen s \<noteq> - 1" and "m \<noteq> WRITE"
  shows "server_inv lookup t"
  using assms
  by (cases m) (auto intro: inv_SetHandler inv_GetHandler inv_AddHandler inv_RemoveHandler inv_AppendHandler
      inv_CasHandler inv_WatchRankStateHandler inv_HeartbeatHandler)

lemma inv_LinkConnectedHandler:
  "LinkConnectedHandler ops conn l s = (t, r) \<Longrightarrow> server_inv lookup s \<Longrightarrow> server_inv lookup t"
  by (auto simp: LinkConnectedHandler_def Let_def case_prod_beta server_inv_def no_stale_put_ranking
      split: if_splits)

lemma inv_LinkBrokenHandler:
  assumes run: "LinkBrokenHandler ops l s = Some (t, r)" and inv: "server_inv lookup s"
  shows "server_inv lookup t"
proof -
  have nh: "externalBrokenHandler s = None"
    using inv by (simp add: server_inv_def no_handlers_def)
  have "no_handlers t \<and> no_stale_waiter lookup t"
    using run inv nh no_stale_delete
    by (auto simp: LinkBrokenHandler_def Let_def case_prod_beta server_inv_def no_stale_clear_data split: if_splits)
  with waiters_ok_LinkBrokenHandler [OF run] inv show ?thesis
    by (simp add: server_inv_def)
qed

lemma inv_break_links:
  "break_links ls s = Some t \<Longrightarrow> server_inv lookup s \<Longrightarrow> server_inv lookup t"
proof (induction ls arbitrary: s)
  case (Cons l ls)
  then show ?case
    by (auto simp: LinkBrokenHandler_id_def cpp_simps server_inv_def no_handlers_def [of s] dest!: Cons.IH)
qed simp

lemma inv_TimerThreadTask:
  assumes "TimerThreadTask up now s = Some (t, rs)" and "server_inv lookup s"
  shows "server_inv lookup t"
proof -
  have "no_stale_waiter lookup t"
    by (rule no_stale_mono [of lookup s])
      (use assms in \<open>auto simp: TimerThreadTask_eq Let_def GetOut_lookup server_inv_def split: if_splits\<close>)
  moreover have "no_handlers t"
    using assms by (auto simp: TimerThreadTask_eq Let_def no_handlers_def server_inv_def)
  ultimately show ?thesis
    using waiters_ok_TimerThreadTask [OF assms(1)] assms(2) by (simp add: server_inv_def)
qed

lemma inv_server_step:
  assumes "server_step ops s ev rs t" and "server_inv lookup s" and "\<not> is_write ev"
  shows "server_inv lookup t"
  using assms
proof (induction rule: server_step.induct)
  case (receive up now c data s t rs r)
  from receive(1) show ?case
    by (cases rule: ReceiveMessageHandler_cases)
      (use receive in \<open>auto simp: is_write_def intro: inv_requestHandlers\<close>)
next
  case (checker now s t)
  then show ?case
    by (auto simp: CheckerThreadTask_def Let_def server_inv_def dest!: inv_break_links)
next
  case (rank_state up s t rs)
  then show ?case
    by (auto simp: RankStateTask_def cpp_simps server_inv_def split: list.splits)
qed (auto intro: inv_LinkConnectedHandler inv_LinkBrokenHandler inv_TimerThreadTask)

lemma inv_server_run:
  "server_run ops s evs t \<Longrightarrow> server_inv lookup s \<Longrightarrow> (\<And>ev. ev \<in> set evs \<Longrightarrow> \<not> is_write ev) \<Longrightarrow>
     server_inv lookup t"
  by (induction rule: server_run.induct) (auto intro: inv_server_step)

end

section \<open>Waking up\<close>

lemma reply_established_total:
  "\<forall>c \<in> set cs. ctxLink c \<noteq> None \<Longrightarrow>
     reply_established up code payload cs =
       Some (map (\<lambda>c. (c, code, payload)) (filter (\<lambda>c. up (the (ctxLink c))) cs))"
  by (induction cs) auto

lemma take_key_waiters_linked:
  assumes "waiters_ok s"
  shows "\<forall>c \<in> set (fst (take_key_waiters k s)). ctxLink c \<noteq> None"
  using GetOut_contexts [OF waiters_okD(1) [OF assms]] waiters_okD(6) [OF assms]
  by (auto simp: take_key_waiters_simps split: option.splits)

lemma blocked_on_backend [simp]: "blocked_on k (s\<lparr>backend := b\<rparr>) = blocked_on k s"
  by (simp add: blocked_on_def)

definition woken_by :: "(link \<Rightarrow> bool) \<Rightarrow> bytes \<Rightarrow> ('b, 'x) AccStoreServer \<Rightarrow> bytes \<Rightarrow> reply list \<Rightarrow> bool" where
  "woken_by up k s v rs \<longleftrightarrow>
     (\<forall>w \<in> blocked_on k s. up (the (ctxLink w)) \<longrightarrow> (w, store_code SUCCESS, value_message GET v) \<in> set rs)"

lemma WakeupWaiters_taken:
  assumes "waiters_ok s"
  obtains woken where "WakeupWaiters up (fst (take_key_waiters k s)) v = Some woken" "woken_by up k s v woken"
proof
  let ?ws = "fst (take_key_waiters k s)"
  show "WakeupWaiters up ?ws v =
      Some (map (\<lambda>c. (c, store_code SUCCESS, value_message GET v)) (filter (\<lambda>c. up (the (ctxLink c))) ?ws))"
    unfolding WakeupWaiters_def by (rule reply_established_total [OF take_key_waiters_linked [OF assms]])
  show "woken_by up k s v (map (\<lambda>c. (c, store_code SUCCESS, value_message GET v)) (filter (\<lambda>c. up (the (ctxLink c))) ?ws))"
    using take_key_waiters_contexts [OF assms, of k] by (auto simp: woken_by_def)
qed

lemma woken_by_Cons: "woken_by up k s v rs \<Longrightarrow> woken_by up k s v (r # rs)"
  by (auto simp: woken_by_def)

context reliable_backend
begin

text \<open>What the four creating requests have in common: the key is stored and its waiters are answered.\<close>

lemma SetHandler_creates:
  assumes "waiters_ok s" and "no_handlers s" and "ctxLink c \<noteq> None" and "length k \<le> 2048"
    and "lookup (backend s) k = None" and "keys request = [k]" and "vals request = [v]"
  shows "\<exists>t woken. SetHandler ops up c request s = Some (t, (c, store_code SUCCESS, str ''success'') # woken, SM_OK) \<and>
    lookup (backend t) = (lookup (backend s))(k \<mapsto> v) \<and> blocked_on k t = {} \<and> woken_by up k s v woken"
  by (rule WakeupWaiters_taken [OF assms(1), of up k v])
    (use assms take_key_waiters_no_block [OF assms(1), of k] in
      \<open>auto simp: SetHandler_def Let_def case_prod_beta ExecuteHandle_none exist_success_iff put_lookup put_succeeds\<close>)

lemma SetHandler_overwrites:
  assumes "no_handlers s" and "ctxLink c \<noteq> None" and "length k \<le> 2048"
    and "lookup (backend s) k \<noteq> None" and "keys request = [k]" and "vals request = [v]"
  shows "SetHandler ops up c request s =
    Some (s\<lparr>backend := snd (be_put ops (backend s) k v 0)\<rparr>, [(c, store_code SUCCESS, str ''success'')], SM_OK)"
  using assms
  by (auto simp: SetHandler_def Let_def case_prod_beta ExecuteHandle_none exist_success_iff WakeupWaiters_def
      put_succeeds)

lemma AppendHandler_appends:
  assumes "waiters_ok s" and "no_handlers s" and "ctxLink c \<noteq> None" and "length k \<le> 2048"
    and "keys request = [k]" and "vals request = [v]"
  shows "\<exists>t woken. AppendHandler ops up c request s =
      Some (t, (c, store_code SUCCESS, to_string (int (length (case_option [] id (lookup (backend s) k) @ v)))) # woken, SM_OK) \<and>
    lookup (backend t) = (lookup (backend s))(k \<mapsto> case_option [] id (lookup (backend s) k) @ v) \<and>
    (lookup (backend s) k = None \<longrightarrow> blocked_on k t = {} \<and> woken_by up k s v woken)"
  by (rule WakeupWaiters_taken [OF assms(1), of up k v])
    (use assms take_key_waiters_no_block [OF assms(1), of k] in
      \<open>auto simp: AppendHandler_def Let_def case_prod_beta ExecuteHandle_none get_spec put_lookup put_succeeds
        WakeupWaiters_def split: option.splits\<close>)

lemma CasHandler_spec:
  assumes "waiters_ok s" and "length k \<le> 2048" and "keys request = [k]" and "vals request = [expected, exchange]"
  shows "\<exists>t woken. CasHandler ops up c request s =
      Some (t, (c, store_code SUCCESS, value_message (mt request) (case_option [] id (lookup (backend s) k))) # woken, SM_OK) \<and>
    lookup (backend t) = (if case_option [] id (lookup (backend s) k) = expected
      then (lookup (backend s))(k \<mapsto> exchange) else lookup (backend s)) \<and>
    (lookup (backend s) k = None \<longrightarrow> expected = [] \<longrightarrow> blocked_on k t = {} \<and> woken_by up k s exchange woken)"
proof -
  let ?s = "s\<lparr>backend := snd (be_put ops (backend s) k exchange 0)\<rparr>"
  have ok: "waiters_ok ?s"
    using assms(1) by simp
  show ?thesis
    by (rule WakeupWaiters_taken [OF ok, of up k exchange])
      (use assms take_key_waiters_no_block [OF ok, of k] in
        \<open>auto simp: CasHandler_def Let_def case_prod_beta get_spec put_lookup put_succeeds woken_by_def
          WakeupWaiters_def split: option.splits\<close>)
qed

end

end
