(* ===== verification/Store_Ranks.thy ===== *)
theory Store_Ranks
  imports Store_Waiters
begin

text \<open>
  Rank numbers and counters handed out by the configuration store server: the search for a free rank
  ends and returns a rank nobody holds, \<open>ADD\<close> keeps a decimal counter, \<open>WRITE\<close> patches a value at an
  offset.
\<close>

section \<open>The search for a free rank\<close>

lemma word_mod_less: "a < b \<Longrightarrow> a mod b = (a :: 'a::len word)"
  by (metis mod_less unat_mod_distrib unsigned_word_eqI word_less_nat_alt)

lemma find_free_rank_unfold:
  "find_free_rank world alive index =
     (if index mod world \<notin> set alive then Some (index mod world)
      else find_free_rank world alive (index mod world + 1))"
  by (subst find_free_rank.simps) (simp add: Let_def)

text \<open>The ranks the loop visits: \<open>j\<close> rounds after \<open>index\<close>.\<close>

lemma find_free_rank_rounds:
  assumes "0 < w" and "\<forall>i < j. of_nat ((x + i) mod w) \<in> set alive" and "world = of_nat w" and "w < 2 ^ 32"
    and "x < w"
  shows "find_free_rank world alive (of_nat x) = find_free_rank world alive (of_nat ((x + j) mod w) :: u32)"
  using assms
proof (induction j)
  case (Suc j)
  let ?i = "of_nat ((x + j) mod w) :: u32"
  have small: "(x + j) mod w < w"
    using Suc.prems(1) by simp
  then have m: "?i mod world = ?i"
    using Suc.prems(3,4) by (intro word_mod_less) (simp add: word_less_nat_alt unat_of_nat)
  have "?i + 1 = of_nat (Suc ((x + j) mod w))"
    by simp
  have "find_free_rank world alive (?i + 1) = find_free_rank world alive (of_nat ((x + Suc j) mod w))"
  proof (cases "Suc ((x + j) mod w) = w")
    case True
    then have "(x + Suc j) mod w = 0"
      by (metis add_Suc_right mod_Suc)
    moreover have "?i + 1 = world"
      using True Suc.prems(3) by (metis of_nat_Suc add.commute)
    ultimately show ?thesis
      by (simp add: find_free_rank_unfold [of world alive world] find_free_rank_unfold [of world alive 0])
  next
    case False
    then have "(x + Suc j) mod w = Suc ((x + j) mod w)"
      by (metis add_Suc_right mod_Suc)
    then show ?thesis
      by (simp add: add.commute)
  qed
  moreover have "find_free_rank world alive ?i = find_free_rank world alive (?i + 1)"
    using Suc.prems(2) m by (subst find_free_rank_unfold) simp
  ultimately show ?case
    using Suc by simp
qed simp

lemma find_free_rank_total:
  assumes "distinct alive" and "length alive < unat world"
  shows "\<exists>r. find_free_rank world alive index = Some r \<and> r < world \<and> r \<notin> set alive"
proof -
  let ?w = "unat world" and ?x = "unat (index mod world)"
  have w: "0 < ?w" "?w < 2 ^ 32" "world = of_nat ?w"
    using assms(2) unsigned_less [of world, where ?'a = nat] by auto
  have x: "?x < ?w"
    using w(1) by (simp add: unat_mod_distrib)
  have "\<exists>i < ?w. of_nat ((?x + i) mod ?w) \<notin> set alive"
  proof (rule ccontr)
    assume "\<not> (\<exists>i < ?w. of_nat ((?x + i) mod ?w) \<notin> set alive)"
    then have sub: "(\<lambda>i. of_nat ((?x + i) mod ?w) :: u32) ` {..<?w} \<subseteq> set alive"
      by auto
    have "inj_on (\<lambda>i. of_nat ((?x + i) mod ?w) :: u32) {..<?w}"
    proof (rule inj_onI)
      fix i j
      assume ij: "i \<in> {..<?w}" "j \<in> {..<?w}"
        and eq: "(of_nat ((?x + i) mod ?w) :: u32) = of_nat ((?x + j) mod ?w)"
      have lt: "(?x + k) mod ?w < 2 ^ 32" for k
        using mod_less_divisor [OF w(1), of "?x + k"] w(2) by linarith
      from eq have "unat (of_nat ((?x + i) mod ?w) :: u32) = unat (of_nat ((?x + j) mod ?w) :: u32)"
        by simp
      then have "(?x + i) mod ?w = (?x + j) mod ?w"
        using lt by (simp add: unat_of_nat)
      with ij x show "i = j"
        by (auto simp: mod_if split: if_splits)
    qed
    then have "?w \<le> card (set alive)"
      using card_mono [OF _ sub] by (simp add: card_image)
    with assms show False
      by (simp add: distinct_card)
  qed
  then obtain n where n: "n < ?w" "of_nat ((?x + n) mod ?w) \<notin> set alive"
    and before: "\<forall>i < n. of_nat ((?x + i) mod ?w) \<in> set alive"
    using exists_least_iff [of "\<lambda>i. i < ?w \<and> of_nat ((?x + i) mod ?w) \<notin> set alive"] by auto
  let ?r = "of_nat ((?x + n) mod ?w) :: u32"
  have r: "?r < world"
    using w mod_less_divisor [OF w(1), of "?x + n"] by (simp add: word_less_nat_alt unat_of_nat)
  have "index mod world mod world = index mod world"
    using x by (intro word_mod_less) (simp add: word_less_nat_alt)
  then have "find_free_rank world alive index = find_free_rank world alive (index mod world)"
    by (simp add: find_free_rank_unfold [of world alive index] find_free_rank_unfold [of world alive "index mod world"])
  also have "\<dots> = find_free_rank world alive ?r"
    using find_free_rank_rounds [OF w(1) before w(3,2) x] by simp
  also have "\<dots> = Some ?r"
    using r n(2) by (simp add: find_free_rank_unfold [of world alive ?r] word_mod_less)
  finally show ?thesis
    using r n(2) by blast
qed

section \<open>Patching a value\<close>

lemma length_overwrite_at: "length (overwrite_at offset new old) = max (length old) (offset + length new)"
  by (auto simp: overwrite_at_def Let_def)

lemma nth_overwrite_at:
  assumes "i < length (overwrite_at offset new old)"
  shows "overwrite_at offset new old ! i =
    (if offset \<le> i \<and> i < offset + length new then new ! (i - offset)
     else if i < length old then old ! i else 0)"
  using assms unfolding length_overwrite_at
  by (auto simp: overwrite_at_def Let_def nth_append min_def)

lemma overwrite_at_fresh: "overwrite_at offset new (replicate (offset + length new) 0) = overwrite_at offset new []"
  by (rule nth_equalityI) (auto simp: length_overwrite_at nth_overwrite_at)

context reliable_backend
begin

lemma FindOrInsertRank_fresh:
  assumes "ctxLink c = Some l" and "lookup (backend s) (keys request ! 0 @ to_string (uint l)) = None"
    and "distinct (aliveRankSet s)" and "length (aliveRankSet s) < unat (worldSize s)"
  shows "\<exists>t rank. FindOrInsertRank ops c request s =
      Some (t, [(c, store_code SUCCESS, value_message (mt request) (le_word rank))], 0) \<and>
    rank < worldSize s \<and> rank \<notin> set (aliveRankSet s) \<and>
    set (aliveRankSet t) = insert rank (set (aliveRankSet s)) \<and> distinct (aliveRankSet t) \<and>
    lookup (backend t) = (lookup (backend s))(keys request ! 0 @ to_string (uint l) \<mapsto> le_word rank)"
  using find_free_rank_total [OF assms(3,4), of "rankIndex s"] assms
  by (auto simp: FindOrInsertRank_def Let_def get_spec case_prod_beta put_succeeds put_lookup)

lemma AddHandler_adds:
  assumes "waiters_ok s" and "no_handlers s" and "ctxLink c \<noteq> None" and "length k \<le> 2048"
    and "keys request = [k]" and "vals request = [to_string n]" and "long_range n"
    and "lookup (backend s) k = map_option to_string old"
    and "\<forall>m. old = Some m \<longrightarrow> long_range m \<and> long_range (m + n)"
  shows "\<exists>t woken. AddHandler ops up c request s =
      Some (t, (c, store_code SUCCESS, to_string (case_option 0 id old + n)) # woken, SM_OK) \<and>
    lookup (backend t) = (lookup (backend s))(k \<mapsto> to_string (case_option 0 id old + n)) \<and>
    (old = None \<longrightarrow> blocked_on k t = {} \<and> woken_by up k s (to_string n) woken)"
proof -
  have s2i: "String2Int 64 (to_string m) = Some m" if "long_range m" for m
    using that by (intro String2Int_to_string) (simp_all add: long_range_def)
  have zero: "to_string 0 = str ''0''"
    by (simp add: to_string_def dec_digits.simps str_def)
  show ?thesis
    by (rule WakeupWaiters_taken [OF assms(1), of up k "to_string n"])
      (use assms take_key_waiters_no_block [OF assms(1), of k] in
        \<open>auto simp: AddHandler_def Let_def case_prod_beta ExecuteHandle_none get_spec put_lookup put_succeeds
          s2i zero split: option.splits\<close>)
qed

lemma WriteHandler_patches:
  assumes "no_handlers s" and "ctxLink c \<noteq> None" and "length k \<le> 2048"
    and "keys request = [k]" and "vals request = [le_encode 4 offset @ new]"
    and "offset < 2 ^ 32" and "offset \<le> 65535 * length new"
  shows "\<exists>t. WriteHandler ops c request s = Some (t, [(c, store_code SUCCESS, str ''success'')], SM_OK) \<and>
    lookup (backend t) =
      (lookup (backend s))(k \<mapsto> overwrite_at offset new (case_option [] id (lookup (backend s) k))) \<and>
    waitCtx t = waitCtx s"
proof -
  have "read_at 4 (le_encode 4 offset @ new) 0 = Some offset"
    using read_at_mid [of "[]" 0 offset 4 new] assms(6) by simp
  with assms show ?thesis
    by (auto simp: WriteHandler_def Let_def case_prod_beta ExecuteHandle_none get_spec put_lookup put_succeeds
        overwrite_at_fresh split: option.splits)
qed

end

end
