(* ===== verification/Store_Properties.thy ===== *)
theory Store_Properties
  imports Store_Ranks
begin

text \<open>
  What the configuration store server guarantees: the properties of its request handlers and
  background threads on the in-memory backend, and the cases in which they fall short.
\<close>

section \<open>Requests as packets\<close>

definition example_ctx :: ReqCtx where
  "example_ctx = \<lparr>seqNo = 7, ctxLink = Some 3\<rparr>"

definition example_server :: "(LocalBackend, unit) AccStoreServer" where
  "example_server = new_server 4 \<lparr>kvStore = []\<rparr> ()"

definition get_msg :: "bytes \<Rightarrow> u64 \<Rightarrow> SmemMessage" where
  "get_msg k timeout = (message GET)\<lparr>userDef := timeout, keys := [k]\<rparr>"

definition set_msg :: "MessageType \<Rightarrow> bytes \<Rightarrow> bytes \<Rightarrow> SmemMessage" where
  "set_msg type k v = (message type)\<lparr>keys := [k], vals := [v]\<rparr>"

text \<open>The server after a \<open>GET\<close> of the absent key \<open>''k''\<close> that may wait 100 ms.\<close>

definition waiting_server :: "(LocalBackend, unit) AccStoreServer" where
  "waiting_server = example_server\<lparr>idGen := 2,
     waitCtx := [(1, \<lparr>waitId = 1, timeoutMs = 150, waitKey = str ''k'', reqCtx = example_ctx\<rparr>)],
     keyWaiters := [(str ''k'', [1])], timedWaiters := [(150, [1])]\<rparr>"

text \<open>A backend whose \<open>Put\<close> always fails.\<close>

definition full_ops :: "LocalBackend backend_ops" where
  "full_ops = local_ops\<lparr>be_put := \<lambda>b k v ttl. (IO_ERROR, b)\<rparr>"

lemmas example_defs = example_server_def waiting_server_def example_ctx_def new_server_def get_msg_def
  set_msg_def message_def local_backend_defs Let_def no_handlers_def

lemma ReceiveMessageHandler_packed:
  assumes "wf_message m" and "requestHandlers (mt m) = Some h"
  shows "ReceiveMessageHandler ops up now c (Some (Pack m)) s = h ops up now c m s"
  using unpack_pack_prefix [OF assms(1), of "[]"] assms(2) by (simp add: ReceiveMessageHandler_def)

lemma wf_get_msg: "length k \<le> 2048 \<Longrightarrow> wf_message (get_msg k t)"
  by (simp add: wf_message_def get_msg_def message_def)

lemma wf_set_msg: "length k \<le> 2048 \<Longrightarrow> length v \<le> 1024 \<Longrightarrow> wf_message (set_msg m k v)"
  by (simp add: wf_message_def set_msg_def message_def)

lemma waiting_step:
  "server_step local_ops example_server (Received (Some (Pack (get_msg (str ''k'') 100)))) [] waiting_server"
proof (rule server_step.receive)
  have "ReceiveMessageHandler local_ops (\<lambda>_. True) 50 example_ctx (Some (Pack (get_msg (str ''k'') 100))) example_server =
      GetHandler local_ops 50 example_ctx (get_msg (str ''k'') 100) example_server"
    by (rule ReceiveMessageHandler_packed [THEN trans]) (simp_all add: wf_get_msg, simp_all add: get_msg_def message_def)
  also have "\<dots> = Some (waiting_server, [], SM_OK)"
    by (simp add: GetHandler_def example_defs ExecuteHandle_def str_def AutoRankingStr_def add_waiter_def
        add_timer_def um_emplace_def)
  finally show "ReceiveMessageHandler local_ops (\<lambda>_. True) 50 example_ctx (Some (Pack (get_msg (str ''k'') 100)))
    example_server = Some (waiting_server, [], SM_OK)" .
qed (simp add: example_defs)

lemma waiting_run:
  "server_run local_ops example_server [Received (Some (Pack (get_msg (str ''k'') 100)))] waiting_server"
  using server_run.step [OF server_run.start waiting_step] by simp

lemma is_write_packed: "wf_message m \<Longrightarrow> is_write (Received (Some (Pack m))) \<longleftrightarrow> mt m = WRITE"
  using unpack_pack_prefix [of m "[]"] by (simp add: is_write_def)

lemma waiting_blocked: "blocked_on (str ''k'') waiting_server = {example_ctx}"
  by (auto simp: blocked_on_def waiting_server_def)

section \<open>Blocked requests\<close>



text \<open>
  C1. A server on the in-memory backend, driven by any sequence of packets other than \<open>WRITE\<close>,
  connections, broken links and thread rounds, never leaves a request blocked on a key that exists.
\<close>

theorem server_no_lost_wakeup:
  assumes "server_run local_ops (new_server world b x) evs t"
    and "\<forall>ev \<in> set evs. \<not> is_write ev"
    and "blocked_on k t \<noteq> {}"
  shows "local_lookup (backend t) k = None"
proof -
  have "server_inv local_lookup t"
    using local.inv_server_run [OF assms(1) server_inv_new_server] assms(2) by blast
  with assms(3) show ?thesis
    by (auto simp: server_inv_def no_stale_waiter_def blocked_on_def)
qed

theorem server_no_lost_wakeup_witness:
  "blocked_on (str ''k'') waiting_server \<noteq> {} \<and> local_lookup (backend waiting_server) (str ''k'') = None"
proof -
  have "\<not> is_write (Received (Some (Pack (get_msg (str ''k'') 100))))"
    by (subst is_write_packed) (simp_all add: wf_get_msg, simp add: get_msg_def message_def)
  then show ?thesis
    using server_no_lost_wakeup [OF waiting_run [unfolded example_server_def], of "str ''k''"]
    by (simp add: waiting_blocked)
qed


section \<open>Requests on the in-memory backend\<close>

lemma waiting_ok: "waiters_ok waiting_server" "no_handlers waiting_server"
proof -
  show "waiters_ok waiting_server"
    using waiters_ok_server_run [OF waiting_run] by (simp add: example_server_def)
qed (simp add: example_defs)

lemma waiting_lookup: "local_lookup (backend waiting_server) = Map.empty"
  by (simp add: example_defs)

text \<open>
  C19. A \<open>SET\<close> of an absent key never fails or dereferences a null link: it stores the value, answers
  \<open>success\<close> first, leaves nobody blocked on the key and answers every request that was blocked on
  it, as far as its link is still established, with the value.
\<close>

theorem set_answers_waiters:
  assumes "waiters_ok s" and "no_handlers s" and "ctxLink c \<noteq> None" and "length k \<le> 2048"
    and "local_lookup (backend s) k = None"
  shows "\<exists>t woken. SetHandler local_ops up c (set_msg SET k v) s =
      Some (t, (c, store_code SUCCESS, str ''success'') # woken, SM_OK) \<and>
    local_lookup (backend t) = (local_lookup (backend s))(k \<mapsto> v) \<and> blocked_on k t = {} \<and>
    (\<forall>w \<in> blocked_on k s. up (the (ctxLink w)) \<longrightarrow> (w, store_code SUCCESS, value_message GET v) \<in> set woken)"
  using local.SetHandler_creates [OF assms, of "set_msg SET k v" v up]
  by (simp add: set_msg_def woken_by_def)

theorem set_answers_waiters_witness:
  "\<exists>t woken. SetHandler local_ops (\<lambda>_. True) example_ctx (set_msg SET (str ''k'') [5]) waiting_server =
      Some (t, (example_ctx, store_code SUCCESS, str ''success'') # woken, SM_OK) \<and>
    (example_ctx, store_code SUCCESS, value_message GET [5]) \<in> set woken"
  using set_answers_waiters [OF waiting_ok, of example_ctx "str ''k''" "\<lambda>_. True" "[5]"]
  by (auto simp: waiting_lookup waiting_blocked example_ctx_def)

text \<open>
  \<open>APPEND\<close> stores the old value followed by the new bytes, the empty value standing for an absent
  key, and answers with the new length in decimal; a request blocked on a key it creates is answered.
\<close>

theorem append_appends:
  assumes "waiters_ok s" and "no_handlers s" and "ctxLink c \<noteq> None" and "length k \<le> 2048"
  shows "\<exists>t woken. AppendHandler local_ops up c (set_msg APPEND k v) s =
      Some (t, (c, store_code SUCCESS,
        to_string (int (length (case_option [] id (local_lookup (backend s) k) @ v)))) # woken, SM_OK) \<and>
    local_lookup (backend t) = (local_lookup (backend s))(k \<mapsto> case_option [] id (local_lookup (backend s) k) @ v) \<and>
    (local_lookup (backend s) k = None \<longrightarrow> blocked_on k t = {} \<and> woken_by up k s v woken)"
  by (rule local.AppendHandler_appends [OF assms]) (simp_all add: set_msg_def)

theorem append_appends_witness:
  "\<exists>t woken. AppendHandler local_ops (\<lambda>_. True) example_ctx (set_msg APPEND (str ''k'') [5]) waiting_server =
      Some (t, (example_ctx, store_code SUCCESS, to_string 1) # woken, SM_OK) \<and> blocked_on (str ''k'') t = {}"
  using append_appends [OF waiting_ok, of example_ctx "str ''k''" "\<lambda>_. True" "[5]"]
  by (auto simp: waiting_lookup example_ctx_def)

text \<open>
  C20. \<open>CAS\<close> replaces the value exactly when the stored value, or the empty value for an absent key,
  equals the expected one; in either case it answers \<open>SUCCESS\<close> with the value found before.
\<close>

theorem cas_compares_and_swaps:
  assumes "waiters_ok s" and "length k \<le> 2048" and "keys request = [k]" and "vals request = [expected, exchange]"
  shows "\<exists>t woken. CasHandler local_ops up c request s =
      Some (t, (c, store_code SUCCESS,
        value_message (mt request) (case_option [] id (local_lookup (backend s) k))) # woken, SM_OK) \<and>
    local_lookup (backend t) = (if case_option [] id (local_lookup (backend s) k) = expected
      then (local_lookup (backend s))(k \<mapsto> exchange) else local_lookup (backend s)) \<and>
    (local_lookup (backend s) k = None \<longrightarrow> expected = [] \<longrightarrow> blocked_on k t = {} \<and> woken_by up k s exchange woken)"
  by (rule local.CasHandler_spec [OF assms])

theorem cas_compares_and_swaps_witness:
  "\<exists>t woken. CasHandler local_ops (\<lambda>_. True) example_ctx
      ((message CAS)\<lparr>keys := [str ''k''], vals := [[], [1]]\<rparr>) waiting_server =
      Some (t, (example_ctx, store_code SUCCESS, value_message CAS []) # woken, SM_OK) \<and>
    local_lookup (backend t) (str ''k'') = Some [1]"
  using cas_compares_and_swaps [OF waiting_ok(1), of "str ''k''" "(message CAS)\<lparr>keys := [str ''k''], vals := [[], [1]]\<rparr>"
      "[]" "[1]" "\<lambda>_. True" example_ctx]
  by (auto simp: waiting_lookup message_def)

text \<open>
  C21. \<open>ADD\<close> keeps a 64-bit decimal counter: with no value stored it starts from 0, otherwise it adds to
  the stored number, provided that the sum fits; the sum is stored and answered in decimal.
\<close>

theorem add_adds:
  assumes "waiters_ok s" and "no_handlers s" and "ctxLink c \<noteq> None" and "length k \<le> 2048" and "long_range n"
    and "local_lookup (backend s) k = map_option to_string old"
    and "\<forall>m. old = Some m \<longrightarrow> long_range m \<and> long_range (m + n)"
  shows "\<exists>t woken. AddHandler local_ops up c (set_msg ADD k (to_string n)) s =
      Some (t, (c, store_code SUCCESS, to_string (case_option 0 id old + n)) # woken, SM_OK) \<and>
    local_lookup (backend t) = (local_lookup (backend s))(k \<mapsto> to_string (case_option 0 id old + n)) \<and>
    (old = None \<longrightarrow> blocked_on k t = {} \<and> woken_by up k s (to_string n) woken)"
  by (rule local.AddHandler_adds [OF assms(1-4) _ _ assms(5-7)]) (simp_all add: set_msg_def)

theorem add_adds_witness:
  "\<exists>t woken. AddHandler local_ops (\<lambda>_. True) example_ctx (set_msg ADD (str ''n'') (to_string 8))
      (waiting_server\<lparr>backend := \<lparr>kvStore = [(str ''n'', to_string 34)]\<rparr>\<rparr>) =
      Some (t, (example_ctx, store_code SUCCESS, to_string 42) # woken, SM_OK)"
  using add_adds [of "waiting_server\<lparr>backend := \<lparr>kvStore = [(str ''n'', to_string 34)]\<rparr>\<rparr>" example_ctx "str ''n''" 8
      "Some 34" "\<lambda>_. True"] waiting_ok
  by (auto simp: local_lookup_def example_ctx_def long_range_def)

text \<open>
  C22. \<open>WRITE\<close> patches the stored value: bytes from the given offset on become the new ones, the value
  is extended with zeros up to there if it is shorter, and all other bytes stay.
\<close>

theorem write_patches:
  assumes "no_handlers s" and "ctxLink c \<noteq> None" and "length k \<le> 2048" and "offset < 2 ^ 32"
    and "offset \<le> 65535 * length new" and "old = case_option [] id (local_lookup (backend s) k)"
  shows "\<exists>t v. WriteHandler local_ops c (set_msg WRITE k (le_encode 4 offset @ new)) s =
      Some (t, [(c, store_code SUCCESS, str ''success'')], SM_OK) \<and>
    local_lookup (backend t) = (local_lookup (backend s))(k \<mapsto> v) \<and>
    length v = max (length old) (offset + length new) \<and>
    (\<forall>i < length v. v ! i = (if offset \<le> i \<and> i < offset + length new then new ! (i - offset)
       else if i < length old then old ! i else 0))"
proof -
  obtain t where "WriteHandler local_ops c (set_msg WRITE k (le_encode 4 offset @ new)) s =
      Some (t, [(c, store_code SUCCESS, str ''success'')], SM_OK)"
    and "local_lookup (backend t) = (local_lookup (backend s))(k \<mapsto> overwrite_at offset new old)"
    using local.WriteHandler_patches [OF assms(1-3) _ _ assms(4,5), of "set_msg WRITE k (le_encode 4 offset @ new)"] assms(6)
    by (auto simp: set_msg_def)
  then show ?thesis
    by (intro exI [of _ t] exI [of _ "overwrite_at offset new old"]) (simp add: length_overwrite_at nth_overwrite_at)
qed

theorem write_patches_witness:
  "\<exists>t v. WriteHandler local_ops example_ctx (set_msg WRITE (str ''k'') (le_encode 4 3 @ [7])) waiting_server =
      Some (t, [(example_ctx, store_code SUCCESS, str ''success'')], SM_OK) \<and>
    local_lookup (backend t) (str ''k'') = Some v \<and> length v = 4 \<and> v ! 3 = 7 \<and> v ! 0 = 0"
  using write_patches [OF waiting_ok(2), of example_ctx "str ''k''" 3 "[7]" "[]"]
  by (auto simp: waiting_lookup example_ctx_def)

text \<open>
  C9. Automatic ranking: as long as fewer ranks are alive than the world has, a link without a rank is
  given one. The search ends, and the rank is below the world size, held by nobody else, marked alive
  and stored under the link's key.
\<close>

theorem ranking_fresh:
  assumes "ctxLink c = Some l" and "local_lookup (backend s) (k @ to_string (uint l)) = None"
    and "distinct (aliveRankSet s)" and "length (aliveRankSet s) < unat (worldSize s)"
  shows "\<exists>t rank. FindOrInsertRank local_ops c (get_msg k timeout) s =
      Some (t, [(c, store_code SUCCESS, value_message GET (le_word rank))], 0) \<and>
    rank < worldSize s \<and> rank \<notin> set (aliveRankSet s) \<and>
    set (aliveRankSet t) = insert rank (set (aliveRankSet s)) \<and> distinct (aliveRankSet t) \<and>
    local_lookup (backend t) = (local_lookup (backend s))(k @ to_string (uint l) \<mapsto> le_word rank)"
  using local.FindOrInsertRank_fresh [OF assms(1) _ assms(3,4), of "get_msg k timeout"] assms(2)
  by (simp add: get_msg_def message_def)

theorem ranking_fresh_witness:
  "\<exists>t (rank :: u32). FindOrInsertRank local_ops example_ctx (get_msg AutoRankingStr 0) (example_server\<lparr>aliveRankSet := [0, 1]\<rparr>) =
      Some (t, [(example_ctx, store_code SUCCESS, value_message GET (le_word rank))], 0) \<and> rank < 4 \<and> rank \<notin> {0, 1}"
proof -
  let ?s = "example_server\<lparr>aliveRankSet := [0, 1]\<rparr>"
  have "ctxLink example_ctx = Some 3" "local_lookup (backend ?s) (AutoRankingStr @ to_string (uint (3 :: link))) = None"
    "distinct (aliveRankSet ?s)" "length (aliveRankSet ?s) < unat (worldSize ?s)"
    by (simp_all add: example_defs)
  from ranking_fresh [OF this, of 0] show ?thesis
    by (simp add: example_server_def new_server_def) blast
qed

section \<open>Where the server falls short\<close>

text \<open>
  \<open>ADD\<close> to a stored number reports success whatever \<open>Put\<close> returned: its result is kept in a
  variable that hides the one the reply is built from.
\<close>

theorem add_hides_put_failure:
  assumes "no_handlers s" and "ctxLink c \<noteq> None" and "length k \<le> 2048" and "long_range n" and "long_range m"
    and "long_range (m + n)" and "be_get ops (backend s) k [] = (SUCCESS, to_string m)"
    and "be_put ops (backend s) k (to_string (m + n)) 0 = (e, b)"
  shows "AddHandler ops up c (set_msg ADD k (to_string n)) s =
    Some (s\<lparr>backend := b\<rparr>, [(c, store_code SUCCESS, to_string (m + n))], SM_OK)"
proof -
  have s2i: "String2Int 64 (to_string i) = Some i" if "long_range i" for i
    using that by (intro String2Int_to_string) (simp_all add: long_range_def)
  have zero: "to_string 0 = str ''0''"
    by (simp add: to_string_def dec_digits.simps str_def)
  show ?thesis
    using assms by (auto simp: AddHandler_def set_msg_def Let_def ExecuteHandle_none s2i zero)
qed

theorem add_hides_put_failure_witness:
  "AddHandler full_ops (\<lambda>_. True) example_ctx (set_msg ADD (str ''n'') (to_string 1))
      (waiting_server\<lparr>backend := \<lparr>kvStore = [(str ''n'', to_string 4)]\<rparr>\<rparr>) =
     Some (waiting_server\<lparr>backend := \<lparr>kvStore = [(str ''n'', to_string 4)]\<rparr>\<rparr>,
       [(example_ctx, store_code SUCCESS, to_string 5)], SM_OK)"
  using add_hides_put_failure [of "waiting_server\<lparr>backend := \<lparr>kvStore = [(str ''n'', to_string 4)]\<rparr>\<rparr>" example_ctx
      "str ''n''" 1 4 full_ops IO_ERROR "\<lparr>kvStore = [(str ''n'', to_string 4)]\<rparr>" "\<lambda>_. True"] waiting_ok
  by (simp add: full_ops_def local_backend_defs example_ctx_def long_range_def)

text \<open>
  A \<open>WRITE\<close> value of fewer than four bytes makes the server read outside the value: the
  offset is taken from its first four bytes before the length is looked at.
\<close>

theorem write_short_value_reads_outside:
  assumes "length k \<le> 2048" and "length v < 4"
  shows "WriteHandler ops c (set_msg WRITE k v) s = None"
  using assms by (simp add: WriteHandler_def set_msg_def Let_def read_at_def)

theorem write_short_value_reads_outside_witness:
  "WriteHandler local_ops example_ctx (set_msg WRITE (str ''k'') [1, 2]) waiting_server = None"
  by (rule write_short_value_reads_outside) simp_all

text \<open>
  The timer thread stops at the first entry of the hash map that is not due, and a hash map has no
  order: a request whose time is over stays blocked when another entry comes first.
\<close>

theorem timer_misses_due_request:
  "\<exists>s t :: (LocalBackend, unit) AccStoreServer.
     waiters_ok s \<and> TimerThreadTask (\<lambda>_. True) 200 s = Some (t, []) \<and>
     (\<exists>i w. map_of (waitCtx t) i = Some w \<and> timeoutMs w \<le> 200 \<and> map_of (timedWaiters t) (timeoutMs w) = Some [i])"
proof -
  let ?w = "\<lambda>i t. \<lparr>waitId = i, timeoutMs = t, waitKey = str ''k'', reqCtx = example_ctx\<rparr>"
  let ?s = "example_server\<lparr>idGen := 3, waitCtx := [(2, ?w 2 900), (1, ?w 1 150)],
    keyWaiters := [(str ''k'', [2, 1])], timedWaiters := [(900, [2]), (150, [1])]\<rparr>"
  have "waiters_ok ?s"
    by (auto simp: waiters_ok_def example_ctx_def split: if_splits)
  moreover have "TimerThreadTask (\<lambda>_. True) 200 ?s = Some (?s, [])"
    by (simp add: TimerThreadTask_def)
  moreover have "map_of (waitCtx ?s) 1 = Some (?w 1 150) \<and> timeoutMs (?w 1 150) \<le> 200 \<and>
      map_of (timedWaiters ?s) (timeoutMs (?w 1 150)) = Some [1]"
    by simp
  ultimately show ?thesis
    by blast
qed

text \<open>
  When a link breaks, the value stored under its ranking key is copied into a four byte variable
  whatever its size. A client can store a longer value there with an ordinary \<open>SET\<close>.
\<close>

theorem broken_link_overflow:
  assumes "waiters_ok s" and "no_handlers s" and "ctxLink c \<noteq> None"
    and "local_lookup (backend s) (AutoRankingStr @ to_string (uint l)) = None" and "4 < length v"
  shows "\<exists>t rs. SetHandler local_ops up c (set_msg SET (AutoRankingStr @ to_string (uint l)) v) s = Some (t, rs, SM_OK) \<and>
    LinkBrokenHandler local_ops l t = None"
proof -
  have "length (AutoRankingStr @ to_string (uint l)) \<le> 2048"
    using length_to_string_uint [of l] by (simp add: AutoRankingStr_def)
  from local.SetHandler_creates [OF assms(1-3) this assms(4), of "set_msg SET (AutoRankingStr @ to_string (uint l)) v" v up]
  obtain t rs where "SetHandler local_ops up c (set_msg SET (AutoRankingStr @ to_string (uint l)) v) s = Some (t, rs, SM_OK)"
    and "local_lookup (backend t) (AutoRankingStr @ to_string (uint l)) = Some v"
    by (auto simp: set_msg_def)
  with assms(5) show ?thesis
    by (auto simp: LinkBrokenHandler_def Let_def local.get_spec)
qed

theorem broken_link_overflow_witness:
  "\<exists>t rs. SetHandler local_ops (\<lambda>_. True) example_ctx
       (set_msg SET (AutoRankingStr @ to_string (uint (3 :: link))) [1, 2, 3, 4, 5]) waiting_server = Some (t, rs, SM_OK) \<and>
     LinkBrokenHandler local_ops 3 t = None"
  using broken_link_overflow [OF waiting_ok, of example_ctx 3 "[1, 2, 3, 4, 5]" "\<lambda>_. True"]
  by (simp add: waiting_lookup example_ctx_def)

end
