(* ===== verification/Store_Client_Properties.thy ===== *)
theory Store_Client_Properties
  imports Store_Client Store_Properties
begin

text \<open>
  The client of the configuration store: a response reaches the call that waits for it, what goes
  wrong when sending fails, and the client against the server - the operations of \<open>TcpConfigStore\<close>
  over an exchange in which the modelled server answers.
\<close>

section \<open>The client against the server\<close>

text \<open>
  The blocking exchange with a server: the request is handled and the first reply to this request is
  the response. Where the server does not answer the call blocks, which is no value.
\<close>

definition server_exchange ::
    "'b backend_ops \<Rightarrow> (link \<Rightarrow> bool) \<Rightarrow> int \<Rightarrow> ReqCtx \<Rightarrow> ('b, 'x) AccStoreServer exchange" where
  "server_exchange ops up now c body s = do {
     (s, replies, _) \<leftarrow> ReceiveMessageHandler ops up now c (Some body) s;
     (_, code, payload) \<leftarrow> List.find (\<lambda>(c', _). c' = c) replies;
     Some (Some \<lparr>rspResult = code, rspData = Some payload\<rparr>, s)
   }"

text \<open>Transports for examples: one on which every send succeeds, one on which none does.\<close>

definition good_link :: "unit link_ops" where
  "good_link = \<lparr>NonBlockSend = \<lambda>l seq d. (0, l), ConnectToPeerServer = \<lambda>l req retry. (0, l)\<rparr>"

definition full_link :: "unit link_ops" where
  "full_link = \<lparr>NonBlockSend = \<lambda>l seq d. (- 1, l), ConnectToPeerServer = \<lambda>l req retry. (0, l)\<rparr>"

definition example_client :: "unit TcpConfigStore" where
  "example_client = \<lparr>accClient = True, accClientLink = True, net = (), msgClientContext = [], reqSeqGen = 5,
     rankId = 2, storeWorldSize = 4, isConnect = True, frames = [], finished = [], reconnects = 0\<rparr>"

section \<open>Delivery of responses\<close>

lemma SetFailedFinish_frames: "SetFailedFinish seq ctx s = Some (ns, t) \<Longrightarrow> frames t = frames s"
  by (auto simp: SetFailedFinish_def split: ClientContext.splits if_splits)

lemma fail_contexts_dangling:
  "(seq, ClientWaitContext) \<in> set ctxs \<Longrightarrow> seq \<notin> set (frames s) \<Longrightarrow> fail_contexts ctxs s = None"
proof (induction ctxs arbitrary: s)
  case (Cons e ctxs)
  obtain n ctx where e: "e = (n, ctx)"
    by (cases e)
  show ?case
  proof (cases "SetFailedFinish n ctx s")
    case (Some r)
    obtain ns t where r: "r = (ns, t)"
      by (cases r)
    with Some Cons.prems e have "(seq, ClientWaitContext) \<in> set ctxs"
      by (auto simp: SetFailedFinish_def)
    moreover have "seq \<notin> set (frames t)"
      using SetFailedFinish_frames [OF Some [unfolded r]] Cons.prems(2) by simp
    ultimately show ?thesis
      using Cons.IH Some r e by simp
  qed (simp add: e)
qed simp

lemma LocalNonBlockSend_frame:
  "LocalNonBlockSend lops seq d s = Some (r, t) \<Longrightarrow>
     msgClientContext t = msgClientContext s \<and> frames t = frames s \<and> finished t = finished s \<and> reqSeqGen t = reqSeqGen s"
  by (auto simp: LocalNonBlockSend_def ReConnectAfterBroken_def Let_def cpp_simps case_prod_beta split: if_splits)

text \<open>
  C27. A response that carries the sequence number of a waiting call finishes that call, and only
  once: the call returns this response and its context is gone from the table.
\<close>

theorem response_reaches_caller:
  assumes "SendMessageBlocked lops body s = Some (Some seq, t)"
    and "um_ok (msgClientContext s)" and "map_of (msgClientContext s) (reqSeqGen s) = None"
  shows "seq = reqSeqGen s \<and> (\<exists>u v. ReceiveResponseHandler seq response t = Some (SM_OK, [], u) \<and>
    WaitFinished seq u = Some (Some response, v) \<and> map_of (msgClientContext v) = map_of (msgClientContext s) \<and>
    ReceiveResponseHandler seq response v = Some (SM_ERROR, [], v))"
  using assms
  by (auto simp: SendMessageBlocked_def Let_def cpp_simps ReceiveResponseHandler_def SetFinished_def OnlyOneTime_def
      WaitFinished_def map_of_um_emplace fun_eq_iff dest!: LocalNonBlockSend_frame split: if_splits)

theorem response_reaches_caller_witness:
  "\<exists>t u v. SendMessageBlocked good_link [1] example_client = Some (Some 5, t) \<and>
     ReceiveResponseHandler 5 \<lparr>rspResult = 0, rspData = None\<rparr> t = Some (SM_OK, [], u) \<and>
     WaitFinished 5 u = Some (Some \<lparr>rspResult = 0, rspData = None\<rparr>, v)"
proof -
  let ?t = "example_client\<lparr>reqSeqGen := 6, msgClientContext := [(5, ClientWaitContext)], frames := [5]\<rparr>"
  have sent: "SendMessageBlocked good_link [1] example_client = Some (Some 5, ?t)"
    by (simp add: SendMessageBlocked_def LocalNonBlockSend_def good_link_def example_client_def um_emplace_def us_insert_def)
  have "um_ok (msgClientContext example_client)" "map_of (msgClientContext example_client) (reqSeqGen example_client) = None"
    by (simp_all add: example_client_def)
  from response_reaches_caller [OF sent this, of "\<lparr>rspResult = 0, rspData = None\<rparr>"] sent show ?thesis
    by blast
qed

text \<open>
  When sending fails, \<open>SendMessageBlocked\<close> returns and leaves its context in the table, although the
  context refers to the frame that just ended. The next broken link uses it: undefined behaviour.
\<close>

theorem failed_send_leaves_dangling_context:
  assumes "SendMessageBlocked lops body s = Some (None, t)" and "accClientLink s"
    and "map_of (msgClientContext s) (reqSeqGen s) = None" and "reqSeqGen s \<notin> set (frames s)"
  shows "ClientLinkBroken t = None"
proof -
  from assms have "msgClientContext t = (reqSeqGen s, ClientWaitContext) # msgClientContext s" "frames t = frames s"
    by (auto simp: SendMessageBlocked_def Let_def cpp_simps um_emplace_def dest!: LocalNonBlockSend_frame split: if_splits)
  then show ?thesis
    using assms(4) unfolding ClientLinkBroken_def by (intro fail_contexts_dangling) auto
qed

theorem failed_send_leaves_dangling_context_witness:
  "\<exists>t. SendMessageBlocked full_link [1] example_client = Some (None, t) \<and> ClientLinkBroken t = None"
proof -
  let ?t = "example_client\<lparr>reqSeqGen := 6, msgClientContext := [(5, ClientWaitContext)]\<rparr>"
  have sent: "SendMessageBlocked full_link [1] example_client = Some (None, ?t)"
    by (simp add: SendMessageBlocked_def LocalNonBlockSend_def full_link_def example_client_def um_emplace_def)
  have "ClientLinkBroken ?t = None"
    by (rule failed_send_leaves_dangling_context [OF sent]) (simp_all add: example_client_def)
  with sent show ?thesis
    by blast
qed

section \<open>Requests and their answers\<close>

lemma server_exchange_packed:
  assumes "wf_message m" and "requestHandlers (mt m) = Some h"
    and "h ops up now c m s = Some (t, (c, code, payload) # rs, r)"
  shows "server_exchange ops up now c (Pack m) s = Some (Some \<lparr>rspResult = code, rspData = Some payload\<rparr>, t)"
  using assms by (simp add: server_exchange_def ReceiveMessageHandler_packed)

lemma response_value_message:
  assumes "length v \<le> 67108864"
  shows "response_value \<lparr>rspResult = code, rspData = Some (value_message type v)\<rparr> = Some (Inr v)"
proof -
  have "wf_message ((message type)\<lparr>vals := [v]\<rparr>)"
    using assms by (simp add: wf_message_def message_def)
  from unpack_pack_prefix [OF this, of "[]"] show ?thesis
    by (simp add: response_value_def value_message_def)
qed

lemma wf_request:
  "length k \<le> 1024 \<Longrightarrow> length v \<le> 67108864 \<Longrightarrow> wf_message ((message type)\<lparr>keys := [k], vals := [v]\<rparr>)"
  "length k \<le> 1024 \<Longrightarrow> wf_message ((message type)\<lparr>keys := [k], userDef := t\<rparr>)"
  "length k \<le> 1024 \<Longrightarrow> wf_message ((message type)\<lparr>keys := [k]\<rparr>)"
  by (simp_all add: wf_message_def message_def)

lemma Set_server:
  assumes "waiters_ok s" and "no_handlers s" and "ctxLink c \<noteq> None" and "k \<noteq> []" and "length k \<le> 1024"
    and "length v \<le> 67108864"
  shows "\<exists>t. Set (server_exchange local_ops up now c) k v s = Some (0, t) \<and>
    local_lookup (backend t) = (local_lookup (backend s))(k \<mapsto> v)"
proof -
  let ?m = "(message SET)\<lparr>keys := [k], vals := [v]\<rparr>"
  have k: "length k \<le> 2048"
    using assms(5) by simp
  have m: "mt ?m = SET" "keys ?m = [k]" "vals ?m = [v]"
    by (simp_all add: message_def)
  obtain t rs where run: "SetHandler local_ops up c ?m s = Some (t, (c, store_code SUCCESS, str ''success'') # rs, SM_OK)"
    and post: "local_lookup (backend t) = (local_lookup (backend s))(k \<mapsto> v)"
  proof (cases "local_lookup (backend s) k")
    case None
    with local.SetHandler_creates [OF assms(1-3) k None m(2,3), of up] that show ?thesis
      by blast
  next
    case (Some old)
    with local.SetHandler_overwrites [OF assms(2,3) k _ m(2,3), of up] that show ?thesis
      by (simp add: local.put_lookup)
  qed
  have "server_exchange local_ops up now c (Pack ?m) s =
      Some (Some \<lparr>rspResult = store_code SUCCESS, rspData = Some (str ''success'')\<rparr>, t)"
    by (rule server_exchange_packed [OF wf_request(1) [OF assms(5,6)]]) (simp add: m, use run in simp)
  with assms(4,5) post show ?thesis
    by (simp add: Set_def request_reply_def)
qed

lemma GetReal_server:
  assumes "local_lookup (backend s) k = Some v" and "k \<noteq> []" and "length k \<le> 1024"
    and "take (length AutoRankingStr) k \<noteq> AutoRankingStr" and "length v \<le> 67108864"
  shows "GetReal (server_exchange local_ops up now c) k out timeout s = Some (0, v, s)"
proof -
  let ?m = "(message GET)\<lparr>keys := [k], userDef := timeout\<rparr>"
  have m: "mt ?m = GET" "keys ?m = [k]" "vals ?m = []"
    by (simp_all add: message_def)
  have "server_exchange local_ops up now c (Pack ?m) s =
      Some (Some \<lparr>rspResult = store_code SUCCESS, rspData = Some (value_message GET v)\<rparr>, s)"
    by (rule server_exchange_packed [OF wf_request(2) [OF assms(3)]])
      (simp add: m, use assms m in \<open>simp add: GetHandler_def local.get_spec Let_def\<close>)
  with assms(2,3) response_value_message [OF assms(5), of 0 GET] show ?thesis
    by (simp add: GetReal_def request_reply_def)
qed

text \<open>
  C28. Client and server together: after a successful \<open>Set\<close>, \<open>Get\<close> by any client returns the value that
  was set, for keys and values within the client's and the packer's limits that are not ranking keys.
\<close>

theorem set_then_get:
  assumes "waiters_ok s" and "no_handlers s" and "ctxLink c \<noteq> None" and "k \<noteq> []" and "length k \<le> 1024"
    and "length v \<le> 67108864" and "take (length AutoRankingStr) k \<noteq> AutoRankingStr"
  shows "\<exists>t. Set (server_exchange local_ops up now c) k v s = Some (0, t) \<and>
    GetReal (server_exchange local_ops up' now' c') k out timeout t = Some (0, v, t)"
proof -
  obtain t where "Set (server_exchange local_ops up now c) k v s = Some (0, t)" and "local_lookup (backend t) k = Some v"
    using Set_server [OF assms(1-6), of up now] by auto
  with GetReal_server [OF this(2) assms(4,5,7,6)] show ?thesis
    by blast
qed

theorem set_then_get_witness:
  "\<exists>t. Set (server_exchange local_ops (\<lambda>_. True) 60 example_ctx) (str ''k'') [1, 2] waiting_server = Some (0, t) \<and>
    GetReal (server_exchange local_ops (\<lambda>_. True) 70 example_ctx) (str ''k'') [] 0 t = Some (0, [1, 2], t)"
  by (rule set_then_get [OF waiting_ok]) (simp_all add: example_ctx_def AutoRankingStr_def str_def)



lemma conn_word:
  "ucast (drop_bit 32 (or (push_bit 32 (ucast (w :: u32))) (ucast (r :: u32)) :: u64)) = w"
  "ucast (or (push_bit 32 (ucast (w :: u32))) (ucast (r :: u32)) :: u64) = r"
  by (rule bit_word_eqI; auto simp: bit_simps dest: bit_imp_le_length)+

lemma of_int_ucast: "0 \<le> i \<Longrightarrow> i < 2 ^ 32 \<Longrightarrow> (of_int i :: u64) = ucast (of_int i :: u32)"
  by (rule word_uint_eqI) (simp add: unsigned_ucast_eq uint_word_of_int take_bit_eq_mod)

lemma conn_rank_id_fields:
  assumes "rank < 2 ^ 31"
  shows "ucast (drop_bit 32 (conn_rank_id rank world)) = world"
    and "(ucast (conn_rank_id rank world) :: u32) = (if 0 \<le> rank then of_int rank else - 1)"
proof -
  have neg: "(4294967295 :: u64) = ucast (- 1 :: u32)"
    by code_simp
  show "ucast (drop_bit 32 (conn_rank_id rank world)) = world"
    unfolding conn_rank_id_def using assms conn_word(1) [of world] by (simp add: of_int_ucast neg)
  show "(ucast (conn_rank_id rank world) :: u32) = (if 0 \<le> rank then of_int rank else - 1)"
    unfolding conn_rank_id_def using assms conn_word(2) [of world] by (simp add: of_int_ucast neg)
qed

text \<open>
  The connection request carries the world size and the rank in one number: the server recovers
  both, and a client without a rank, which sends all ones, is not registered as alive.
\<close>

theorem connection_carries_rank:
  assumes "rank < 2 ^ 31" and "worldSize s = 4294967295" and "world \<noteq> 4294967295"
    and "LinkConnectedHandler local_ops (conn_rank_id rank world) l s = (t, r)"
  shows "r = SM_OK \<and> worldSize t = world \<and>
    set (aliveRankSet t) = (if 0 \<le> rank then insert (of_int rank) (set (aliveRankSet s)) else set (aliveRankSet s)) \<and>
    (0 \<le> rank \<longrightarrow> local_lookup (backend t) (AutoRankingStr @ to_string (uint l)) = Some (le_word (of_int rank :: u32)))"
proof -
  note rw = conn_rank_id_fields [OF assms(1), of world]
  show ?thesis
  proof (cases "0 \<le> rank")
    case True
    have "(of_int rank :: u32) < 4294967295"
      using True assms(1) by (simp add: word_less_alt uint_word_of_int)
    with True assms(2-4) rw show ?thesis
      by (auto simp: LinkConnectedHandler_def Let_def local_backend_defs not_le split: if_splits)
  next
    case False
    have "\<not> (- 1 :: u32) < 4294967295"
      by code_simp
    with False assms(2-4) rw show ?thesis
      by (auto simp: LinkConnectedHandler_def Let_def not_le split: if_splits)
  qed
qed

theorem connection_carries_rank_witness:
  "\<exists>t. LinkConnectedHandler local_ops (conn_rank_id 2 8) 5 (new_server 4294967295 \<lparr>kvStore = []\<rparr> ()) = (t, SM_OK) \<and>
     worldSize t = 8 \<and> set (aliveRankSet t) = {2}"
proof -
  obtain t r where run: "LinkConnectedHandler local_ops (conn_rank_id 2 8) 5 (new_server 4294967295 \<lparr>kvStore = []\<rparr> ()) = (t, r)"
    by fastforce
  have "worldSize (new_server 4294967295 \<lparr>kvStore = []\<rparr> ()) = 4294967295"
    by (simp add: new_server_def)
  from connection_carries_rank [OF _ this _ run] run show ?thesis
    by (auto simp: new_server_def)
qed

end
