(* ===== verification/Range_Pool.thy ===== *)
theory Range_Pool
  imports Containers "HOL-Library.Multiset"
begin

text \<open>
  The memory pool \<open>RbtreeRangePool\<close> (\<^verbatim>\<open>src/hybm/csrc/common/hybm_rbtree_range_pool.h/.cpp\<close>) behind
  the interface \<open>SpaceAllocator\<close> (\<^verbatim>\<open>hybm_space_allocator.h\<close>). Offsets, sizes and addresses are 64-bit
  words; the address tree is an ordered map and the size tree an ordered set (theory \<open>Containers\<close>).

  The invariant says that the free ranges and the ranges handed out tile the pool: every byte belongs
  to exactly one of them. The spin lock makes every operation one step.
\<close>

section \<open>Space ranges\<close>

datatype SpaceRange = SpaceRange (offset: u64) (rsize: u64)

text \<open>\<open>RangeSizeFirst\<close>: by size, then by offset.\<close>

definition RangeSizeFirst :: "SpaceRange \<Rightarrow> SpaceRange \<Rightarrow> bool" where
  "RangeSizeFirst sr1 sr2 =
     (if rsize sr1 \<noteq> rsize sr2 then rsize sr1 < rsize sr2 else offset sr1 < offset sr2)"

instantiation SpaceRange :: linorder
begin

definition less_SpaceRange :: "SpaceRange \<Rightarrow> SpaceRange \<Rightarrow> bool" where
  "less_SpaceRange = RangeSizeFirst"

definition less_eq_SpaceRange :: "SpaceRange \<Rightarrow> SpaceRange \<Rightarrow> bool" where
  "less_eq_SpaceRange a b \<longleftrightarrow> a = b \<or> RangeSizeFirst a b"

instance
  by standard
    (auto simp: less_SpaceRange_def less_eq_SpaceRange_def RangeSizeFirst_def SpaceRange.expand split: if_splits)

end

section \<open>The pool\<close>

record RbtreeRangePool =
  baseAddress :: u64
  totalSize :: u64
  addressTree :: "(u64 \<times> u64) list"
  sizeTree :: "SpaceRange list"

text \<open>An \<open>AllocatedElement\<close>: its address and size. The default element is \<open>(0, 0)\<close>.\<close>

type_synonym AllocatedElement = "u64 \<times> u64"

definition new_pool :: "u64 \<Rightarrow> u64 \<Rightarrow> RbtreeRangePool" where
  "new_pool address tot = \<lparr>baseAddress = address, totalSize = tot, addressTree = [(0, tot)],
     sizeTree = [SpaceRange 0 tot]\<rparr>"

definition AllocateSizeAlignUp :: "u64 \<Rightarrow> u64" where
  "AllocateSizeAlignUp inputSize = and (inputSize + 4096 - 1) (not (4096 - 1))"

definition CanAllocate :: "u64 \<Rightarrow> RbtreeRangePool \<Rightarrow> bool" where
  "CanAllocate n p = (os_lower_bound (SpaceRange 0 (AllocateSizeAlignUp n)) (sizeTree p) \<noteq> None)"

definition Allocate :: "u64 \<Rightarrow> RbtreeRangePool \<Rightarrow> AllocatedElement option \<times> RbtreeRangePool" where
  "Allocate n p =
     (let alignedSize = AllocateSizeAlignUp n in
      case os_lower_bound (SpaceRange 0 alignedSize) (sizeTree p) of
        None \<Rightarrow> (None, p)
      | Some sizePos \<Rightarrow>
          if baseAddress p = 0 then (None, p)
          else
            let targetOffset = offset sizePos; targetSize = rsize sizePos in
            case map_of (addressTree p) targetOffset of
              None \<Rightarrow> (None, p)
            | Some _ \<Rightarrow>
                let sizes = os_erase sizePos (sizeTree p);
                    addrs = om_erase targetOffset (addressTree p);
                    (sizes, addrs) =
                      (if targetSize > alignedSize then
                         let left = SpaceRange (targetOffset + alignedSize) (targetSize - alignedSize)
                         in (os_insert left sizes, om_emplace (offset left) (rsize left) addrs)
                       else (sizes, addrs))
                in (Some (baseAddress p + targetOffset, n), p\<lparr>sizeTree := sizes, addressTree := addrs\<rparr>))"

text \<open>The two merges of \<open>Release\<close>: with the range before and with the range behind.\<close>

definition merge_prev ::
    "u64 \<Rightarrow> u64 \<Rightarrow> RbtreeRangePool \<Rightarrow> u64 \<times> u64 \<times> RbtreeRangePool" where
  "merge_prev off n p =
     (case om_before off (addressTree p) of
        Some (po, pn) \<Rightarrow>
          if po + pn = off then
            (po, n + pn, p\<lparr>sizeTree := os_erase (SpaceRange po pn) (sizeTree p), addressTree := om_erase po (addressTree p)\<rparr>)
          else (off, n, p)
      | None \<Rightarrow> (off, n, p))"

definition merge_next ::
    "u64 \<Rightarrow> u64 \<Rightarrow> RbtreeRangePool \<Rightarrow> u64 \<times> RbtreeRangePool" where
  "merge_next next finalSize p =
     (case map_of (addressTree p) next of
        Some nn \<Rightarrow>
          (finalSize + nn, p\<lparr>sizeTree := os_erase (SpaceRange next nn) (sizeTree p), addressTree := om_erase next (addressTree p)\<rparr>)
      | None \<Rightarrow> (finalSize, p))"

definition Release :: "AllocatedElement \<Rightarrow> RbtreeRangePool \<Rightarrow> bool \<times> RbtreeRangePool" where
  "Release element p =
     (let (elemAddr, esize) = element; alignedSize = AllocateSizeAlignUp esize in
      if baseAddress p = 0 \<or> elemAddr = 0 then (False, p)
      else if elemAddr < baseAddress p \<or> elemAddr \<ge> baseAddress p + totalSize p then (False, p)
      else
        let off = elemAddr - baseAddress p;
            (finalOffset, finalSize, p) = merge_prev off alignedSize p;
            (finalSize, p) = merge_next (off + alignedSize) finalSize p
        in (True, p\<lparr>addressTree := om_emplace finalOffset finalSize (addressTree p),
                   sizeTree := os_insert (SpaceRange finalOffset finalSize) (sizeTree p)\<rparr>))"

section \<open>Clients of an allocator\<close>

text \<open>
  The life of the elements of a pool: a client allocates, and elements are destroyed, which releases
  them, in any order. \<open>Free i\<close> destroys the \<open>i\<close>-th element that is alive.
\<close>

datatype 'n alloc_cmd = Alloc 'n | Free nat

fun run_cmds ::
    "('n \<Rightarrow> 's \<Rightarrow> 'e option \<times> 's) \<Rightarrow> ('e \<Rightarrow> 's \<Rightarrow> bool \<times> 's) \<Rightarrow> 'n alloc_cmd list \<Rightarrow> 's \<times> 'e list \<Rightarrow> 's \<times> 'e list" where
  "run_cmds alloc rel [] (s, live) = (s, live)"
| "run_cmds alloc rel (Alloc n # cmds) (s, live) =
     (case alloc n s of
        (Some e, s') \<Rightarrow> run_cmds alloc rel cmds (s', e # live)
      | (None, s') \<Rightarrow> run_cmds alloc rel cmds (s', live))"
| "run_cmds alloc rel (Free i # cmds) (s, live) =
     (if i < length live then run_cmds alloc rel cmds (snd (rel (live ! i) s), remove1 (live ! i) live)
      else run_cmds alloc rel cmds (s, live))"

text \<open>What \<open>SpaceAllocator\<close> promises: the ranges of the elements that are alive do not overlap.\<close>

locale space_allocator =
  fixes alloc :: "'n \<Rightarrow> 's \<Rightarrow> 'e option \<times> 's"
    and rel :: "'e \<Rightarrow> 's \<Rightarrow> bool \<times> 's"
    and valid :: "'n \<Rightarrow> bool"
    and inv :: "'s \<Rightarrow> 'e list \<Rightarrow> bool"
    and region :: "'e \<Rightarrow> nat \<times> nat"
  assumes alloc_some: "inv s live \<Longrightarrow> valid n \<Longrightarrow> alloc n s = (Some e, s') \<Longrightarrow> inv s' (e # live)"
    and alloc_none: "alloc n s = (None, s') \<Longrightarrow> s' = s"
    and rel_live: "inv s live \<Longrightarrow> e \<in> set live \<Longrightarrow> fst (rel e s) \<and> inv (snd (rel e s)) (remove1 e live)"
    and inv_apart: "inv s live \<Longrightarrow> i < j \<Longrightarrow> j < length live \<Longrightarrow>
      fst (region (live ! i)) + snd (region (live ! i)) \<le> fst (region (live ! j)) \<or>
      fst (region (live ! j)) + snd (region (live ! j)) \<le> fst (region (live ! i))"
begin

lemma run_inv:
  assumes "inv s live" and "\<forall>n. Alloc n \<in> set cmds \<longrightarrow> valid n" and "run_cmds alloc rel cmds (s, live) = (s', live')"
  shows "inv s' live'"
  using assms
proof (induction cmds arbitrary: s live)
  case (Cons cmd cmds)
  show ?case
  proof (cases cmd)
    case (Alloc n)
    obtain r t where r: "alloc n s = (r, t)"
      by (cases "alloc n s")
    show ?thesis
    proof (cases r)
      case None
      with r alloc_none [of n s t] Cons Alloc show ?thesis
        by auto
    next
      case (Some e)
      with r alloc_some [of s live n e t] Cons.prems Alloc have "inv t (e # live)"
        by simp
      with r Some Cons Alloc show ?thesis
        by auto
    qed
  next
    case (Free i)
    with Cons rel_live [of s live "live ! i"] show ?thesis
      by (auto split: if_splits)
  qed
qed simp

end

section \<open>Tilings\<close>

text \<open>How many ranges of a multiset contain the byte \<open>x\<close>; a tiling contains every byte once.\<close>

definition cover :: "nat \<Rightarrow> (nat \<times> nat) multiset \<Rightarrow> nat" where
  "cover x M = size (filter_mset (\<lambda>(o', n). o' \<le> x \<and> x < o' + n) M)"

definition tiles :: "nat \<Rightarrow> (nat \<times> nat) multiset \<Rightarrow> bool" where
  "tiles tot M \<longleftrightarrow>
     (\<forall>r \<in># M. 0 < snd r) \<and> (\<forall>x. cover x M = (if x < tot then 1 else 0))"

text \<open>No free range ends where another begins.\<close>

definition coalesced :: "(nat \<times> nat) set \<Rightarrow> bool" where
  "coalesced F \<longleftrightarrow> (\<forall>a \<in> F. \<forall>b \<in> F. fst a + snd a \<noteq> fst b)"

lemma cover_add [simp]: "cover x (add_mset r M) = (if fst r \<le> x \<and> x < fst r + snd r then 1 else 0) + cover x M"
  by (cases r) (auto simp: cover_def)

lemma cover_empty [simp]: "cover x {#} = 0"
  by (simp add: cover_def)

lemma tiles_split:
  assumes "0 < n" and "0 < m"
  shows "tiles t (add_mset (o', n + m) M) \<longleftrightarrow> tiles t (add_mset (o', n) (add_mset (o' + n, m) M))"
proof -
  have "cover x (add_mset (o', n + m) M) = cover x (add_mset (o', n) (add_mset (o' + n, m) M))" for x
    by auto
  with assms show ?thesis
    by (simp add: tiles_def del: cover_add)
qed

lemma tiles_bound: "tiles t (add_mset (o', n) M) \<Longrightarrow> 0 < n \<and> o' + n \<le> t"
proof -
  assume t: "tiles t (add_mset (o', n) M)"
  then have "0 < n" and "cover (o' + n - 1) (add_mset (o', n) M) = (if o' + n - 1 < t then 1 else 0)"
    by (auto simp: tiles_def simp del: cover_add)
  then show ?thesis
    by (auto split: if_splits)
qed

lemma tiles_disjoint:
  assumes "tiles t (add_mset (a, n) (add_mset (b, m) M))"
  shows "a + n \<le> b \<or> b + m \<le> a"
proof (rule ccontr)
  assume no: "\<not> ?thesis"
  have pos: "0 < n" "0 < m"
    using assms by (auto simp: tiles_def)
  let ?x = "max a b"
  have "cover ?x (add_mset (a, n) (add_mset (b, m) M)) \<le> 1"
    using assms unfolding tiles_def by (metis (no_types) order_refl zero_le_one)
  with no pos show False
    by (auto simp: max_def split: if_splits)
qed

lemma tiles_covered: "tiles t M \<Longrightarrow> x < t \<Longrightarrow> \<exists>a n. (a, n) \<in># M \<and> a \<le> x \<and> x < a + n"
proof -
  assume "tiles t M" and "x < t"
  then have "cover x M = 1"
    by (simp add: tiles_def)
  then have "filter_mset (\<lambda>(o', n). o' \<le> x \<and> x < o' + n) M \<noteq> {#}"
    unfolding cover_def by (metis size_empty zero_neq_one)
  then obtain r where "r \<in># filter_mset (\<lambda>(o', n). o' \<le> x \<and> x < o' + n) M"
    by (meson multiset_nonemptyE)
  then show ?thesis
    by (cases r) auto
qed

text \<open>Two members of a tiling are apart unless they are the same member.\<close>

lemma tiles_apart:
  assumes "tiles t M" and "(a, n) \<in># M" and "(b, m) \<in># M" and "(a, n) \<noteq> (b, m)"
  shows "a + n \<le> b \<or> b + m \<le> a"
proof -
  obtain M' where "M = add_mset (a, n) M'"
    using assms(2) by (metis multi_member_split)
  moreover from this assms(3,4) obtain M'' where "M' = add_mset (b, m) M''"
    by (metis insert_noteq_member multi_member_split)
  ultimately show ?thesis
    using assms(1) tiles_disjoint by blast
qed

lemma tiles_single:
  assumes "tiles t M" and "0 < t" and "coalesced (set_mset M)"
  shows "M = {#(0, t)#}"
proof -
  obtain a n where an: "(a, n) \<in># M" "a \<le> 0"
    using tiles_covered [OF assms(1,2)] by auto
  obtain M' where M: "M = add_mset (0, n) M'"
    using an by (metis le_zero_eq multi_member_split)
  have n: "0 < n" "n \<le> t"
    using tiles_bound assms(1) M by fastforce+
  have "n = t"
  proof (rule ccontr)
    assume "n \<noteq> t"
    with n obtain b m where b: "(b, m) \<in># M" "b \<le> n" "n < b + m"
      using tiles_covered [OF assms(1), of n] by auto
    have "(b, m) \<noteq> (0, n)"
      using b(3) by auto
    with tiles_apart [OF assms(1), of 0 n b m] b an n have "b = n"
      by (auto simp: M)
    with b(1) assms(3) show False
      unfolding coalesced_def M by force
  qed
  moreover have "M' = {#}"
  proof (rule ccontr)
    assume "M' \<noteq> {#}"
    then obtain b m M'' where "M' = add_mset (b, m) M''"
      by (metis multiset_cases surj_pair)
    with assms(1) M \<open>n = t\<close> tiles_disjoint [of t 0 t b m M''] tiles_bound [of t b m "add_mset (0, t) M''"] show False
      by (auto simp: add_mset_commute)
  qed
  ultimately show ?thesis
    using M by simp
qed

lemma tiles_member_apart:
  "tiles t (add_mset (a, n) M) \<Longrightarrow> (b, m) \<in># M \<Longrightarrow> (a + n \<le> b \<or> b + m \<le> a) \<and> 0 < m"
  by (metis (no_types) add_mset_commute multi_member_split tiles_bound tiles_disjoint)

lemma coalesced_subset: "coalesced F \<Longrightarrow> G \<subseteq> F \<Longrightarrow> coalesced G"
  by (auto simp: coalesced_def)

text \<open>Cutting the front off a free range keeps the free ranges apart.\<close>

lemma coalesced_insert:
  "coalesced (insert r F) \<longleftrightarrow> coalesced F \<and> 0 < snd r \<and> (\<forall>f \<in> F. fst r + snd r \<noteq> fst f \<and> fst f + snd f \<noteq> fst r)"
  unfolding coalesced_def by auto

lemma coalesced_shrink:
  assumes "tiles t (add_mset (a, n + m) M)" and "F \<subseteq> set_mset M" and "coalesced (insert (a, n + m) F)"
    and "0 < n" and "0 < m"
  shows "coalesced (insert (a + n, m) F)"
proof -
  have "fst f + snd f \<noteq> a + n" if "f \<in> F" for f
    using tiles_member_apart [OF assms(1), of "fst f" "snd f"] that assms(2,4,5) by auto
  with assms(3,5) show ?thesis
    by (simp add: coalesced_insert add.assoc)
qed

section \<open>The invariant\<close>

definition free_of :: "u64 \<times> u64 \<Rightarrow> nat \<times> nat" where
  "free_of r = (unat (fst r), unat (snd r))"

definition free_ranges :: "RbtreeRangePool \<Rightarrow> (nat \<times> nat) multiset" where
  "free_ranges p = image_mset free_of (mset (addressTree p))"

text \<open>The range an element occupies.\<close>

definition elem_of :: "u64 \<Rightarrow> AllocatedElement \<Rightarrow> nat \<times> nat" where
  "elem_of base e = (unat (fst e - base), unat (AllocateSizeAlignUp (snd e)))"

definition tree_ok :: "RbtreeRangePool \<Rightarrow> bool" where
  "tree_ok p \<longleftrightarrow> om_ok (addressTree p) \<and> os_ok (sizeTree p) \<and>
     set (sizeTree p) = (\<lambda>(a, n). SpaceRange a n) ` set (addressTree p)"

definition pool_inv :: "RbtreeRangePool \<Rightarrow> AllocatedElement list \<Rightarrow> bool" where
  "pool_inv p live \<longleftrightarrow> tree_ok p \<and> baseAddress p \<noteq> 0 \<and>
     unat (baseAddress p) + unat (totalSize p) < 2 ^ 64 \<and>
     (\<forall>e \<in> set live. baseAddress p \<le> fst e) \<and>
     tiles (unat (totalSize p)) (free_ranges p + image_mset (elem_of (baseAddress p)) (mset live)) \<and>
     coalesced (set_mset (free_ranges p))"

lemma mset_om_set: "map_of m k = None \<Longrightarrow> mset (om_set k v m) = add_mset (k, v) (mset m)"
  by (induction m) (auto split: if_splits)

lemma mset_om_erase:
  "om_ok m \<Longrightarrow> map_of m k = Some v \<Longrightarrow> mset m = add_mset (k, v) (mset (om_erase k m))"
proof (induction m)
  case (Cons e m)
  obtain x y where e: "e = (x, y)"
    by (cases e)
  show ?case
  proof (cases "x = k")
    case True
    then have "om_erase k m = m"
      using Cons.prems(1) e by (auto simp: om_erase_def filter_id_conv)
    with True Cons.prems(2) e show ?thesis
      by (simp add: om_erase_def)
  next
    case False
    with Cons e show ?thesis
      by (simp add: om_erase_def)
  qed
qed simp

lemma tree_ok_remove:
  assumes "tree_ok p" and "map_of (addressTree p) k = Some v"
    and "q = p\<lparr>sizeTree := os_erase (SpaceRange k v) (sizeTree p), addressTree := om_erase k (addressTree p)\<rparr>"
  shows "tree_ok q" and "free_ranges p = add_mset (unat k, unat v) (free_ranges q)"
proof -
  have ok: "om_ok (addressTree p)"
    using assms(1) by (simp add: tree_ok_def)
  have uniq: "n = v" if "(k, n) \<in> set (addressTree p)" for n
    using that assms(2) om_mem_iff [OF ok, of k n] by simp
  have "(\<lambda>(a, n). SpaceRange a n) ` set (addressTree p) - {SpaceRange k v} =
      (\<lambda>(a, n). SpaceRange a n) ` {e \<in> set (addressTree p). fst e \<noteq> k}"
    by (auto simp: image_iff dest: uniq)
  with assms show "tree_ok q"
    by (simp add: tree_ok_def om_ok_om_erase os_ok_erase)
  show "free_ranges p = add_mset (unat k, unat v) (free_ranges q)"
    using mset_om_erase [OF ok assms(2)] by (simp add: free_ranges_def assms(3) free_of_def)
qed

lemma tree_ok_insert:
  assumes "tree_ok p" and "map_of (addressTree p) k = None"
    and "q = p\<lparr>sizeTree := os_insert (SpaceRange k v) (sizeTree p), addressTree := om_emplace k v (addressTree p)\<rparr>"
  shows "tree_ok q" and "free_ranges q = add_mset (unat k, unat v) (free_ranges p)"
proof -
  have "set (om_set k v (addressTree p)) = insert (k, v) (set (addressTree p))"
    using mset_om_set [OF assms(2), of v] by (metis set_mset_add_mset_insert set_mset_mset)
  with assms show "tree_ok q"
    by (auto simp: tree_ok_def om_emplace_def om_ok_om_set os_ok_insert)
  show "free_ranges q = add_mset (unat k, unat v) (free_ranges p)"
    using mset_om_set [OF assms(2)] assms(2) by (simp add: free_ranges_def assms(3) om_emplace_def free_of_def)
qed

lemma free_range_mem: "map_of (addressTree p) k = Some v \<Longrightarrow> (unat k, unat v) \<in># free_ranges p"
  by (force simp: free_ranges_def free_of_def dest: map_of_SomeD)

text \<open>A byte range that is not free has no entry at its start.\<close>

lemma key_absent:
  assumes "tiles t (add_mset (a, n) M)" and "free_ranges p \<subseteq># M" and "a \<le> unat k" and "unat k < a + n"
  shows "map_of (addressTree p) k = None"
proof (cases "map_of (addressTree p) k")
  case (Some v)
  from free_range_mem [OF this] assms(2) have "(unat k, unat v) \<in># M"
    by (rule mset_subset_eqD [rotated])
  from tiles_member_apart [OF assms(1) this] assms(3,4) show ?thesis
    by linarith
qed

lemma unat_sum: "unat (a :: u64) + unat b \<le> unat (c :: u64) \<Longrightarrow> unat (a + b) = unat a + unat b"
  using unsigned_less [of c, where ?'a = nat] by (simp add: unat_plus_if')

lemma range_le_iff: "SpaceRange 0 n \<le> SpaceRange k m \<longleftrightarrow> n \<le> m"
  unfolding less_eq_SpaceRange_def RangeSizeFirst_def
  by (cases "n = m"; cases "k = 0") (simp_all add: word_gt_0 le_less)

lemma Allocate_SomeE:
  assumes "tree_ok p" and "Allocate n p = (Some e, q)"
  obtains k m where "map_of (addressTree p) k = Some m" "AllocateSizeAlignUp n \<le> m" "e = (baseAddress p + k, n)"
    "\<forall>k' m'. map_of (addressTree p) k' = Some m' \<longrightarrow> AllocateSizeAlignUp n \<le> m' \<longrightarrow> m \<le> m'"
    "q = (let r = p\<lparr>sizeTree := os_erase (SpaceRange k m) (sizeTree p), addressTree := om_erase k (addressTree p)\<rparr>
          in if AllocateSizeAlignUp n < m then
               r\<lparr>sizeTree := os_insert (SpaceRange (k + AllocateSizeAlignUp n) (m - AllocateSizeAlignUp n)) (sizeTree r),
                 addressTree := om_emplace (k + AllocateSizeAlignUp n) (m - AllocateSizeAlignUp n) (addressTree r)\<rparr>
             else r)"
proof -
  let ?al = "AllocateSizeAlignUp n"
  have ok: "om_ok (addressTree p)" "os_ok (sizeTree p)"
    "set (sizeTree p) = (\<lambda>(a, n). SpaceRange a n) ` set (addressTree p)"
    using assms(1) by (auto simp: tree_ok_def)
  from assms(2) obtain k m where lb: "os_lower_bound (SpaceRange 0 ?al) (sizeTree p) = Some (SpaceRange k m)"
    by (auto simp: Allocate_def Let_def split: option.splits) (metis SpaceRange.exhaust_sel)
  note lbD = os_lower_bound_SomeD [OF ok(2) lb]
  have mem: "map_of (addressTree p) k = Some m" and al: "?al \<le> m"
    using lbD(1,2) ok(3) om_mem_iff [OF ok(1)] by (auto simp: range_le_iff)
  have best: "m \<le> m'" if "map_of (addressTree p) k' = Some m'" "?al \<le> m'" for k' m'
  proof -
    have "SpaceRange k' m' \<in> set (sizeTree p)"
      using that(1) om_mem_iff [OF ok(1)] ok(3) by force
    with lbD(3) that(2) have "SpaceRange k m \<le> SpaceRange k' m'"
      by (auto simp: range_le_iff)
    then show ?thesis
      by (auto simp: less_eq_SpaceRange_def RangeSizeFirst_def split: if_splits)
  qed
  show thesis
    by (rule that [OF mem al _ _])
      (use assms(2) lb mem best in \<open>auto simp: Allocate_def Let_def split: if_splits\<close>)
qed

lemma pool_inv_Allocate:
  assumes inv: "pool_inv p live" and run: "Allocate n p = (Some e, q)" and al0: "0 < unat (AllocateSizeAlignUp n)"
  shows "pool_inv q (e # live)"
proof -
  let ?al = "AllocateSizeAlignUp n" and ?T = "unat (totalSize p)"
  let ?L = "image_mset (elem_of (baseAddress p)) (mset live)"
  have tok: "tree_ok p" and tl: "tiles ?T (free_ranges p + ?L)" and co: "coalesced (set_mset (free_ranges p))"
    and base: "baseAddress p \<noteq> 0" "unat (baseAddress p) + ?T < 2 ^ 64" "\<forall>e \<in> set live. baseAddress p \<le> fst e"
    using inv by (auto simp: pool_inv_def)
  from tok run obtain k m where km: "map_of (addressTree p) k = Some m" "?al \<le> m" "e = (baseAddress p + k, n)"
    and q: "q = (let r = p\<lparr>sizeTree := os_erase (SpaceRange k m) (sizeTree p), addressTree := om_erase k (addressTree p)\<rparr>
          in if ?al < m then
               r\<lparr>sizeTree := os_insert (SpaceRange (k + ?al) (m - ?al)) (sizeTree r),
                 addressTree := om_emplace (k + ?al) (m - ?al) (addressTree r)\<rparr>
             else r)"
    by (rule Allocate_SomeE)
  define r where "r = p\<lparr>sizeTree := os_erase (SpaceRange k m) (sizeTree p), addressTree := om_erase k (addressTree p)\<rparr>"
  note rm = tree_ok_remove [OF tok km(1) r_def]
  have tk: "tiles ?T (add_mset (unat k, unat m) (free_ranges r + ?L))"
    using tl by (simp add: rm(2))
  have bound: "unat k + unat m \<le> ?T" "0 < unat m"
    using tiles_bound [OF tk] by auto
  have le: "unat ?al \<le> unat m"
    using km(2) by (simp add: word_le_nat_alt)
  have sum: "unat (k + ?al) = unat k + unat ?al" "unat (m - ?al) = unat m - unat ?al"
    using unat_sum [of k ?al "totalSize p"] bound le km(2) by (simp_all add: unat_sub)
  have "unat (baseAddress p + k) = unat (baseAddress p) + unat k"
    using base(2) bound by (intro unat_add_lem [THEN iffD1]) simp
  then have addr: "baseAddress p \<le> baseAddress p + k"
    by (simp add: word_le_nat_alt)
  have el: "elem_of (baseAddress p) e = (unat k, unat ?al)"
    by (simp add: elem_of_def km(3))
  have fin: "pool_inv q (e # live)" if "tree_ok q" "baseAddress q = baseAddress p" "totalSize q = totalSize p"
    "tiles ?T (add_mset (unat k, unat ?al) (free_ranges q + ?L))" "coalesced (set_mset (free_ranges q))"
    using that base addr el by (simp add: pool_inv_def km(3) add_mset_commute)
  show ?thesis
  proof (cases "?al < m")
    case True
    then have lt: "0 < unat m - unat ?al"
      by (simp add: word_less_nat_alt)
    have split: "unat m = unat ?al + (unat m - unat ?al)"
      using le by simp
    have absent: "map_of (addressTree r) (k + ?al) = None"
      by (rule key_absent [OF tk]) (use sum lt al0 in auto)
    have qr: "q = r\<lparr>sizeTree := os_insert (SpaceRange (k + ?al) (m - ?al)) (sizeTree r),
        addressTree := om_emplace (k + ?al) (m - ?al) (addressTree r)\<rparr>"
      using q True by (simp add: r_def Let_def)
    note ins = tree_ok_insert [OF rm(1) absent qr]
    have "tiles ?T (add_mset (unat k, unat ?al) (free_ranges q + ?L))"
      using tk tiles_split [OF al0 lt, of ?T "unat k" "free_ranges r + ?L"] split by (simp add: ins(2) sum)
    moreover have "coalesced (set_mset (free_ranges q))"
      using coalesced_shrink [of ?T "unat k" "unat ?al" "unat m - unat ?al" "free_ranges r + ?L" "set_mset (free_ranges r)"]
        tk co al0 lt split by (simp add: ins(2) sum rm(2))
    ultimately show ?thesis
      using fin ins(1) by (simp add: qr r_def)
  next
    case False
    with km(2) have "m = ?al"
      by simp
    moreover have "q = r"
      using q False by (simp add: r_def Let_def)
    ultimately show ?thesis
      using fin rm tk co coalesced_subset [OF co] by (auto simp: r_def)
  qed
qed

section \<open>Releasing\<close>

text \<open>
  Between the steps of \<open>Release\<close>: the trees agree and, with the range \<open>(a, n)\<close> that is being given
  back and the ranges \<open>L\<close> still handed out, they tile the pool.
\<close>

definition giving_back :: "RbtreeRangePool \<Rightarrow> u64 \<Rightarrow> u64 \<Rightarrow> (nat \<times> nat) multiset \<Rightarrow> bool" where
  "giving_back p a n L \<longleftrightarrow> tree_ok p \<and> tiles (unat (totalSize p)) (add_mset (unat a, unat n) (free_ranges p + L)) \<and>
     coalesced (set_mset (free_ranges p))"

lemma tiles_mem_bound: "tiles t M \<Longrightarrow> (b, m) \<in># M \<Longrightarrow> 0 < m \<and> b + m \<le> t"
  by (metis multi_member_split tiles_bound)

lemma free_rangesE:
  assumes "tree_ok p" and "r \<in># free_ranges p"
  obtains k v where "map_of (addressTree p) k = Some v" "r = (unat k, unat v)"
proof -
  from assms(2) obtain k v where "(k, v) \<in> set (addressTree p)" and "r = (unat k, unat v)"
    by (auto simp: free_ranges_def free_of_def)
  with assms(1) om_mem_iff [of "addressTree p" k v] that show thesis
    by (simp add: tree_ok_def)
qed

lemma giving_back_free:
  assumes "giving_back p a n L" and "map_of (addressTree p) k = Some v"
  shows "unat a + unat n \<le> unat k \<or> unat k + unat v \<le> unat a" and "0 < unat v"
    and "unat k + unat v \<le> unat (totalSize p)" and "unat (k + v) = unat k + unat v"
proof -
  have tl: "tiles (unat (totalSize p)) (add_mset (unat a, unat n) (free_ranges p + L))"
    using assms(1) by (simp add: giving_back_def)
  have mem: "(unat k, unat v) \<in># free_ranges p + L"
    using free_range_mem [OF assms(2)] by simp
  from tiles_member_apart [OF tl mem] show "unat a + unat n \<le> unat k \<or> unat k + unat v \<le> unat a" "0 < unat v"
    by auto
  from tiles_mem_bound [OF tl, of "unat k" "unat v"] mem show "unat k + unat v \<le> unat (totalSize p)"
    by simp
  then show "unat (k + v) = unat k + unat v"
    by (rule unat_sum)
qed

lemma giving_back_range:
  assumes "giving_back p a n L"
  shows "0 < unat n" and "unat a + unat n \<le> unat (totalSize p)" and "unat (a + n) = unat a + unat n"
  using tiles_bound [of "unat (totalSize p)" "unat a" "unat n"] assms unat_sum [of a n "totalSize p"]
  by (auto simp: giving_back_def)

text \<open>The range that ends where the returned one begins is the entry before it.\<close>

lemma om_before_adjacent:
  assumes gb: "giving_back p a n L" and k: "map_of (addressTree p) k = Some v" and adj: "unat k + unat v = unat a"
  shows "om_before a (addressTree p) = Some (k, v)"
proof -
  have om: "om_ok (addressTree p)" and tl: "tiles (unat (totalSize p)) (add_mset (unat a, unat n) (free_ranges p + L))"
    using gb by (simp_all add: giving_back_def tree_ok_def)
  have mem: "(k, v) \<in> set (addressTree p)" "k < a"
    using om_mem_iff [OF om] k adj giving_back_free(2) [OF gb k] by (auto simp: word_less_nat_alt)
  then obtain k' v' where f: "om_before a (addressTree p) = Some (k', v')"
    using om_before_NoneD [of a "addressTree p"] by (cases "om_before a (addressTree p)") auto
  note fD = om_before_SomeD [OF om f]
  have m': "map_of (addressTree p) k' = Some v'" "unat k' < unat a" "unat k \<le> unat k'"
    using fD(1,2) bspec [OF fD(3) mem(1)] mem(2) om_mem_iff [OF om] by (simp_all add: word_less_nat_alt word_le_nat_alt)
  have "k' = k"
  proof (rule ccontr)
    assume "k' \<noteq> k"
    then have ne: "(unat k, unat v) \<noteq> (unat k', unat v')"
      by (metis Pair_inject unsigned_word_eqI)
    from tiles_apart [OF tl _ _ ne] have "unat k + unat v \<le> unat k' \<or> unat k' + unat v' \<le> unat k"
      using free_range_mem [OF k] free_range_mem [OF m'(1)] by simp
    with adj m' giving_back_free(2) [OF gb m'(1)] show False
      by linarith
  qed
  with m'(1) k f show ?thesis
    by simp
qed

lemma giving_back_absorb:
  assumes gb: "giving_back p a n L" and k: "map_of (addressTree p) k = Some v"
    and q: "q = p\<lparr>sizeTree := os_erase (SpaceRange k v) (sizeTree p), addressTree := om_erase k (addressTree p)\<rparr>"
  shows "k + v = a \<Longrightarrow> giving_back q k (n + v) L" and "a + n = k \<Longrightarrow> giving_back q a (n + v) L"
    and "free_ranges p = add_mset (unat k, unat v) (free_ranges q)"
proof -
  have tok: "tree_ok p" and tl: "tiles (unat (totalSize p)) (add_mset (unat a, unat n) (free_ranges p + L))"
    and co: "coalesced (set_mset (free_ranges p))"
    using gb by (simp_all add: giving_back_def)
  note rm = tree_ok_remove [OF tok k q] and fr = giving_back_free [OF gb k] and rg = giving_back_range [OF gb]
  show "free_ranges p = add_mset (unat k, unat v) (free_ranges q)"
    by (rule rm(2))
  have sub: "coalesced (set_mset (free_ranges q))"
    using co rm(2) coalesced_subset by auto
  show "giving_back q k (n + v) L" if "k + v = a"
  proof -
    have "unat a = unat k + unat v"
      using that fr(4) by auto
    moreover from this have "unat (n + v) = unat v + unat n"
      using unat_sum [of n v "totalSize p"] rg by simp
    ultimately show ?thesis
      using tl rm sub tiles_split [OF fr(2) rg(1), of "unat (totalSize p)" "unat k" "free_ranges q + L"]
      by (simp add: giving_back_def q add_mset_commute)
  qed
  show "giving_back q a (n + v) L" if "a + n = k"
  proof -
    have "unat k = unat a + unat n"
      using that rg(3) by auto
    moreover from this have "unat (n + v) = unat n + unat v"
      using unat_sum [of n v "totalSize p"] fr(3) by simp
    ultimately show ?thesis
      using tl rm sub tiles_split [OF rg(1) fr(2), of "unat (totalSize p)" "unat a" "free_ranges q + L"]
      by (simp add: giving_back_def q)
  qed
qed

lemma merge_prev_step:
  assumes gb: "giving_back p a n L" and run: "merge_prev a n p = (fo, fs, q)"
  shows "giving_back q fo fs L" and "fo + fs = a + n" and "totalSize q = totalSize p" and "baseAddress q = baseAddress p"
    and "\<forall>r \<in># free_ranges q. fst r + snd r \<noteq> unat fo"
proof -
  have tok: "tree_ok p" and om: "om_ok (addressTree p)" and co: "coalesced (set_mset (free_ranges p))"
    using gb by (simp_all add: giving_back_def tree_ok_def)
  have "giving_back q fo fs L \<and> fo + fs = a + n \<and> totalSize q = totalSize p \<and> baseAddress q = baseAddress p \<and>
      (\<forall>r \<in># free_ranges q. fst r + snd r \<noteq> unat fo)"
  proof (cases "\<exists>k v. om_before a (addressTree p) = Some (k, v) \<and> k + v = a")
    case True
    then obtain k v where b: "om_before a (addressTree p) = Some (k, v)" and adj: "k + v = a"
      by blast
    then have k: "map_of (addressTree p) k = Some v"
      using om_before_SomeD(1) [OF om b] om_mem_iff [OF om] by simp
    have q: "q = p\<lparr>sizeTree := os_erase (SpaceRange k v) (sizeTree p), addressTree := om_erase k (addressTree p)\<rparr>"
      and f: "fo = k" "fs = n + v"
      using run b adj by (auto simp: merge_prev_def)
    note ab = giving_back_absorb [OF gb k q]
    have "\<forall>r \<in># free_ranges q. fst r + snd r \<noteq> unat k"
      using co by (simp add: ab(3) coalesced_insert)
    with ab(1) [OF adj] adj show ?thesis
      by (auto simp: f q)
  next
    case False
    then have same: "q = p" "fo = a" "fs = n"
      using run by (auto simp: merge_prev_def split: option.splits if_splits)
    have "fst r + snd r \<noteq> unat a" if r: "r \<in># free_ranges p" for r
    proof
      assume adj: "fst r + snd r = unat a"
      obtain k v where k: "map_of (addressTree p) k = Some v" "r = (unat k, unat v)"
        using free_rangesE [OF tok r] by blast
      have "om_before a (addressTree p) = Some (k, v)"
        using om_before_adjacent [OF gb k(1)] adj k(2) by simp
      moreover have "k + v = a"
        using giving_back_free(4) [OF gb k(1)] adj k(2) by (intro unsigned_word_eqI [where 'a = nat]) simp
      ultimately show False
        using False by blast
    qed
    with gb show ?thesis
      by (simp add: same)
  qed
  then show "giving_back q fo fs L" and "fo + fs = a + n" and "totalSize q = totalSize p" and "baseAddress q = baseAddress p"
    and "\<forall>r \<in># free_ranges q. fst r + snd r \<noteq> unat fo"
    by blast+
qed

lemma merge_next_step:
  assumes gb: "giving_back p a n L" and before: "\<forall>r \<in># free_ranges p. fst r + snd r \<noteq> unat a"
    and run: "merge_next (a + n) n p = (fs, q)"
  shows "giving_back q a fs L" and "totalSize q = totalSize p" and "baseAddress q = baseAddress p"
    and "\<forall>r \<in># free_ranges q. fst r + snd r \<noteq> unat a \<and> unat a + unat fs \<noteq> fst r"
proof -
  have tok: "tree_ok p" and co: "coalesced (set_mset (free_ranges p))"
    using gb by (simp_all add: giving_back_def)
  note rg = giving_back_range [OF gb]
  have "giving_back q a fs L \<and> totalSize q = totalSize p \<and> baseAddress q = baseAddress p \<and>
      (\<forall>r \<in># free_ranges q. fst r + snd r \<noteq> unat a \<and> unat a + unat fs \<noteq> fst r)"
  proof (cases "map_of (addressTree p) (a + n)")
    case (Some v)
    have q: "q = p\<lparr>sizeTree := os_erase (SpaceRange (a + n) v) (sizeTree p), addressTree := om_erase (a + n) (addressTree p)\<rparr>"
      and f: "fs = n + v"
      using run Some by (auto simp: merge_next_def)
    note ab = giving_back_absorb [OF gb Some q]
    have gb': "giving_back q a fs L"
      using ab(2) f by simp
    have "unat a + unat fs = unat (a + n) + unat v"
      using giving_back_range(3) [OF gb'] giving_back_free(4) [OF gb Some] by (simp add: f add.assoc)
    with co before gb' show ?thesis
      by (simp add: ab(3) coalesced_insert q)
  next
    case None
    then have same: "q = p" "fs = n"
      using run by (auto simp: merge_next_def)
    have "unat a + unat n \<noteq> fst r" if r: "r \<in># free_ranges p" for r
    proof
      assume adj: "unat a + unat n = fst r"
      obtain k v where k: "map_of (addressTree p) k = Some v" "r = (unat k, unat v)"
        using free_rangesE [OF tok r] by blast
      have "k = a + n"
        using rg(3) adj k(2) by (intro unsigned_word_eqI [where 'a = nat]) simp
      with None k(1) show False
        by simp
    qed
    with gb before show ?thesis
      by (simp add: same)
  qed
  then show "giving_back q a fs L" and "totalSize q = totalSize p" and "baseAddress q = baseAddress p"
    and "\<forall>r \<in># free_ranges q. fst r + snd r \<noteq> unat a \<and> unat a + unat fs \<noteq> fst r"
    by blast+
qed

text \<open>The last step: the range becomes free again.\<close>

lemma give_back_insert:
  assumes gb: "giving_back p a n L" and apart: "\<forall>r \<in># free_ranges p. fst r + snd r \<noteq> unat a \<and> unat a + unat n \<noteq> fst r"
    and q: "q = p\<lparr>sizeTree := os_insert (SpaceRange a n) (sizeTree p), addressTree := om_emplace a n (addressTree p)\<rparr>"
  shows "tree_ok q" and "tiles (unat (totalSize q)) (free_ranges q + L)" and "coalesced (set_mset (free_ranges q))"
proof -
  have tok: "tree_ok p" and tl: "tiles (unat (totalSize p)) (add_mset (unat a, unat n) (free_ranges p + L))"
    and co: "coalesced (set_mset (free_ranges p))"
    using gb by (simp_all add: giving_back_def)
  have absent: "map_of (addressTree p) a = None"
    by (rule key_absent [OF tl]) (use giving_back_range(1) [OF gb] in auto)
  note ins = tree_ok_insert [OF tok absent q]
  show "tree_ok q"
    by (rule ins(1))
  have "totalSize q = totalSize p"
    by (simp add: q)
  with tl show "tiles (unat (totalSize q)) (free_ranges q + L)"
    by (simp add: ins(2))
  show "coalesced (set_mset (free_ranges q))"
    using co apart giving_back_range(1) [OF gb] by (simp add: ins(2) coalesced_insert)
qed

lemma elem_guards:
  assumes inv: "pool_inv p live" and e: "e \<in> set live"
  shows "fst e \<noteq> 0" and "\<not> fst e < baseAddress p" and "\<not> baseAddress p + totalSize p \<le> fst e"
    and "giving_back p (fst e - baseAddress p) (AllocateSizeAlignUp (snd e)) (image_mset (elem_of (baseAddress p)) (mset (remove1 e live)))"
proof -
  let ?a = "fst e - baseAddress p" and ?n = "AllocateSizeAlignUp (snd e)"
  let ?L = "image_mset (elem_of (baseAddress p)) (mset (remove1 e live))"
  have base: "baseAddress p \<noteq> 0" "baseAddress p \<le> fst e" "unat (baseAddress p) + unat (totalSize p) < 2 ^ 64"
    using inv e by (auto simp: pool_inv_def)
  then show "fst e \<noteq> 0" and "\<not> fst e < baseAddress p"
    by auto
  have "mset live = add_mset e (mset (remove1 e live))"
    using e by simp
  then have "image_mset (elem_of (baseAddress p)) (mset live) = add_mset (unat ?a, unat ?n) ?L"
    by (simp only: image_mset_add_mset elem_of_def)
  then have tl: "tiles (unat (totalSize p)) (add_mset (unat ?a, unat ?n) (free_ranges p + ?L))"
    using inv by (simp add: pool_inv_def)
  then show "giving_back p ?a ?n ?L"
    using inv by (simp add: pool_inv_def giving_back_def)
  have "unat ?a = unat (fst e) - unat (baseAddress p)"
    using base(2) by (simp add: unat_sub)
  moreover have "unat (baseAddress p + totalSize p) = unat (baseAddress p) + unat (totalSize p)"
    using base(3) by (simp add: unat_plus_if')
  ultimately show "\<not> baseAddress p + totalSize p \<le> fst e"
    using tiles_bound [OF tl] base(2) unfolding word_le_nat_alt by linarith
qed

lemma pool_inv_Release:
  assumes inv: "pool_inv p live" and e: "e \<in> set live"
  shows "\<exists>q. Release e p = (True, q) \<and> pool_inv q (remove1 e live) \<and> baseAddress q = baseAddress p \<and> totalSize q = totalSize p"
proof -
  let ?a = "fst e - baseAddress p" and ?n = "AllocateSizeAlignUp (snd e)"
  let ?L = "image_mset (elem_of (baseAddress p)) (mset (remove1 e live))"
  note g = elem_guards [OF inv e]
  have base: "baseAddress p \<noteq> 0" "unat (baseAddress p) + unat (totalSize p) < 2 ^ 64"
    "\<forall>e \<in> set (remove1 e live). baseAddress p \<le> fst e"
    using inv set_remove1_subset [of e live] by (auto simp: pool_inv_def)
  obtain fo fs p1 where m1: "merge_prev ?a ?n p = (fo, fs, p1)"
    by (metis prod_cases3)
  note s1 = merge_prev_step [OF g(4) m1]
  obtain fs' p2 where m2: "merge_next (?a + ?n) fs p1 = (fs', p2)"
    by (metis surj_pair)
  note s2 = merge_next_step [OF s1(1) s1(5) m2 [folded s1(2)]]
  let ?q = "p2\<lparr>sizeTree := os_insert (SpaceRange fo fs') (sizeTree p2), addressTree := om_emplace fo fs' (addressTree p2)\<rparr>"
  note s3 = give_back_insert [OF s2(1) s2(4) refl]
  have "Release e p = (True, ?q)"
    using g(1-3) base(1) m1 m2 by (cases e) (simp add: Release_def Let_def)
  moreover have "pool_inv ?q (remove1 e live)"
    using s3 base s1(3,4) s2(2,3) by (simp add: pool_inv_def)
  ultimately show ?thesis
    using s1(3,4) s2(2,3) by simp
qed

lemma pool_inv_new:
  assumes "base \<noteq> 0" and "0 < tot" and "unat base + unat tot < 2 ^ 64"
  shows "pool_inv (new_pool base tot) []"
  using assms by (simp add: pool_inv_def new_pool_def tree_ok_def free_ranges_def free_of_def tiles_def coalesced_def word_less_nat_alt)

lemma CanAllocate_Allocate:
  assumes "tree_ok p" and "baseAddress p \<noteq> 0"
  shows "CanAllocate n p \<longleftrightarrow> fst (Allocate n p) \<noteq> None"
proof (cases "os_lower_bound (SpaceRange 0 (AllocateSizeAlignUp n)) (sizeTree p)")
  case (Some r)
  have "r \<in> set (sizeTree p)"
    using os_lower_bound_SomeD(1) [OF _ Some] assms(1) by (simp add: tree_ok_def)
  then obtain k m where "r = SpaceRange k m" "(k, m) \<in> set (addressTree p)"
    using assms(1) by (auto simp: tree_ok_def)
  with Some assms om_mem_iff [of "addressTree p" k m] show ?thesis
    by (simp add: CanAllocate_def Allocate_def Let_def tree_ok_def)
qed (simp add: CanAllocate_def Allocate_def Let_def)

section \<open>Alignment\<close>

lemma AllocateSizeAlignUp_unat:
  "unat (AllocateSizeAlignUp n) = (unat n + 4095) mod 2 ^ 64 div 4096 * 4096"
proof -
  have mask: "(4095 :: u64) = mask 12"
    by (simp add: mask_eq_exp_minus_1)
  have "AllocateSizeAlignUp n = and (n + 4095) (not (mask 12))"
    by (simp add: AllocateSizeAlignUp_def mask add.commute)
  also have "\<dots> = push_bit 12 (drop_bit 12 (n + 4095))"
    by (rule bit_word_eqI) (auto simp: bit_simps)
  moreover have "take_bit 64 (unat (n + 4095)) = unat (n + 4095)"
    using unsigned_less [of "n + 4095", where ?'a = nat] by (intro take_bit_nat_eq_self) simp
  ultimately have "unat (AllocateSizeAlignUp n) = take_bit 64 (push_bit 12 (drop_bit 12 (unat (n + 4095))))"
    by (simp add: unsigned_push_bit_eq unsigned_drop_bit_eq)
  also have "\<dots> = (unat (n + 4095) div 4096 * 4096) mod 2 ^ 64"
    by (simp add: take_bit_eq_mod push_bit_eq_mult drop_bit_eq_div)
  also have "unat (n + 4095) div 4096 * 4096 < 2 ^ 64"
    using unsigned_less [of "n + 4095", where ?'a = nat] div_times_less_eq_dividend [of "unat (n + 4095)" 4096] by simp
  then have "(unat (n + 4095) div 4096 * 4096) mod 2 ^ 64 = unat (n + 4095) div 4096 * 4096"
    by simp
  finally show ?thesis
    by (simp add: unat_word_ariths)
qed

text \<open>The sizes for which rounding up to a page does not wrap around.\<close>

definition size_ok :: "u64 \<Rightarrow> bool" where
  "size_ok n \<longleftrightarrow> 0 < n \<and> unat n \<le> 2 ^ 64 - 4096"

lemma AllocateSizeAlignUp_bounds:
  assumes "size_ok n"
  shows "unat n \<le> unat (AllocateSizeAlignUp n)" and "unat (AllocateSizeAlignUp n) < unat n + 4096"
    and "0 < unat (AllocateSizeAlignUp n)" and "4096 dvd unat (AllocateSizeAlignUp n)"
proof -
  have n: "0 < unat n" "unat n + 4095 < 2 ^ 64"
    using assms by (auto simp: size_ok_def word_less_nat_alt)
  then have eq: "unat (AllocateSizeAlignUp n) = (unat n + 4095) div 4096 * 4096"
    by (simp add: AllocateSizeAlignUp_unat)
  show "4096 dvd unat (AllocateSizeAlignUp n)"
    by (simp add: eq)
  show le: "unat n \<le> unat (AllocateSizeAlignUp n)" and "unat (AllocateSizeAlignUp n) < unat n + 4096"
    using mod_less_divisor [of 4096 "unat n + 4095"] div_mult_mod_eq [of "unat n + 4095" 4096] unfolding eq by linarith+
  show "0 < unat (AllocateSizeAlignUp n)"
    using le n(1) by linarith
qed

section \<open>The pool is an allocator\<close>

definition elem_region :: "AllocatedElement \<Rightarrow> nat \<times> nat" where
  "elem_region e = (unat (fst e), unat (snd e))"

text \<open>Every element that is alive has a size for which the rounding does not wrap.\<close>

definition pool_ok :: "RbtreeRangePool \<Rightarrow> AllocatedElement list \<Rightarrow> bool" where
  "pool_ok p live \<longleftrightarrow> pool_inv p live \<and> (\<forall>e \<in> set live. size_ok (snd e))"

lemma mset_two:
  assumes "i < j" and "j < length xs"
  shows "\<exists>M. mset xs = add_mset (xs ! i) (add_mset (xs ! j) M)"
proof -
  have "xs = take i xs @ xs ! i # drop (Suc i) xs"
    using assms by (simp add: id_take_nth_drop)
  then have "mset xs = add_mset (xs ! i) (mset (take i xs) + mset (drop (Suc i) xs))"
    by (metis mset.simps(2) mset_append union_mset_add_mset_right)
  moreover have "xs ! j \<in> set (drop (Suc i) xs)"
    using nth_mem [of "j - Suc i" "drop (Suc i) xs"] assms by simp
  then have "\<exists>M. mset (drop (Suc i) xs) = add_mset (xs ! j) M"
    by (metis in_multiset_in_set multi_member_split)
  ultimately show ?thesis
    by auto
qed

lemma pool_elem:
  assumes "pool_ok p live" and "e \<in> set live"
  shows "unat (baseAddress p) + fst (elem_of (baseAddress p) e) = unat (fst e)"
    and "unat (snd e) \<le> snd (elem_of (baseAddress p) e)"
    and "unat (fst e) + unat (snd e) \<le> unat (baseAddress p) + unat (totalSize p)"
proof -
  have inv: "pool_inv p live" and sz: "size_ok (snd e)"
    using assms by (auto simp: pool_ok_def)
  have "baseAddress p \<le> fst e"
    using inv assms(2) by (simp add: pool_inv_def)
  then show a: "unat (baseAddress p) + fst (elem_of (baseAddress p) e) = unat (fst e)"
    by (simp add: elem_of_def unat_sub word_le_nat_alt)
  show b: "unat (snd e) \<le> snd (elem_of (baseAddress p) e)"
    using AllocateSizeAlignUp_bounds(1) [OF sz] by (simp add: elem_of_def)
  have "elem_of (baseAddress p) e \<in># free_ranges p + image_mset (elem_of (baseAddress p)) (mset live)"
    using assms(2) by simp
  then have "fst (elem_of (baseAddress p) e) + snd (elem_of (baseAddress p) e) \<le> unat (totalSize p)"
    using inv tiles_mem_bound [of "unat (totalSize p)"] by (metis pool_inv_def prod.collapse)
  with a b show "unat (fst e) + unat (snd e) \<le> unat (baseAddress p) + unat (totalSize p)"
    by linarith
qed

lemma pool_apart:
  assumes ok: "pool_ok p live" and ij: "i < j" "j < length live"
  shows "fst (elem_region (live ! i)) + snd (elem_region (live ! i)) \<le> fst (elem_region (live ! j)) \<or>
    fst (elem_region (live ! j)) + snd (elem_region (live ! j)) \<le> fst (elem_region (live ! i))"
proof -
  let ?e = "elem_of (baseAddress p)"
  obtain M where "mset live = add_mset (live ! i) (add_mset (live ! j) M)"
    using mset_two [OF ij] by blast
  then have "tiles (unat (totalSize p)) (add_mset (?e (live ! i)) (add_mset (?e (live ! j)) (free_ranges p + image_mset ?e M)))"
    using ok by (simp add: pool_ok_def pool_inv_def)
  then have "fst (?e (live ! i)) + snd (?e (live ! i)) \<le> fst (?e (live ! j)) \<or>
      fst (?e (live ! j)) + snd (?e (live ! j)) \<le> fst (?e (live ! i))"
    using tiles_disjoint by (metis prod.collapse)
  moreover have mem: "live ! i \<in> set live" "live ! j \<in> set live"
    using ij by auto
  ultimately show ?thesis
    using pool_elem(1,2) [OF ok mem(1)] pool_elem(1,2) [OF ok mem(2)] unfolding elem_region_def fst_conv snd_conv
    by linarith
qed

interpretation pool: space_allocator Allocate Release size_ok pool_ok elem_region
proof
  show "pool_ok q (e # live)" if "pool_ok p live" "size_ok n" "Allocate n p = (Some e, q)" for p live n e q
  proof -
    have "snd e = n"
      using that(3) by (auto simp: Allocate_def Let_def split: option.splits if_splits)
    then show ?thesis
      using that pool_inv_Allocate [OF _ that(3) AllocateSizeAlignUp_bounds(3) [OF that(2)]] by (simp add: pool_ok_def)
  qed
  show "q = p" if "Allocate n p = (None, q)" for n p q
    using that by (auto simp: Allocate_def Let_def split: option.splits if_splits)
  show "fst (Release e p) \<and> pool_ok (snd (Release e p)) (remove1 e live)" if "pool_ok p live" "e \<in> set live" for p live e
    using pool_inv_Release [of p live e] that set_remove1_subset [of e live] by (auto simp: pool_ok_def)
qed (rule pool_apart)

section \<open>Properties\<close>

lemma pool_ok_new:
  "base \<noteq> 0 \<Longrightarrow> 0 < tot \<Longrightarrow> unat base + unat tot < 2 ^ 64 \<Longrightarrow> pool_ok (new_pool base tot) []"
  by (simp add: pool_ok_def pool_inv_new)

lemma run_frame:
  "run_cmds Allocate Release cmds (p, live) = (q, live') \<Longrightarrow> baseAddress q = baseAddress p \<and> totalSize q = totalSize p"
proof (induction cmds arbitrary: p live)
  case (Cons cmd cmds)
  have "baseAddress (snd (Allocate n p)) = baseAddress p \<and> totalSize (snd (Allocate n p)) = totalSize p" for n
    by (simp add: Allocate_def Let_def split: option.splits)
  moreover have "baseAddress (snd (Release e p)) = baseAddress p \<and> totalSize (snd (Release e p)) = totalSize p" for e
    by (simp add: Release_def merge_prev_def merge_next_def Let_def case_prod_beta split: option.splits)
  ultimately have step: "Allocate n p = (r, t) \<Longrightarrow> baseAddress t = baseAddress p \<and> totalSize t = totalSize p"
    "Release e p = (b, t) \<Longrightarrow> baseAddress t = baseAddress p \<and> totalSize t = totalSize p" for n e r b t
    by (metis snd_conv)+
  show ?case
  proof (cases cmd)
    case (Alloc n)
    obtain r t where rt: "Allocate n p = (r, t)"
      by (cases "Allocate n p")
    with step(1) [OF rt] Cons Alloc show ?thesis
      by (cases r) auto
  next
    case (Free i)
    obtain b t where bt: "Release (live ! i) p = (b, t)"
      by (cases "Release (live ! i) p")
    with step(2) [OF bt] Cons Free show ?thesis
      by (auto split: if_splits)
  qed
qed simp

lemma sizeTree_mem: "tree_ok p \<Longrightarrow> SpaceRange k m \<in> set (sizeTree p) \<longleftrightarrow> map_of (addressTree p) k = Some m"
  using om_mem_iff [of "addressTree p" k m] by (auto simp: tree_ok_def)

text \<open>
  C13. Whatever elements are allocated from a new pool and destroyed again, in any order: two elements
  that are alive never share a byte, and every element lies inside the pool's memory.
\<close>

theorem pool_elements_apart:
  assumes "base \<noteq> 0" and "0 < tot" and "unat base + unat tot < 2 ^ 64"
    and "\<forall>n. Alloc n \<in> set cmds \<longrightarrow> size_ok n"
    and "run_cmds Allocate Release cmds (new_pool base tot, []) = (p, live)"
  shows "(\<forall>i j. i < j \<longrightarrow> j < length live \<longrightarrow>
      unat (fst (live ! i)) + unat (snd (live ! i)) \<le> unat (fst (live ! j)) \<or>
      unat (fst (live ! j)) + unat (snd (live ! j)) \<le> unat (fst (live ! i))) \<and>
    (\<forall>e \<in> set live. base \<le> fst e \<and> unat (fst e) + unat (snd e) \<le> unat base + unat tot)"
proof -
  have ok: "pool_ok p live"
    by (rule pool.run_inv [OF pool_ok_new [OF assms(1-3)] assms(4,5)])
  have fr: "baseAddress p = base" "totalSize p = tot"
    using run_frame [OF assms(5)] by (simp_all add: new_pool_def)
  have "\<forall>e \<in> set live. base \<le> fst e"
    using ok by (simp add: pool_ok_def pool_inv_def fr)
  moreover have "\<forall>e \<in> set live. unat (fst e) + unat (snd e) \<le> unat base + unat tot"
    using pool_elem(3) [OF ok] by (simp add: fr)
  ultimately show ?thesis
    using pool.inv_apart [OF ok] by (simp add: elem_region_def)
qed

theorem pool_elements_apart_witness:
  "\<exists>p live. run_cmds Allocate Release [Alloc 100, Alloc 5000, Alloc 1, Free 1] (new_pool 65536 40960, []) = (p, live) \<and>
     live = [(77824, 1), (65536, 100)] \<and> (\<forall>e \<in> set live. 65536 \<le> fst e)"
proof -
  let ?cmds = "[Alloc 100, Alloc 5000, Alloc 1, Free 1] :: u64 alloc_cmd list"
  let ?live = "[(77824, 1), (65536, 100)] :: AllocatedElement list"
  obtain p where run: "run_cmds Allocate Release ?cmds (new_pool 65536 40960, []) = (p, ?live)"
  proof
    show "run_cmds Allocate Release ?cmds (new_pool 65536 40960, []) =
        (fst (run_cmds Allocate Release ?cmds (new_pool 65536 40960, [])), ?live)"
      by code_simp
  qed
  have "(65536 :: u64) \<noteq> 0" "0 < (40960 :: u64)" "unat (65536 :: u64) + unat (40960 :: u64) < 2 ^ 64"
    "\<forall>n. Alloc n \<in> set ?cmds \<longrightarrow> size_ok n"
    by (auto simp: size_ok_def)
  from pool_elements_apart [OF this run] run show ?thesis
    by blast
qed

text \<open>
  Nothing is lost to fragmentation: once all elements are destroyed the pool is a single free range
  again, the pool as it was constructed.
\<close>

theorem pool_coalesces:
  assumes "base \<noteq> 0" and "0 < tot" and "unat base + unat tot < 2 ^ 64"
    and "\<forall>n. Alloc n \<in> set cmds \<longrightarrow> size_ok n"
    and "run_cmds Allocate Release cmds (new_pool base tot, []) = (p, [])"
  shows "p = new_pool base tot"
proof -
  have ok: "pool_inv p []"
    using pool.run_inv [OF pool_ok_new [OF assms(1-3)] assms(4,5)] by (simp add: pool_ok_def)
  have fr: "baseAddress p = base" "totalSize p = tot"
    using run_frame [OF assms(5)] by (simp_all add: new_pool_def)
  have "free_ranges p = {#(0, unat tot)#}"
    using ok assms(2) by (intro tiles_single) (simp_all add: pool_inv_def fr word_less_nat_alt)
  moreover from this have "length (addressTree p) = 1"
    by (metis free_ranges_def size_image_mset size_mset size_single)
  ultimately obtain r where r: "addressTree p = [r]" "free_of r = (0, unat tot)"
    by (auto simp: free_ranges_def length_Suc_conv)
  then have "addressTree p = [(0, tot)]"
    by (cases r) (auto simp: free_of_def unat_eq_zero intro: unsigned_word_eqI [where 'a = nat])
  moreover from this ok have "set (sizeTree p) = {SpaceRange 0 tot}" "os_ok (sizeTree p)"
    by (simp_all add: pool_inv_def tree_ok_def)
  then have "sizeTree p = [SpaceRange 0 tot]"
    using strict_sorted_equal [of "[SpaceRange 0 tot]" "sizeTree p"] by simp
  ultimately show ?thesis
    using fr by (simp add: new_pool_def)
qed

theorem pool_coalesces_witness:
  "fst (run_cmds Allocate Release [Alloc 100, Alloc 5000, Alloc 1, Free 1, Free 1, Free 0] (new_pool 65536 40960, [])) =
     new_pool 65536 40960"
proof -
  let ?cmds = "[Alloc 100, Alloc 5000, Alloc 1, Free 1, Free 1, Free 0] :: u64 alloc_cmd list"
  have run: "run_cmds Allocate Release ?cmds (new_pool 65536 40960, []) =
      (fst (run_cmds Allocate Release ?cmds (new_pool 65536 40960, [])), [])"
    by code_simp
  have "(65536 :: u64) \<noteq> 0" "0 < (40960 :: u64)" "unat (65536 :: u64) + unat (40960 :: u64) < 2 ^ 64"
    "\<forall>n. Alloc n \<in> set ?cmds \<longrightarrow> size_ok n"
    by (auto simp: size_ok_def)
  from pool_coalesces [OF this run] show ?thesis .
qed

text \<open>
  C30. Allocation succeeds exactly if some free range can hold the size rounded up to pages, as
  \<open>CanAllocate\<close> says, and the element is cut from a smallest such range.
\<close>

theorem pool_best_fit:
  assumes "pool_inv p live"
  shows "(CanAllocate n p \<longleftrightarrow> (\<exists>k m. map_of (addressTree p) k = Some m \<and> AllocateSizeAlignUp n \<le> m)) \<and>
    (CanAllocate n p \<longleftrightarrow> fst (Allocate n p) \<noteq> None) \<and>
    (\<forall>e q. Allocate n p = (Some e, q) \<longrightarrow>
      (\<exists>k m. map_of (addressTree p) k = Some m \<and> e = (baseAddress p + k, n) \<and> AllocateSizeAlignUp n \<le> m \<and>
        (\<forall>k' m'. map_of (addressTree p) k' = Some m' \<longrightarrow> AllocateSizeAlignUp n \<le> m' \<longrightarrow> m \<le> m')))"
proof -
  have tok: "tree_ok p" and base: "baseAddress p \<noteq> 0"
    using assms by (simp_all add: pool_inv_def)
  have "CanAllocate n p \<longleftrightarrow> (\<exists>r \<in> set (sizeTree p). SpaceRange 0 (AllocateSizeAlignUp n) \<le> r)"
    using os_lower_bound_None [of "SpaceRange 0 (AllocateSizeAlignUp n)" "sizeTree p"] by (auto simp: CanAllocate_def not_less)
  also have "\<dots> \<longleftrightarrow> (\<exists>k m. map_of (addressTree p) k = Some m \<and> AllocateSizeAlignUp n \<le> m)"
    using sizeTree_mem [OF tok] by (metis SpaceRange.exhaust range_le_iff)
  finally show ?thesis
    using CanAllocate_Allocate [OF tok base] Allocate_SomeE [OF tok, of n] by metis
qed

theorem pool_best_fit_witness:
  "CanAllocate 5000 (new_pool 65536 40960) \<and> fst (Allocate 5000 (new_pool 65536 40960)) \<noteq> None"
proof -
  have "pool_inv (new_pool 65536 40960) []"
    by (rule pool_inv_new) simp_all
  note fit = pool_best_fit [OF this, of 5000]
  have "map_of (addressTree (new_pool 65536 40960)) 0 = Some 40960 \<and> AllocateSizeAlignUp 5000 \<le> 40960"
    by code_simp
  with fit show ?thesis
    by blast
qed

text \<open>
  Rounding up wraps around for sizes within a page of the end of the 64-bit range: such a request
  is rounded to 0, so a pool of any size hands out an element of that size and reserves nothing.
\<close>

theorem huge_allocation_succeeds:
  assumes "pool_inv p live" and "2 ^ 64 - 4096 < unat n" and "addressTree p \<noteq> []"
  shows "\<exists>a q. Allocate n p = (Some (a, n), q) \<and> free_ranges q = free_ranges p"
proof -
  let ?al = "AllocateSizeAlignUp n"
  have tok: "tree_ok p" and base: "baseAddress p \<noteq> 0"
    and tl: "tiles (unat (totalSize p)) (free_ranges p + image_mset (elem_of (baseAddress p)) (mset live))"
    using assms(1) by (simp_all add: pool_inv_def)
  have "(unat n + 4095) mod 2 ^ 64 = unat n + 4095 - 2 ^ 64"
    using assms(2) unsigned_less [of n, where ?'a = nat] by (simp add: mod_if)
  then have "unat ?al = 0"
    using unsigned_less [of n, where ?'a = nat] by (simp add: AllocateSizeAlignUp_unat)
  then have al: "?al = 0"
    by (simp add: unat_eq_zero)
  have "sizeTree p \<noteq> []"
    using tok assms(3) by (auto simp: tree_ok_def)
  then have "CanAllocate n p"
    using os_lower_bound_None [of "SpaceRange 0 0" "sizeTree p"] range_le_iff [of 0]
    by (metis CanAllocate_def SpaceRange.exhaust al last_in_set not_le word_zero_le)
  then obtain e q where run: "Allocate n p = (Some e, q)"
    using CanAllocate_Allocate [OF tok base] by (metis option.exhaust prod.collapse)
  from tok run obtain k m where k: "map_of (addressTree p) k = Some m" "e = (baseAddress p + k, n)"
    and q: "q = (let r = p\<lparr>sizeTree := os_erase (SpaceRange k m) (sizeTree p), addressTree := om_erase k (addressTree p)\<rparr>
          in if ?al < m then
               r\<lparr>sizeTree := os_insert (SpaceRange (k + ?al) (m - ?al)) (sizeTree r),
                 addressTree := om_emplace (k + ?al) (m - ?al) (addressTree r)\<rparr>
             else r)"
    by (rule Allocate_SomeE)
  define r where "r = p\<lparr>sizeTree := os_erase (SpaceRange k m) (sizeTree p), addressTree := om_erase k (addressTree p)\<rparr>"
  note rm = tree_ok_remove [OF tok k(1) r_def]
  have "0 < unat m"
    using tiles_mem_bound [OF tl, of "unat k" "unat m"] free_range_mem [OF k(1)] by simp
  then have "q = r\<lparr>sizeTree := os_insert (SpaceRange k m) (sizeTree r), addressTree := om_emplace k m (addressTree r)\<rparr>"
    using q by (simp add: al r_def Let_def word_less_nat_alt)
  moreover have "map_of (addressTree r) k = None"
    by (simp add: r_def)
  ultimately have "free_ranges q = free_ranges p"
    using tree_ok_insert(2) [OF rm(1)] rm(2) by simp
  with run k(2) show ?thesis
    by auto
qed

theorem huge_allocation_succeeds_witness:
  "\<exists>a q. Allocate (- 1) (new_pool 65536 4096) = (Some (a, - 1), q) \<and> free_ranges q = free_ranges (new_pool 65536 4096)"
proof -
  have "pool_inv (new_pool 65536 4096) []"
    by (rule pool_inv_new) simp_all
  moreover have "2 ^ 64 - 4096 < unat (- 1 :: u64)"
    by (simp add: unsigned_minus_1_eq_mask mask_eq_exp_minus_1)
  ultimately show ?thesis
    by (rule huge_allocation_succeeds) (simp add: new_pool_def)
qed

end
