(* ===== verification/Hybm_Types.thy ===== *)
theory Hybm_Types
  imports Prelude
begin

text \<open>
  The result codes of the hybm library (\<^verbatim>\<open>src/hybm/csrc/common/hybm_types.h\<close>), and the three builds the
  sources distinguish by preprocessor symbols.
\<close>

datatype xpu = ASCEND_NPU | NVIDIA_GPU | NO_XPU

abbreviation (input) BM_OK :: result where "BM_OK \<equiv> 0"
abbreviation (input) BM_ERROR :: result where "BM_ERROR \<equiv> - 1"
abbreviation (input) BM_INVALID_PARAM :: result where "BM_INVALID_PARAM \<equiv> - 2"
abbreviation (input) BM_MALLOC_FAILED :: result where "BM_MALLOC_FAILED \<equiv> - 3"
abbreviation (input) BM_DL_FUNCTION_FAILED :: result where "BM_DL_FUNCTION_FAILED \<equiv> - 6"
abbreviation (input) BM_TIMEOUT :: result where "BM_TIMEOUT \<equiv> - 7"
abbreviation (input) BM_NOT_INITIALIZED :: result where "BM_NOT_INITIALIZED \<equiv> - 9"
abbreviation (input) BM_NOT_SUPPORTED :: result where "BM_NOT_SUPPORTED \<equiv> - 100"

end
