(* ===== verification/Va_Manager.thy ===== *)
theory Va_Manager
  imports Hybm_Types Containers "HOL-Library.Product_Lexorder"
begin

text \<open>
  The address manager \<open>HybmVaManager\<close> (\<^verbatim>\<open>src/hybm/csrc/mm/hybm_va_manager.h/.cpp\<close>): the allocated
  segments, found by global and by local address, and the reserved ranges of global addresses.
  Addresses and sizes are 64-bit words. The shared mutex makes every operation one step; logging and
  the two dump functions are left out.

  Several lookups take \<open>upper_bound\<close>, step back unless at \<open>begin()\<close>, and then dereference. On an empty
  map that is \<open>end()\<close>: undefined behaviour, \<open>None\<close>.
\<close>

section \<open>Data\<close>

datatype hybm_mem_type = HYBM_MEM_TYPE_DEVICE | HYBM_MEM_TYPE_HOST | HYBM_MEM_TYPE_BUTT

record ReservedGvaInfo =
  resStart :: u64
  resSize :: u64
  resMemType :: hybm_mem_type
  resRank :: u32

definition reserved_Contains :: "ReservedGvaInfo \<Rightarrow> u64 \<Rightarrow> bool" where
  "reserved_Contains r addr \<longleftrightarrow> addr \<ge> resStart r \<and> addr < resStart r + resSize r"

definition reserved_End :: "ReservedGvaInfo \<Rightarrow> u64" where
  "reserved_End r = resStart r + resSize r"

abbreviation (input) INVALID_RANK_ID :: u32 where "INVALID_RANK_ID \<equiv> 4294967295"

record AllocatedGvaInfo =
  gva :: u64
  gsize :: u64
  memType :: hybm_mem_type
  lva :: u64
  registered :: bool
  localRankId :: u32
  importedRankId :: u32

definition no_info :: AllocatedGvaInfo where
  "no_info = \<lparr>gva = 0, gsize = 0, memType = HYBM_MEM_TYPE_DEVICE, lva = 0, registered = False,
     localRankId = INVALID_RANK_ID, importedRankId = INVALID_RANK_ID\<rparr>"

definition In :: "AllocatedGvaInfo \<Rightarrow> AllocatedGvaInfo \<Rightarrow> bool" where
  "In i j \<longleftrightarrow> gva j \<ge> gva i \<and> gva j + gsize j \<le> gva i + gsize i"

definition Contains :: "AllocatedGvaInfo \<Rightarrow> u64 \<Rightarrow> bool" where
  "Contains i addr \<longleftrightarrow> addr \<ge> gva i \<and> addr < gva i + gsize i"

definition ContainsByLva :: "AllocatedGvaInfo \<Rightarrow> u64 \<Rightarrow> bool" where
  "ContainsByLva i addr \<longleftrightarrow> (if lva i = 0 then False else addr \<ge> lva i \<and> addr < lva i + gsize i)"

definition End :: "AllocatedGvaInfo \<Rightarrow> u64" where
  "End i = gva i + gsize i"

definition RankId :: "AllocatedGvaInfo \<Rightarrow> u32" where
  "RankId i = (if importedRankId i \<noteq> INVALID_RANK_ID then importedRankId i else localRankId i)"

definition same_info :: "AllocatedGvaInfo \<Rightarrow> AllocatedGvaInfo \<Rightarrow> bool" where
  "same_info i j \<longleftrightarrow> gva i = gva j \<and> gsize i = gsize j \<and> RankId i = RankId j"

record HybmVaManager =
  allocatedByGva :: "(u64 \<times> AllocatedGvaInfo) list"
  allocatedByLva :: "(u64 \<times> AllocatedGvaInfo) list"
  reservedByGva :: "(u64 \<times> ReservedGvaInfo) list"
  allocatedByMemType :: "(hybm_mem_type \<times> AllocatedGvaInfo list) list"
  reserveStart :: u64
  reserveEnd :: u64

abbreviation (input) HYBM_GVM_START_ADDR :: u64 where "HYBM_GVM_START_ADDR \<equiv> 0x280000000000"
abbreviation (input) HYBM_GVM_END_ADDR :: u64 where "HYBM_GVM_END_ADDR \<equiv> 0xA80000000000"
abbreviation (input) HYBM_DEVICE_VA_START :: u64 where "HYBM_DEVICE_VA_START \<equiv> 0x100000000000"
abbreviation (input) HYBM_DEVICE_VA_SIZE :: u64 where "HYBM_DEVICE_VA_SIZE \<equiv> 0x80000000000"

definition va_manager :: HybmVaManager where
  "va_manager = \<lparr>allocatedByGva = [], allocatedByLva = [], reservedByGva = [], allocatedByMemType = [],
     reserveStart = HYBM_GVM_START_ADDR, reserveEnd = HYBM_GVM_END_ADDR\<rparr>"

section \<open>Allocated segments\<close>

definition CheckOverlap ::
    "u64 \<Rightarrow> u64 \<Rightarrow> hybm_mem_type \<Rightarrow> HybmVaManager \<Rightarrow> bool \<times> AllocatedGvaInfo" where
  "CheckOverlap g n type s =
     (let e = g + n in
      case map_of (allocatedByMemType s) type of
        None \<Rightarrow> (False, no_info)
      | Some infos \<Rightarrow>
          (case find (\<lambda>i. (g \<ge> gva i \<and> g < End i) \<or> (g \<le> gva i \<and> e > gva i)) infos of
             None \<Rightarrow> (False, no_info)
           | Some i \<Rightarrow> (True, i)))"

text \<open>\<open>allocatedLookupMapByMemType_[type]\<close>, which starts out empty.\<close>

definition type_list :: "HybmVaManager \<Rightarrow> hybm_mem_type \<Rightarrow> AllocatedGvaInfo list" where
  "type_list s type = (case map_of (allocatedByMemType s) type of None \<Rightarrow> [] | Some l \<Rightarrow> l)"

definition AddVaInfo :: "AllocatedGvaInfo \<Rightarrow> HybmVaManager \<Rightarrow> result \<times> HybmVaManager" where
  "AddVaInfo info s =
     (if gva info = 0 then (BM_ERROR, s)
      else if gsize info = 0 then (BM_OK, s)
      else if memType info = HYBM_MEM_TYPE_BUTT then (BM_ERROR, s)
      else
        let old = CheckOverlap (gva info) (gsize info) (memType info) s in
        if fst old \<and> \<not> same_info (snd old) info then (BM_ERROR, s)
        else if same_info (snd old) info then (BM_OK, s)
        else
          (BM_OK, s\<lparr>allocatedByGva := om_set (gva info) info (allocatedByGva s),
             allocatedByLva := om_set (lva info) info (allocatedByLva s),
             allocatedByMemType := um_set (memType info) (type_list s (memType info) @ [info])
               (allocatedByMemType s)\<rparr>))"

definition AddVaInfoFromExternal ::
    "u64 \<Rightarrow> u64 \<Rightarrow> hybm_mem_type \<Rightarrow> u64 \<Rightarrow> u32 \<Rightarrow> u32 \<Rightarrow> HybmVaManager \<Rightarrow> result \<times> HybmVaManager" where
  "AddVaInfoFromExternal g n type l localRank importedRank s =
     AddVaInfo \<lparr>gva = g, gsize = n, memType = type, lva = l, registered = (importedRank = INVALID_RANK_ID),
       localRankId = localRank, importedRankId = importedRank\<rparr> s"

definition AddVaInfo_base ::
    "u64 \<Rightarrow> u64 \<Rightarrow> hybm_mem_type \<Rightarrow> u64 \<Rightarrow> u32 \<Rightarrow> HybmVaManager \<Rightarrow> result \<times> HybmVaManager" where
  "AddVaInfo_base g n type l localRank s =
     AddVaInfo \<lparr>gva = g, gsize = n, memType = type, lva = l, registered = False, localRankId = localRank,
       importedRankId = INVALID_RANK_ID\<rparr> s"

text \<open>\<open>upper_bound\<close>, one step back unless at \<open>begin()\<close>, dereferenced.\<close>

definition om_near :: "u64 \<Rightarrow> (u64 \<times> 'v) list \<Rightarrow> 'v cpp" where
  "om_near k m =
     (case om_floor k m of
        Some (_, v) \<Rightarrow> Some v
      | None \<Rightarrow> (case m of [] \<Rightarrow> None | (_, v) # _ \<Rightarrow> Some v))"

definition GetGvaByLva :: "u64 \<Rightarrow> HybmVaManager \<Rightarrow> u64" where
  "GetGvaByLva l s =
     (if l = 0 then 0
      else case om_floor l (allocatedByLva s) of
        Some (_, i) \<Rightarrow> if ContainsByLva i l then gva i + (l - lva i) else 0
      | None \<Rightarrow> 0)"

definition GetLvaByGva :: "u64 \<Rightarrow> HybmVaManager \<Rightarrow> u64" where
  "GetLvaByGva g s =
     (if g = 0 then 0
      else case om_floor g (allocatedByGva s) of
        Some (_, i) \<Rightarrow> if Contains i g then lva i + (g - gva i) else 0
      | None \<Rightarrow> 0)"

definition IsGva :: "u64 \<Rightarrow> HybmVaManager \<Rightarrow> bool cpp" where
  "IsGva va s =
     (if va = 0 then Some False
      else do { i \<leftarrow> om_near va (allocatedByGva s); Some (Contains i va) })"

text \<open>The segment \<open>i\<close> found at \<open>g\<close> leaves the three maps.\<close>

definition drop_seg :: "u64 \<Rightarrow> AllocatedGvaInfo \<Rightarrow> HybmVaManager \<Rightarrow> HybmVaManager" where
  "drop_seg g i s = s\<lparr>
     allocatedByLva := (case map_of (allocatedByLva s) (lva i) of
         Some j \<Rightarrow> if gva j = g then om_erase (lva i) (allocatedByLva s) else allocatedByLva s
       | None \<Rightarrow> allocatedByLva s),
     allocatedByMemType := (case map_of (allocatedByMemType s) (memType i) of
         Some l \<Rightarrow> if filter (\<lambda>i. gva i \<noteq> g) l = [] then um_erase (memType i) (allocatedByMemType s)
           else um_set (memType i) (filter (\<lambda>i. gva i \<noteq> g) l) (allocatedByMemType s)
       | None \<Rightarrow> allocatedByMemType s),
     allocatedByGva := om_erase g (allocatedByGva s)\<rparr>"

definition RemoveOneVaInfo :: "u64 \<Rightarrow> HybmVaManager \<Rightarrow> HybmVaManager cpp" where
  "RemoveOneVaInfo va s = do {
     isGva \<leftarrow> IsGva va s;
     let g = (if isGva then va else GetGvaByLva va s);
     if g = 0 then Some s
     else case map_of (allocatedByGva s) g of
       None \<Rightarrow> Some s
     | Some info \<Rightarrow> Some (drop_seg g info s)
   }"

definition GetMemType :: "u64 \<Rightarrow> HybmVaManager \<Rightarrow> hybm_mem_type cpp" where
  "GetMemType va s =
     (if va = 0 then Some HYBM_MEM_TYPE_DEVICE
      else do {
        i \<leftarrow> om_near va (allocatedByGva s);
        if Contains i va then Some (memType i)
        else do {
          j \<leftarrow> om_near va (allocatedByLva s);
          if ContainsByLva j va then Some (memType i)
          else do {
            r \<leftarrow> om_near va (reservedByGva s);
            Some (if reserved_Contains r va then resMemType r else HYBM_MEM_TYPE_BUTT)
          }
        }
      })"

definition GetRank :: "u64 \<Rightarrow> HybmVaManager \<Rightarrow> (u32 \<times> bool) cpp" where
  "GetRank g s =
     (if g = 0 then Some (0, False)
      else do {
        i \<leftarrow> om_near g (allocatedByGva s);
        Some (if Contains i g then (RankId i, True) else (0, False))
      })"

definition IsValidAddr :: "u64 \<Rightarrow> HybmVaManager \<Rightarrow> bool cpp" where
  "IsValidAddr va s = do { g \<leftarrow> IsGva va s; Some (g \<or> GetGvaByLva va s \<noteq> 0) }"

definition FindAllocByGva :: "u64 \<Rightarrow> HybmVaManager \<Rightarrow> (AllocatedGvaInfo \<times> bool) cpp" where
  "FindAllocByGva g s = do {
     i \<leftarrow> om_near g (allocatedByGva s);
     Some (if Contains i g then (i, True) else (no_info, False))
   }"

definition FindAllocByLva :: "u64 \<Rightarrow> HybmVaManager \<Rightarrow> (AllocatedGvaInfo \<times> bool) cpp" where
  "FindAllocByLva l s = do {
     i \<leftarrow> om_near l (allocatedByLva s);
     Some (if ContainsByLva i l then (i, True) else (no_info, False))
   }"

section \<open>Copy directions\<close>

datatype AddressCategory = GLOBAL_DEVICE | GLOBAL_HOST | LOCAL_DEVICE | LOCAL_HOST

datatype hybm_data_copy_direction =
    HYBM_LOCAL_HOST_TO_GLOBAL_HOST | HYBM_LOCAL_HOST_TO_GLOBAL_DEVICE
  | HYBM_LOCAL_DEVICE_TO_GLOBAL_HOST | HYBM_LOCAL_DEVICE_TO_GLOBAL_DEVICE
  | HYBM_GLOBAL_HOST_TO_GLOBAL_HOST | HYBM_GLOBAL_HOST_TO_GLOBAL_DEVICE
  | HYBM_GLOBAL_HOST_TO_LOCAL_HOST | HYBM_GLOBAL_HOST_TO_LOCAL_DEVICE
  | HYBM_GLOBAL_DEVICE_TO_GLOBAL_HOST | HYBM_GLOBAL_DEVICE_TO_GLOBAL_DEVICE
  | HYBM_GLOBAL_DEVICE_TO_LOCAL_HOST | HYBM_GLOBAL_DEVICE_TO_LOCAL_DEVICE
  | HYBM_DATA_COPY_DIRECTION_AUTO | HYBM_DATA_COPY_DIRECTION_BUTT

fun COPY_DIRECTION_TABLE :: "AddressCategory \<Rightarrow> AddressCategory \<Rightarrow> hybm_data_copy_direction" where
  "COPY_DIRECTION_TABLE GLOBAL_DEVICE GLOBAL_DEVICE = HYBM_GLOBAL_DEVICE_TO_GLOBAL_DEVICE"
| "COPY_DIRECTION_TABLE GLOBAL_DEVICE GLOBAL_HOST = HYBM_GLOBAL_DEVICE_TO_GLOBAL_HOST"
| "COPY_DIRECTION_TABLE GLOBAL_DEVICE LOCAL_DEVICE = HYBM_GLOBAL_DEVICE_TO_LOCAL_DEVICE"
| "COPY_DIRECTION_TABLE GLOBAL_DEVICE LOCAL_HOST = HYBM_GLOBAL_DEVICE_TO_LOCAL_HOST"
| "COPY_DIRECTION_TABLE GLOBAL_HOST GLOBAL_DEVICE = HYBM_GLOBAL_HOST_TO_GLOBAL_DEVICE"
| "COPY_DIRECTION_TABLE GLOBAL_HOST GLOBAL_HOST = HYBM_GLOBAL_HOST_TO_GLOBAL_HOST"
| "COPY_DIRECTION_TABLE GLOBAL_HOST LOCAL_DEVICE = HYBM_GLOBAL_HOST_TO_LOCAL_DEVICE"
| "COPY_DIRECTION_TABLE GLOBAL_HOST LOCAL_HOST = HYBM_GLOBAL_HOST_TO_LOCAL_HOST"
| "COPY_DIRECTION_TABLE LOCAL_DEVICE GLOBAL_DEVICE = HYBM_LOCAL_DEVICE_TO_GLOBAL_DEVICE"
| "COPY_DIRECTION_TABLE LOCAL_DEVICE GLOBAL_HOST = HYBM_LOCAL_DEVICE_TO_GLOBAL_HOST"
| "COPY_DIRECTION_TABLE LOCAL_HOST GLOBAL_DEVICE = HYBM_LOCAL_HOST_TO_GLOBAL_DEVICE"
| "COPY_DIRECTION_TABLE LOCAL_HOST GLOBAL_HOST = HYBM_LOCAL_HOST_TO_GLOBAL_HOST"
| "COPY_DIRECTION_TABLE _ _ = HYBM_DATA_COPY_DIRECTION_BUTT"

definition ClassifyAddress :: "u64 \<Rightarrow> HybmVaManager \<Rightarrow> AddressCategory cpp" where
  "ClassifyAddress va s = do {
     gvaType \<leftarrow> GetMemType va s;
     Some (case gvaType of
         HYBM_MEM_TYPE_DEVICE \<Rightarrow> GLOBAL_DEVICE
       | HYBM_MEM_TYPE_HOST \<Rightarrow> GLOBAL_HOST
       | HYBM_MEM_TYPE_BUTT \<Rightarrow>
           if va \<ge> HYBM_DEVICE_VA_START \<and> va < HYBM_DEVICE_VA_START + HYBM_DEVICE_VA_SIZE then LOCAL_DEVICE
           else LOCAL_HOST)
   }"

definition InferCopyDirection :: "u64 \<Rightarrow> u64 \<Rightarrow> HybmVaManager \<Rightarrow> hybm_data_copy_direction cpp" where
  "InferCopyDirection srcVa dstVa s = do {
     src \<leftarrow> ClassifyAddress srcVa s;
     dst \<leftarrow> ClassifyAddress dstVa s;
     Some (COPY_DIRECTION_TABLE src dst)
   }"

section \<open>Reserved ranges\<close>

text \<open>The scan of \<open>FindFreeSpace\<close> over the used ranges; \<open>Inl\<close> is a gap that was found.\<close>

fun scan_gaps :: "u64 \<Rightarrow> (u64 \<times> u64) list \<Rightarrow> u64 \<Rightarrow> u64 + u64" where
  "scan_gaps n [] current = Inr current"
| "scan_gaps n ((a, b) # ranges) current =
     (if a > current \<and> a - current \<ge> n then Inl current
      else scan_gaps n ranges (if b > current then b else current))"

definition FindFreeSpace :: "u64 \<Rightarrow> u64 \<Rightarrow> u64 \<Rightarrow> HybmVaManager \<Rightarrow> u64 \<times> bool" where
  "FindFreeSpace start end' n s =
     (if n = 0 \<or> start \<ge> end' \<or> n > end' - start then (0, False)
      else
        let usedRanges = map (\<lambda>(_, r). (resStart r, reserved_End r))
              (filter (\<lambda>(_, r). resStart r \<ge> start \<and> resStart r < end') (reservedByGva s))
        in if usedRanges = [] then (start, True)
           else case scan_gaps n (sort usedRanges) start of
             Inl a \<Rightarrow> (a, True)
           | Inr current \<Rightarrow> if end' - current \<ge> n then (current, True) else (0, False))"

definition AllocReserveGva ::
    "u32 \<Rightarrow> u64 \<Rightarrow> hybm_mem_type \<Rightarrow> HybmVaManager \<Rightarrow> ReservedGvaInfo \<times> HybmVaManager" where
  "AllocReserveGva localRank n type s =
     (let none = \<lparr>resStart = 0, resSize = 0, resMemType = HYBM_MEM_TYPE_DEVICE, resRank = 0\<rparr> in
      if n = 0 then (none, s)
      else
        let (freeAddr, found) = FindFreeSpace (reserveStart s) (reserveEnd s) n s in
        if \<not> found then (none, s)
        else
          let r = \<lparr>resStart = freeAddr, resSize = n, resMemType = type, resRank = localRank\<rparr>
          in (r, s\<lparr>reservedByGva := om_set freeAddr r (reservedByGva s)\<rparr>))"

definition FreeReserveGva :: "u64 \<Rightarrow> HybmVaManager \<Rightarrow> HybmVaManager" where
  "FreeReserveGva addr s =
     (if addr = 0 then s
      else case map_of (reservedByGva s) addr of
        None \<Rightarrow> s
      | Some _ \<Rightarrow> s\<lparr>reservedByGva := om_erase addr (reservedByGva s)\<rparr>)"

definition FindReservedByAddr :: "u64 \<Rightarrow> HybmVaManager \<Rightarrow> (ReservedGvaInfo \<times> bool) cpp" where
  "FindReservedByAddr addr s = do {
     r \<leftarrow> om_near addr (reservedByGva s);
     Some (if reserved_Contains r addr then (r, True)
       else (\<lparr>resStart = 0, resSize = 0, resMemType = HYBM_MEM_TYPE_DEVICE, resRank = 0\<rparr>, False))
   }"

definition GetAllocCount :: "HybmVaManager \<Rightarrow> nat" where
  "GetAllocCount s = length (allocatedByGva s)"

definition GetReservedCount :: "HybmVaManager \<Rightarrow> nat" where
  "GetReservedCount s = length (reservedByGva s)"

definition ClearAll :: "HybmVaManager \<Rightarrow> HybmVaManager" where
  "ClearAll s = s\<lparr>allocatedByGva := [], allocatedByLva := [], reservedByGva := [], allocatedByMemType := []\<rparr>"

section \<open>Segments and addresses\<close>

declare map_of_eq_Some_iff [simp del]

text \<open>The addresses of \<open>n\<close> bytes from \<open>a\<close>, as numbers.\<close>

definition span :: "u64 \<Rightarrow> u64 \<Rightarrow> nat set" where
  "span a n = {unat a ..< unat a + unat n}"

definition seg_ok :: "AllocatedGvaInfo \<Rightarrow> bool" where
  "seg_ok i \<longleftrightarrow> gva i \<noteq> 0 \<and> gsize i \<noteq> 0 \<and> memType i \<noteq> HYBM_MEM_TYPE_BUTT \<and>
     unat (gva i) + unat (gsize i) < 2 ^ 64 \<and> unat (lva i) + unat (gsize i) < 2 ^ 64"

definition seg_apart :: "AllocatedGvaInfo \<Rightarrow> AllocatedGvaInfo \<Rightarrow> bool" where
  "seg_apart i j \<longleftrightarrow> span (gva i) (gsize i) \<inter> span (gva j) (gsize j) = {} \<and>
     (lva i \<noteq> 0 \<longrightarrow> lva j \<noteq> 0 \<longrightarrow> span (lva i) (gsize i) \<inter> span (lva j) (gsize j) = {})"

definition segs :: "HybmVaManager \<Rightarrow> AllocatedGvaInfo set" where
  "segs s = snd ` set (allocatedByGva s)"

definition by_gva_ok :: "HybmVaManager \<Rightarrow> bool" where
  "by_gva_ok s \<longleftrightarrow> om_ok (allocatedByGva s) \<and> (\<forall>(k, i) \<in> set (allocatedByGva s). k = gva i \<and> seg_ok i) \<and>
     (\<forall>i \<in> segs s. \<forall>j \<in> segs s. i \<noteq> j \<longrightarrow> seg_apart i j)"

definition by_lva_ok :: "HybmVaManager \<Rightarrow> bool" where
  "by_lva_ok s \<longleftrightarrow> om_ok (allocatedByLva s) \<and>
     (\<forall>(l, i) \<in> set (allocatedByLva s). l = lva i \<and> (l \<noteq> 0 \<longrightarrow> i \<in> segs s)) \<and>
     (\<forall>i \<in> segs s. lva i \<noteq> 0 \<longrightarrow> (lva i, i) \<in> set (allocatedByLva s))"

definition by_type_ok :: "HybmVaManager \<Rightarrow> bool" where
  "by_type_ok s \<longleftrightarrow> um_ok (allocatedByMemType s) \<and>
     (\<forall>t. set (type_list s t) = {i \<in> segs s. memType i = t})"

definition alloc_inv :: "HybmVaManager \<Rightarrow> bool" where
  "alloc_inv s \<longleftrightarrow> by_gva_ok s \<and> by_lva_ok s \<and> by_type_ok s"

lemma unat_plus_span: "unat (a :: u64) + unat n < 2 ^ 64 \<Longrightarrow> unat (a + n) = unat a + unat n"
  by (simp add: unat_plus_if')

lemma Contains_iff: "seg_ok i \<Longrightarrow> Contains i a \<longleftrightarrow> unat a \<in> span (gva i) (gsize i)"
  by (simp add: Contains_def seg_ok_def span_def word_le_nat_alt word_less_nat_alt unat_plus_span)

lemma ContainsByLva_iff:
  "seg_ok i \<Longrightarrow> ContainsByLva i a \<longleftrightarrow> lva i \<noteq> 0 \<and> unat a \<in> span (lva i) (gsize i)"
  by (auto simp: ContainsByLva_def seg_ok_def span_def word_le_nat_alt word_less_nat_alt unat_plus_span)

lemma seg_ok_nonempty: "seg_ok i \<Longrightarrow> 0 < unat (gsize i)"
  by (auto simp: seg_ok_def unat_gt_0)

lemma seg_apart_sym: "seg_apart i j \<longleftrightarrow> seg_apart j i"
  by (auto simp: seg_apart_def Int_commute)

lemma span_disjoint:
  assumes "span a m \<inter> span b n = {}" and "0 < unat m" and "0 < unat n"
  shows "unat a + unat m \<le> unat b \<or> unat b + unat n \<le> unat a"
proof (rule ccontr)
  assume "\<not> ?thesis"
  then have "max (unat a) (unat b) \<in> span a m \<inter> span b n"
    using assms(2,3) by (auto simp: span_def)
  with assms(1) show False
    by simp
qed

lemma by_gva_lookup:
  assumes "by_gva_ok s"
  shows "map_of (allocatedByGva s) g = Some i \<longleftrightarrow> i \<in> segs s \<and> gva i = g"
  using assms om_mem_iff [of "allocatedByGva s" g i] by (fastforce simp: by_gva_ok_def segs_def)

lemma by_gva_segD:
  assumes "by_gva_ok s" and "i \<in> segs s"
  shows "(gva i, i) \<in> set (allocatedByGva s)" and "seg_ok i"
  using assms by (fastforce simp: by_gva_ok_def segs_def)+

lemma by_gva_entry: "by_gva_ok s \<Longrightarrow> (k, i) \<in> set (allocatedByGva s) \<Longrightarrow> k = gva i \<and> i \<in> segs s"
  by (force simp: by_gva_ok_def segs_def)

lemma by_gva_apart: "by_gva_ok s \<Longrightarrow> i \<in> segs s \<Longrightarrow> j \<in> segs s \<Longrightarrow> i \<noteq> j \<Longrightarrow> seg_apart i j"
  by (simp add: by_gva_ok_def)

text \<open>The step back from \<open>upper_bound\<close> finds the segment an address lies in.\<close>

lemma span_start: "0 < unat n \<Longrightarrow> unat a \<in> span a n"
  by (simp add: span_def)

lemma om_floor_span:
  assumes "om_ok m" and "(k, i) \<in> set m" and "unat a \<in> span k n"
    and "\<And>k' j. (k', j) \<in> set m \<Longrightarrow> k' \<noteq> k \<Longrightarrow> unat k' \<notin> span k n"
  shows "om_floor a m = Some (k, i)"
proof (rule om_floorI [OF assms(1,2)])
  show "fst (k, i) \<le> a"
    using assms(3) by (simp add: span_def word_le_nat_alt)
  fix f assume "f \<in> set m" and "fst f \<le> a"
  with assms(3) assms(4) [of "fst f" "snd f"] show "fst f \<le> fst (k, i)"
    by (cases "fst f = k") (auto simp: span_def word_le_nat_alt)
qed

lemma floor_gva:
  assumes "by_gva_ok s" and "i \<in> segs s" and "unat a \<in> span (gva i) (gsize i)"
  shows "om_floor a (allocatedByGva s) = Some (gva i, i)"
proof (rule om_floor_span [OF _ by_gva_segD(1) [OF assms(1,2)] assms(3)])
  show "om_ok (allocatedByGva s)"
    using assms(1) by (simp add: by_gva_ok_def)
  fix k j assume "(k, j) \<in> set (allocatedByGva s)" and "k \<noteq> gva i"
  moreover from this have "j \<in> segs s" "k = gva j" "seg_ok j"
    using assms(1) by (force simp: by_gva_ok_def segs_def)+
  ultimately show "unat k \<notin> span (gva i) (gsize i)"
    using by_gva_apart [OF assms(1,2), of j] span_start [OF seg_ok_nonempty] by (auto simp: seg_apart_def)
qed

lemma floor_lva:
  assumes "by_gva_ok s" and "by_lva_ok s" and "i \<in> segs s" and "lva i \<noteq> 0"
    and "unat a \<in> span (lva i) (gsize i)"
  shows "om_floor a (allocatedByLva s) = Some (lva i, i)"
proof (rule om_floor_span [OF _ _ assms(5)])
  show "om_ok (allocatedByLva s)" and "(lva i, i) \<in> set (allocatedByLva s)"
    using assms by (auto simp: by_lva_ok_def)
  fix k j assume kj: "(k, j) \<in> set (allocatedByLva s)" and "k \<noteq> lva i"
  show "unat k \<notin> span (lva i) (gsize i)"
  proof (cases "k = 0")
    case True
    with assms(4) show ?thesis
      by (simp add: span_def unat_eq_0)
  next
    case False
    with kj assms(2) have "j \<in> segs s" "k = lva j"
      by (auto simp: by_lva_ok_def)
    with False \<open>k \<noteq> lva i\<close> assms(4) by_gva_apart [OF assms(1,3), of j]
      span_start [OF seg_ok_nonempty [OF by_gva_segD(2) [OF assms(1), of j]], of "lva j"]
    show ?thesis
      by (auto simp: seg_apart_def)
  qed
qed

lemma floor_gva_segs:
  "by_gva_ok s \<Longrightarrow> om_floor a (allocatedByGva s) = Some (k, i) \<Longrightarrow> i \<in> segs s"
  by (force simp: segs_def by_gva_ok_def dest: om_floor_SomeD)

text \<open>What the translations compute, by the segment an address lies in.\<close>

lemma GetLvaByGva_in:
  assumes "alloc_inv s" and "i \<in> segs s" and "unat a \<in> span (gva i) (gsize i)"
  shows "GetLvaByGva a s = lva i + (a - gva i)"
proof -
  have g: "by_gva_ok s"
    using assms(1) by (simp add: alloc_inv_def)
  have "a \<noteq> 0"
    using assms(3) by_gva_segD(2) [OF g assms(2)] by (auto simp: span_def seg_ok_def unat_eq_0)
  with floor_gva [OF g assms(2,3)] assms(3) by_gva_segD(2) [OF g assms(2)] show ?thesis
    by (simp add: GetLvaByGva_def Contains_iff)
qed

lemma GetGvaByLva_in:
  assumes "alloc_inv s" and "i \<in> segs s" and "lva i \<noteq> 0" and "unat a \<in> span (lva i) (gsize i)"
  shows "GetGvaByLva a s = gva i + (a - lva i)"
proof -
  have g: "by_gva_ok s" "by_lva_ok s"
    using assms(1) by (simp_all add: alloc_inv_def)
  have "a \<noteq> 0"
    using assms(3,4) by (auto simp: span_def unat_eq_0)
  with floor_lva [OF g assms(2,3,4)] assms(3,4) by_gva_segD(2) [OF g(1) assms(2)] show ?thesis
    by (simp add: GetGvaByLva_def ContainsByLva_iff)
qed

text \<open>The offset of an address survives the move from one base to the other.\<close>

lemma span_shift:
  assumes "unat a \<in> span (b :: u64) n" and "unat c + unat n < 2 ^ 64"
  shows "unat (c + (a - b)) \<in> span c n"
proof -
  have "b \<le> a" and off: "unat (a - b) < unat n"
    using assms(1) by (auto simp: span_def word_le_nat_alt unat_sub)
  then have "unat (c + (a - b)) = unat c + unat (a - b)"
    using assms(2) by (simp add: unat_plus_if')
  with off show ?thesis
    by (simp add: span_def)
qed

section \<open>Adding and removing segments\<close>

lemma overlap_iff:
  assumes "unat g + unat n < 2 ^ 64" and "0 < unat n" and "seg_ok i"
  shows "(g \<ge> gva i \<and> g < End i) \<or> (g \<le> gva i \<and> g + n > gva i) \<longleftrightarrow>
    span g n \<inter> span (gva i) (gsize i) \<noteq> {}"
proof -
  have e: "unat (End i) = unat (gva i) + unat (gsize i)" "unat (g + n) = unat g + unat n"
    using assms(1,3) by (simp_all add: End_def seg_ok_def unat_plus_span)
  show ?thesis (is "?l \<longleftrightarrow> ?r")
  proof
    assume ?l
    then have "max (unat g) (unat (gva i)) \<in> span g n \<inter> span (gva i) (gsize i)"
      using assms(2) seg_ok_nonempty [OF assms(3)]
      by (auto simp: span_def word_le_nat_alt word_less_nat_alt e)
    then show ?r
      by blast
  next
    assume ?r
    then show ?l
      by (auto simp: span_def word_le_nat_alt word_less_nat_alt e)
  qed
qed

lemma fst_find:
  "fst (case find P l of None \<Rightarrow> (False, d) | Some i \<Rightarrow> (True, i)) \<longleftrightarrow> (\<exists>i \<in> set l. P i)"
  by (induction l) auto

lemma CheckOverlap_iff:
  assumes "alloc_inv s" and "unat g + unat n < 2 ^ 64" and "0 < unat n"
  shows "fst (CheckOverlap g n t s) \<longleftrightarrow>
    (\<exists>i \<in> segs s. memType i = t \<and> span g n \<inter> span (gva i) (gsize i) \<noteq> {})"
proof -
  let ?l = "type_list s t"
  let ?P = "\<lambda>i. (g \<ge> gva i \<and> g < End i) \<or> (g \<le> gva i \<and> g + n > gva i)"
  have l: "set ?l = {i \<in> segs s. memType i = t}"
    using assms(1) by (simp add: alloc_inv_def by_type_ok_def)
  have "fst (CheckOverlap g n t s) \<longleftrightarrow> (\<exists>i \<in> set ?l. ?P i)"
    by (cases "map_of (allocatedByMemType s) t")
      (simp_all add: CheckOverlap_def Let_def type_list_def fst_find)
  also have "\<dots> \<longleftrightarrow> (\<exists>i \<in> set ?l. span g n \<inter> span (gva i) (gsize i) \<noteq> {})"
  proof (rule bex_cong [OF refl])
    fix i assume "i \<in> set ?l"
    then have "seg_ok i"
      using l assms(1) by_gva_segD(2) by (auto simp: alloc_inv_def)
    then show "?P i \<longleftrightarrow> span g n \<inter> span (gva i) (gsize i) \<noteq> {}"
      by (rule overlap_iff [OF assms(2,3)])
  qed
  finally show ?thesis
    using l by auto
qed

lemma CheckOverlap_info: "\<not> fst (CheckOverlap g n t s) \<Longrightarrow> snd (CheckOverlap g n t s) = no_info"
  by (auto simp: CheckOverlap_def Let_def split: option.splits)

lemma AddVaInfo_fresh:
  assumes "alloc_inv s" and "seg_ok i" and "\<forall>j \<in> segs s. seg_apart i j"
  shows "AddVaInfo i s = (BM_OK, s\<lparr>allocatedByGva := om_set (gva i) i (allocatedByGva s),
    allocatedByLva := om_set (lva i) i (allocatedByLva s),
    allocatedByMemType := um_set (memType i) (type_list s (memType i) @ [i]) (allocatedByMemType s)\<rparr>)"
proof -
  have "\<not> fst (CheckOverlap (gva i) (gsize i) (memType i) s)"
    using CheckOverlap_iff [OF assms(1), of "gva i" "gsize i"] assms(2,3) seg_ok_nonempty [OF assms(2)]
    by (auto simp: seg_ok_def seg_apart_def)
  with CheckOverlap_info [OF this] assms(2) show ?thesis
    by (auto simp: AddVaInfo_def Let_def seg_ok_def same_info_def no_info_def)
qed

lemma segs_absent:
  assumes "alloc_inv s" and "seg_ok i" and "\<forall>j \<in> segs s. seg_apart i j" and "j \<in> segs s"
  shows "gva j \<noteq> gva i" and "lva i \<noteq> 0 \<Longrightarrow> lva j \<noteq> lva i"
proof -
  have "seg_ok j"
    using assms(1,4) by_gva_segD(2) by (auto simp: alloc_inv_def)
  with assms(2) have "0 < unat (gsize i)" "0 < unat (gsize j)"
    by (simp_all add: seg_ok_nonempty)
  then have "span a (gsize i) \<inter> span a (gsize j) \<noteq> {}" for a
    using span_start by blast
  with assms(3,4) show "gva j \<noteq> gva i" and "lva i \<noteq> 0 \<Longrightarrow> lva j \<noteq> lva i"
    by (auto simp: seg_apart_def)
qed

lemma segs_add:
  assumes "by_gva_ok s" and "\<forall>j \<in> segs s. gva j \<noteq> g"
  shows "snd ` set (om_set g i (allocatedByGva s)) = insert i (segs s)"
proof -
  have "{e \<in> set (allocatedByGva s). fst e \<noteq> g} = set (allocatedByGva s)"
    using assms(2) by_gva_entry [OF assms(1)] by fastforce
  moreover have "om_ok (allocatedByGva s)"
    using assms(1) by (simp add: by_gva_ok_def)
  ultimately show ?thesis
    by (simp add: set_om_set segs_def)
qed

lemma segs_remove:
  "by_gva_ok s \<Longrightarrow> snd ` set (om_erase g (allocatedByGva s)) = {i \<in> segs s. gva i \<noteq> g}"
  by (force simp: segs_def by_gva_ok_def)

lemma AddVaInfo_keeps:
  assumes "alloc_inv s" and "seg_ok i" and "\<forall>j \<in> segs s. seg_apart i j" and "AddVaInfo i s = (r, t)"
  shows "r = BM_OK" and "segs t = insert i (segs s)" and "alloc_inv t" and "reservedByGva t = reservedByGva s"
proof -
  have inv: "by_gva_ok s" "by_lva_ok s" "by_type_ok s"
    using assms(1) by (simp_all add: alloc_inv_def)
  have ok: "om_ok (allocatedByGva s)" "om_ok (allocatedByLva s)" "um_ok (allocatedByMemType s)"
    using inv by (simp_all add: by_gva_ok_def by_lva_ok_def by_type_ok_def)
  have t: "t = s\<lparr>allocatedByGva := om_set (gva i) i (allocatedByGva s),
      allocatedByLva := om_set (lva i) i (allocatedByLva s),
      allocatedByMemType := um_set (memType i) (type_list s (memType i) @ [i]) (allocatedByMemType s)\<rparr>"
    and r: "r = BM_OK"
    using AddVaInfo_fresh [OF assms(1-3)] assms(4) by simp_all
  show "r = BM_OK" and "reservedByGva t = reservedByGva s"
    using r t by simp_all
  note absent = segs_absent [OF assms(1-3)]
  have sym: "\<forall>j \<in> segs s. seg_apart j i"
    using assms(3) seg_apart_sym by blast
  show segs: "segs t = insert i (segs s)"
    using segs_add [OF inv(1), of "gva i" i] absent(1) by (simp add: t segs_def)
  have "by_gva_ok t"
    unfolding by_gva_ok_def segs
  proof (intro conjI)
    show "om_ok (allocatedByGva t)"
      by (simp add: t ok om_ok_om_set)
    show "\<forall>(k, j) \<in> set (allocatedByGva t). k = gva j \<and> seg_ok j"
      using inv(1) assms(2) by (auto simp: t set_om_set [OF ok(1)] by_gva_ok_def)
    show "\<forall>j \<in> insert i (segs s). \<forall>k \<in> insert i (segs s). j \<noteq> k \<longrightarrow> seg_apart j k"
      using inv(1) assms(3) sym by (auto simp: by_gva_ok_def)
  qed
  moreover have "by_lva_ok t"
    unfolding by_lva_ok_def segs
  proof (intro conjI)
    show "om_ok (allocatedByLva t)"
      by (simp add: t ok om_ok_om_set)
    show "\<forall>(l, j) \<in> set (allocatedByLva t). l = lva j \<and> (l \<noteq> 0 \<longrightarrow> j \<in> insert i (segs s))"
      using inv(2) by (auto simp: t set_om_set [OF ok(2)] by_lva_ok_def)
    show "\<forall>j \<in> insert i (segs s). lva j \<noteq> 0 \<longrightarrow> (lva j, j) \<in> set (allocatedByLva t)"
      using inv(2) absent(2) by (auto simp: t set_om_set [OF ok(2)] by_lva_ok_def)
  qed
  moreover have "by_type_ok t"
  proof -
    have "type_list t u = (if u = memType i then type_list s u @ [i] else type_list s u)" for u
      by (simp add: t type_list_def)
    moreover have "um_ok (allocatedByMemType t)"
      using um_ok_um_set [OF ok(3)] by (simp add: t)
    ultimately show ?thesis
      using inv(3) by (auto simp: by_type_ok_def segs)
  qed
  ultimately show "alloc_inv t"
    by (simp add: alloc_inv_def)
qed

lemma RemoveOneVaInfo_cases:
  assumes "RemoveOneVaInfo va s = Some t"
  obtains "t = s" | g i where "map_of (allocatedByGva s) g = Some i" "t = drop_seg g i s"
  using assms that by (auto simp: RemoveOneVaInfo_def Let_def bind_eq_Some_conv split: if_splits option.splits)

lemma map_of_type_drop:
  "map_of (allocatedByMemType (drop_seg g i s)) =
     (case map_of (allocatedByMemType s) (memType i) of
        Some l \<Rightarrow> (map_of (allocatedByMemType s))(memType i :=
          if filter (\<lambda>i. gva i \<noteq> g) l = [] then None else Some (filter (\<lambda>i. gva i \<noteq> g) l))
      | None \<Rightarrow> map_of (allocatedByMemType s))"
  by (cases "map_of (allocatedByMemType s) (memType i)") (simp_all add: drop_seg_def)

lemma type_list_drop:
  "type_list (drop_seg g i s) t =
     (if t = memType i then filter (\<lambda>j. gva j \<noteq> g) (type_list s t) else type_list s t)"
  by (cases "map_of (allocatedByMemType s) (memType i)") (simp_all add: type_list_def map_of_type_drop)

lemma segs_drop:
  assumes "by_gva_ok s" and "map_of (allocatedByGva s) g = Some i"
  shows "segs (drop_seg g i s) = segs s - {i}"
proof -
  have i: "i \<in> segs s" "gva i = g"
    using by_gva_lookup [OF assms(1)] assms(2) by blast+
  have "j = i" if "j \<in> segs s" "gva j = g" for j
    using by_gva_lookup [OF assms(1)] assms(2) that by (metis option.inject)
  with i have "{j \<in> segs s. gva j \<noteq> g} = segs s - {i}"
    by blast
  moreover have "segs (drop_seg g i s) = snd ` set (om_erase g (allocatedByGva s))"
    by (simp add: segs_def drop_seg_def)
  ultimately show ?thesis
    by (simp only: segs_remove [OF assms(1)])
qed

lemma by_lva_lookup:
  assumes "by_lva_ok s" and "l \<noteq> 0"
  shows "map_of (allocatedByLva s) l = Some i \<longleftrightarrow> i \<in> segs s \<and> lva i = l"
  using assms om_mem_iff [of "allocatedByLva s" l i] by (fastforce simp: by_lva_ok_def)

lemma by_lva_okI:
  assumes "om_ok (allocatedByLva s)" and "\<And>i. map_of (allocatedByLva s) 0 = Some i \<Longrightarrow> lva i = 0"
    and "\<And>l i. l \<noteq> 0 \<Longrightarrow> map_of (allocatedByLva s) l = Some i \<longleftrightarrow> i \<in> segs s \<and> lva i = l"
  shows "by_lva_ok s"
proof -
  have "l = lva i \<and> (l \<noteq> 0 \<longrightarrow> i \<in> segs s)" if "(l, i) \<in> set (allocatedByLva s)" for l i
    using that assms by (cases "l = 0") (auto simp: om_mem_iff)
  moreover have "(lva i, i) \<in> set (allocatedByLva s)" if "i \<in> segs s" "lva i \<noteq> 0" for i
    using that assms(1,3) by (simp add: om_mem_iff)
  ultimately show ?thesis
    using assms(1) by (auto simp: by_lva_ok_def)
qed

lemma by_lva_zero: "by_lva_ok s \<Longrightarrow> map_of (allocatedByLva s) 0 = Some i \<Longrightarrow> lva i = 0"
  using om_mem_iff [of "allocatedByLva s" 0 i] by (fastforce simp: by_lva_ok_def)

lemma allocatedByLva_drop:
  "allocatedByLva (drop_seg g i s) =
     (case map_of (allocatedByLva s) (lva i) of
        Some j \<Rightarrow> if gva j = g then om_erase (lva i) (allocatedByLva s) else allocatedByLva s
      | None \<Rightarrow> allocatedByLva s)"
  by (simp add: drop_seg_def)

lemma drop_by_lva:
  assumes "by_lva_ok s" and "segs (drop_seg (gva i) i s) = segs s - {i}" and "i \<in> segs s"
  shows "by_lva_ok (drop_seg (gva i) i s)"
proof (rule by_lva_okI)
  let ?t = "drop_seg (gva i) i s"
  show "om_ok (allocatedByLva ?t)"
    using assms(1) by (auto simp: by_lva_ok_def allocatedByLva_drop om_ok_om_erase split: option.splits)
  show "lva j = 0" if "map_of (allocatedByLva ?t) 0 = Some j" for j
    using that by_lva_zero [OF assms(1), of j]
    by (auto simp: allocatedByLva_drop split: option.splits if_splits)
  show "map_of (allocatedByLva ?t) l = Some j \<longleftrightarrow> j \<in> segs ?t \<and> lva j = l" if "l \<noteq> 0" for l j
  proof (cases "lva i = l")
    case True
    with that have "map_of (allocatedByLva s) l = Some i"
      using by_lva_lookup [OF assms(1) that] assms(3) by blast
    moreover have "j = i" if "j \<in> segs s" "lva j = l"
      using by_lva_lookup [OF assms(1) \<open>l \<noteq> 0\<close>, of j] that calculation by simp
    ultimately show ?thesis
      using True assms(2) by (auto simp: allocatedByLva_drop)
  next
    case False
    then have "map_of (allocatedByLva ?t) l = map_of (allocatedByLva s) l"
      by (auto simp: allocatedByLva_drop split: option.split)
    with False show ?thesis
      using by_lva_lookup [OF assms(1) that] assms(2) by auto
  qed
qed

lemma drop_seg_keeps:
  assumes "alloc_inv s" and "map_of (allocatedByGva s) g = Some i"
  shows "alloc_inv (drop_seg g i s)"
proof -
  let ?t = "drop_seg g i s"
  have inv: "by_gva_ok s" "by_lva_ok s" "by_type_ok s"
    using assms(1) by (simp_all add: alloc_inv_def)
  have i: "i \<in> segs s" "gva i = g"
    using by_gva_lookup [OF inv(1)] assms(2) by blast+
  have uniq: "j = i" if "j \<in> segs s" "gva j = g" for j
    using by_gva_lookup [OF inv(1)] assms(2) that by (metis option.inject)
  note segs = segs_drop [OF inv(1) assms(2)]
  have "by_gva_ok ?t"
    using inv(1) unfolding by_gva_ok_def segs by (simp add: drop_seg_def om_ok_om_erase)
  moreover have "by_lva_ok ?t"
    using drop_by_lva [OF inv(2)] segs i by blast
  moreover have "um_ok (allocatedByMemType ?t)"
    using inv(3) by (auto simp: by_type_ok_def drop_seg_def um_ok_um_erase um_ok_um_set split: option.split)
  moreover have "set (type_list ?t u) = {j \<in> segs s - {i}. memType j = u}" for u
    using inv(3) uniq i(2) by (auto simp: type_list_drop by_type_ok_def)
  ultimately show ?thesis
    by (simp add: alloc_inv_def by_type_ok_def segs)
qed

section \<open>Reserving ranges\<close>

text \<open>\<open>fits_in ps n x\<close>: the \<open>n\<close> bytes from \<open>x\<close> meet none of the ranges.\<close>

definition fits_in :: "(u64 \<times> u64) list \<Rightarrow> u64 \<Rightarrow> nat \<Rightarrow> bool" where
  "fits_in ps n x \<longleftrightarrow> (\<forall>(a, b) \<in> set ps. x + unat n \<le> unat a \<or> unat b \<le> x)"

definition ranges_ok :: "u64 \<Rightarrow> (u64 \<times> u64) list \<Rightarrow> bool" where
  "ranges_ok cur ps \<longleftrightarrow> sorted_wrt (\<lambda>p q. snd p \<le> fst q) ps \<and> (\<forall>(a, b) \<in> set ps. cur \<le> a \<and> a \<le> b)"

lemma ranges_ok_Cons:
  "ranges_ok cur ((a, b) # ps) \<longleftrightarrow> cur \<le> a \<and> a \<le> b \<and> ranges_ok b ps"
  by (force simp: ranges_ok_def intro: order_trans)

lemma gap_unat: "a > cur \<and> a - cur \<ge> (n :: u64) \<longleftrightarrow> a > cur \<and> unat cur + unat n \<le> unat a"
  by (auto simp: word_less_nat_alt word_le_nat_alt unat_sub)

lemma fits_in_Cons:
  "fits_in ((a, b) # ps) n x \<longleftrightarrow> (x + unat n \<le> unat a \<or> unat b \<le> x) \<and> fits_in ps n x"
  by (simp add: fits_in_def)

lemma fits_in_before: "ranges_ok b ps \<Longrightarrow> x + unat n \<le> unat b \<Longrightarrow> fits_in ps n x"
  by (force simp: ranges_ok_def fits_in_def word_le_nat_alt)

text \<open>The scan stops at the lowest address from which \<open>n\<close> bytes are free.\<close>

lemma scan_gaps_first_fit:
  assumes "ranges_ok cur ps" and "0 < unat n"
  shows "case scan_gaps n ps cur of
      Inl c \<Rightarrow> cur \<le> c \<and> fits_in ps n (unat c) \<and> (\<exists>p \<in> set ps. unat c + unat n \<le> unat (fst p)) \<and>
        (\<forall>x \<ge> unat cur. fits_in ps n x \<longrightarrow> unat c \<le> x)
    | Inr c \<Rightarrow> cur \<le> c \<and> fits_in ps n (unat c) \<and> (c = cur \<or> c \<in> snd ` set ps) \<and>
        (\<forall>x \<ge> unat cur. fits_in ps n x \<longrightarrow> unat c \<le> x)"
  using assms
proof (induction ps arbitrary: cur)
  case Nil
  then show ?case
    by (simp add: fits_in_def)
next
  case (Cons p ps)
  obtain a b where p: "p = (a, b)"
    by (cases p)
  have ok: "cur \<le> a" "a \<le> b" "ranges_ok b ps"
    using Cons.prems p by (simp_all add: ranges_ok_Cons)
  show ?case
  proof (cases "a > cur \<and> a - cur \<ge> n")
    case True
    then have "unat cur + unat n \<le> unat a"
      by (simp only: gap_unat)
    moreover from this ok have "fits_in ps n (unat cur)"
      by (intro fits_in_before [of b]) (auto simp: word_le_nat_alt)
    ultimately show ?thesis
      using True p by (simp add: fits_in_Cons)
  next
    case False
    have small: "\<not> unat cur + unat n \<le> unat a"
    proof
      assume "unat cur + unat n \<le> unat a"
      moreover from this have "cur < a"
        using Cons.prems(2) by (simp add: word_less_nat_alt)
      ultimately show False
        using False gap_unat by blast
    qed
    have "(if b > cur then b else cur) = b"
      using ok by (auto simp: word_less_nat_alt word_le_nat_alt intro: unsigned_word_eqI [where 'a = nat])
    then have s: "scan_gaps n (p # ps) cur = scan_gaps n ps b"
      using False p by auto
    have "cur \<le> b"
      using ok by order
    moreover have "unat b \<le> x \<and> fits_in ps n x" if "unat cur \<le> x" "fits_in (p # ps) n x" for x
      using that small p by (auto simp: fits_in_Cons)
    moreover have "fits_in (p # ps) n (unat c)" if "b \<le> c" "fits_in ps n (unat c)" for c
      using that p by (simp add: fits_in_Cons word_le_nat_alt)
    ultimately show ?thesis
      using Cons.IH [OF ok(3) Cons.prems(2)] unfolding s
      by (cases "scan_gaps n ps b") (auto simp: p intro: order_trans)
  qed
qed

text \<open>The reserved ranges lie in the window and keep apart.\<close>

definition reserved :: "HybmVaManager \<Rightarrow> ReservedGvaInfo set" where
  "reserved s = snd ` set (reservedByGva s)"

definition window :: "HybmVaManager \<Rightarrow> bool" where
  "window s \<longleftrightarrow> reserveStart s = HYBM_GVM_START_ADDR \<and> reserveEnd s = HYBM_GVM_END_ADDR"

definition res_inv :: "HybmVaManager \<Rightarrow> bool" where
  "res_inv s \<longleftrightarrow> window s \<and> om_ok (reservedByGva s) \<and>
     (\<forall>(k, r) \<in> set (reservedByGva s). k = resStart r \<and> resSize r \<noteq> 0 \<and> reserveStart s \<le> k \<and>
        unat k + unat (resSize r) \<le> unat (reserveEnd s)) \<and>
     (\<forall>q \<in> reserved s. \<forall>r \<in> reserved s. q \<noteq> r \<longrightarrow>
        span (resStart q) (resSize q) \<inter> span (resStart r) (resSize r) = {})"

definition used :: "HybmVaManager \<Rightarrow> (u64 \<times> u64) list" where
  "used s = map (\<lambda>(_, r). (resStart r, reserved_End r)) (reservedByGva s)"

lemma res_entry:
  assumes "res_inv s" and "(k, r) \<in> set (reservedByGva s)"
  shows "k = resStart r" and "r \<in> reserved s" and "0 < unat (resSize r)" and "reserveStart s \<le> resStart r"
    and "unat (resStart r) + unat (resSize r) \<le> unat (reserveEnd s)"
    and "unat (reserved_End r) = unat (resStart r) + unat (resSize r)"
proof -
  show k: "k = resStart r" and "r \<in> reserved s" and "0 < unat (resSize r)" "reserveStart s \<le> resStart r"
    and e: "unat (resStart r) + unat (resSize r) \<le> unat (reserveEnd s)"
    using assms by (force simp: res_inv_def reserved_def unat_gt_0)+
  have "unat (reserveEnd s) < 2 ^ 64"
    using unsigned_less [of "reserveEnd s", where 'a = nat] by simp
  with e have "unat (resStart r) + unat (resSize r) < 2 ^ 64"
    by (rule le_less_trans)
  then show "unat (reserved_End r) = unat (resStart r) + unat (resSize r)"
    unfolding reserved_End_def by (rule unat_plus_span)
qed

lemma res_order:
  assumes "res_inv s" and "(a, q) \<in> set (reservedByGva s)" and "(b, r) \<in> set (reservedByGva s)" and "a < b"
  shows "reserved_End q \<le> resStart r"
proof -
  have "q \<noteq> r"
    using res_entry(1) [OF assms(1,2)] res_entry(1) [OF assms(1,3)] assms(4) by auto
  then have "span (resStart q) (resSize q) \<inter> span (resStart r) (resSize r) = {}"
    using assms(1) res_entry(2) [OF assms(1)] assms(2,3) unfolding res_inv_def by blast
  from span_disjoint [OF this res_entry(3) [OF assms(1,2)] res_entry(3) [OF assms(1,3)]]
  show ?thesis
    using assms(4) res_entry [OF assms(1,2)] res_entry [OF assms(1,3)]
    by (auto simp: word_le_nat_alt word_less_nat_alt)
qed

lemma used_ok:
  assumes "res_inv s"
  shows "ranges_ok (reserveStart s) (used s)" and "sorted (used s)"
proof -
  have o: "sorted_wrt (\<lambda>x y. fst x < fst y) (reservedByGva s)"
    using assms by (simp add: res_inv_def om_ok_def sorted_wrt_map)
  have "sorted_wrt (\<lambda>x y. reserved_End (snd x) \<le> resStart (snd y)) (reservedByGva s)"
    by (rule sorted_wrt_mono_rel [OF _ o]) (metis res_order [OF assms] prod.collapse)
  moreover have "reserveStart s \<le> resStart r \<and> resStart r \<le> reserved_End r"
    if "(k, r) \<in> set (reservedByGva s)" for k r
    using res_entry [OF assms that] by (simp add: word_le_nat_alt)
  ultimately show "ranges_ok (reserveStart s) (used s)"
    by (auto simp: ranges_ok_def used_def sorted_wrt_map split_beta)
  have "sorted_wrt (\<lambda>x y. resStart (snd x) < resStart (snd y)) (reservedByGva s)"
    by (rule sorted_wrt_mono_rel [OF _ o]) (metis res_entry(1) [OF assms] prod.collapse)
  then show "sorted (used s)"
    by (auto simp: used_def sorted_map split_beta less_eq_prod_def elim: sorted_wrt_mono_rel [rotated])
qed

lemma usedRanges_all:
  assumes "res_inv s"
  shows "map (\<lambda>(_, r). (resStart r, reserved_End r))
    (filter (\<lambda>(_, r). resStart r \<ge> reserveStart s \<and> resStart r < reserveEnd s) (reservedByGva s)) = used s"
proof -
  have "resStart r \<ge> reserveStart s \<and> resStart r < reserveEnd s" if "(k, r) \<in> set (reservedByGva s)" for k r
    using res_entry [OF assms that] by (simp add: word_less_nat_alt)
  then show ?thesis
    unfolding used_def by (subst filter_True) auto
qed

lemma FindFreeSpace_used:
  assumes "res_inv s" and "n \<noteq> 0"
  shows "FindFreeSpace (reserveStart s) (reserveEnd s) n s =
    (if n > reserveEnd s - reserveStart s then (0, False)
     else case scan_gaps n (used s) (reserveStart s) of
       Inl a \<Rightarrow> (a, True)
     | Inr c \<Rightarrow> if reserveEnd s - c \<ge> n then (c, True) else (0, False))"
proof -
  have "\<not> reserveStart s \<ge> reserveEnd s"
    using assms(1) by (simp add: res_inv_def window_def)
  moreover have "sort (used s) = used s"
    by (rule sorted_sort_id [OF used_ok(2) [OF assms(1)]])
  ultimately show ?thesis
    using assms(2) by (auto simp: FindFreeSpace_def usedRanges_all [OF assms(1)] Let_def)
qed

definition fits :: "HybmVaManager \<Rightarrow> u64 \<Rightarrow> nat \<Rightarrow> bool" where
  "fits s n x \<longleftrightarrow> unat (reserveStart s) \<le> x \<and> x + unat n \<le> unat (reserveEnd s) \<and>
     (\<forall>q \<in> reserved s. {x ..< x + unat n} \<inter> span (resStart q) (resSize q) = {})"

lemma interval_apart:
  "0 < (m :: nat) \<Longrightarrow> 0 < n \<Longrightarrow> {x ..< x + m} \<inter> {y ..< y + n} = {} \<longleftrightarrow> x + m \<le> y \<or> y + n \<le> x"
  by (auto simp: disjoint_iff)

lemma fits_used:
  assumes "res_inv s" and "n \<noteq> 0"
  shows "fits s n x \<longleftrightarrow> unat (reserveStart s) \<le> x \<and> x + unat n \<le> unat (reserveEnd s) \<and> fits_in (used s) n x"
proof -
  have n: "0 < unat n"
    using assms(2) by (simp add: unat_gt_0)
  have "{x ..< x + unat n} \<inter> span (resStart r) (resSize r) = {} \<longleftrightarrow>
      x + unat n \<le> unat (resStart r) \<or> unat (reserved_End r) \<le> x"
    if "(k, r) \<in> set (reservedByGva s)" for k r
    using interval_apart [OF n res_entry(3) [OF assms(1) that]] res_entry(6) [OF assms(1) that]
    by (simp add: span_def)
  then have "(\<forall>q \<in> reserved s. {x ..< x + unat n} \<inter> span (resStart q) (resSize q) = {}) \<longleftrightarrow> fits_in (used s) n x"
    by (simp add: reserved_def fits_in_def used_def split_beta) (metis prod.collapse)
  then show ?thesis
    by (simp add: fits_def)
qed

lemma FindFreeSpace_first_fit:
  assumes "res_inv s" and "n \<noteq> 0"
  shows "case FindFreeSpace (reserveStart s) (reserveEnd s) n s of
    (a, found) \<Rightarrow> if found then fits s n (unat a) \<and> (\<forall>x. fits s n x \<longrightarrow> unat a \<le> x) else \<forall>x. \<not> fits s n x"
proof (cases "n > reserveEnd s - reserveStart s")
  case True
  moreover have "reserveStart s \<le> reserveEnd s"
    using assms(1) by (simp add: res_inv_def window_def)
  ultimately have "\<not> fits s n x" for x
    by (auto simp: fits_def word_less_nat_alt unat_sub)
  with True show ?thesis
    by (simp add: FindFreeSpace_used [OF assms])
next
  case False
  have n: "0 < unat n"
    using assms(2) by (simp add: unat_gt_0)
  have "unat (resStart r) \<le> unat (reserveEnd s) \<and> unat (reserved_End r) \<le> unat (reserveEnd s)"
    if "(k, r) \<in> set (reservedByGva s)" for k r
    using res_entry [OF assms(1) that] by simp
  then have within: "\<forall>p \<in> set (used s). unat (fst p) \<le> unat (reserveEnd s) \<and> unat (snd p) \<le> unat (reserveEnd s)"
    by (auto simp: used_def)
  note first = scan_gaps_first_fit [OF used_ok(1) [OF assms(1)] n]
  show ?thesis
  proof (cases "scan_gaps n (used s) (reserveStart s)")
    case (Inl c)
    with first obtain p where "p \<in> set (used s)" "unat c + unat n \<le> unat (fst p)"
      by auto
    with within have "unat c + unat n \<le> unat (reserveEnd s)"
      by (meson order_trans)
    moreover have "unat (reserveStart s) \<le> unat c" and "fits_in (used s) n (unat c)"
      and "\<forall>x \<ge> unat (reserveStart s). fits_in (used s) n x \<longrightarrow> unat c \<le> x"
      using first by (simp_all add: Inl word_le_nat_alt)
    moreover have "FindFreeSpace (reserveStart s) (reserveEnd s) n s = (c, True)"
      using False by (simp add: FindFreeSpace_used [OF assms] Inl)
    ultimately show ?thesis
      by (simp add: fits_used [OF assms])
  next
    case (Inr c)
    have "c \<le> reserveEnd s"
      using first within assms(1) by (auto simp: Inr word_le_nat_alt res_inv_def window_def)
    then have "n \<le> reserveEnd s - c \<longleftrightarrow> unat c + unat n \<le> unat (reserveEnd s)"
      by (auto simp: word_le_nat_alt unat_sub)
    then have "FindFreeSpace (reserveStart s) (reserveEnd s) n s =
        (if unat c + unat n \<le> unat (reserveEnd s) then (c, True) else (0, False))"
      using False by (simp add: FindFreeSpace_used [OF assms] Inr)
    moreover have "unat (reserveStart s) \<le> unat c" and "fits_in (used s) n (unat c)"
      and le: "\<forall>x \<ge> unat (reserveStart s). fits_in (used s) n x \<longrightarrow> unat c \<le> x"
      using first by (simp_all add: Inr word_le_nat_alt)
    moreover have "\<not> fits s n x" if "\<not> unat c + unat n \<le> unat (reserveEnd s)" for x
    proof
      assume "fits s n x"
      then have "unat c \<le> x" and "x + unat n \<le> unat (reserveEnd s)"
        using le by (simp_all add: fits_used [OF assms])
      with that show False
        by simp
    qed
    ultimately show ?thesis
      by (simp add: fits_used [OF assms])
  qed
qed

lemma om_set_fresh: "om_ok m \<Longrightarrow> map_of m k = None \<Longrightarrow> set (om_set k v m) = insert (k, v) (set m)"
  by (force simp: set_om_set map_of_eq_None_iff image_iff)

lemma fits_fresh:
  assumes "res_inv s" and "n \<noteq> 0" and "fits s n (unat a)"
  shows "map_of (reservedByGva s) a = None"
proof (rule ccontr)
  assume "map_of (reservedByGva s) a \<noteq> None"
  then obtain q where q: "(a, q) \<in> set (reservedByGva s)"
    using map_of_SomeD by fastforce
  have "unat a \<in> {unat a ..< unat a + unat n} \<inter> span (resStart q) (resSize q)"
    using res_entry(1,3) [OF assms(1) q] assms(2) by (simp add: span_def unat_gt_0)
  with assms(3) res_entry(2) [OF assms(1) q] show False
    by (auto simp: fits_def)
qed

lemma res_inv_insert:
  assumes "res_inv s" and "n \<noteq> 0" and "fits s n (unat a)" and r: "resStart r = a" "resSize r = n"
  shows "reserved (s\<lparr>reservedByGva := om_set a r (reservedByGva s)\<rparr>) = insert r (reserved s)"
    and "res_inv (s\<lparr>reservedByGva := om_set a r (reservedByGva s)\<rparr>)"
proof -
  let ?t = "s\<lparr>reservedByGva := om_set a r (reservedByGva s)\<rparr>"
  have inv: "window s" "om_ok (reservedByGva s)"
    using assms(1) by (simp_all add: res_inv_def)
  note set = om_set_fresh [OF inv(2) fits_fresh [OF assms(1-3)], of r]
  show res: "reserved ?t = insert r (reserved s)"
    by (simp add: reserved_def set)
  have new: "span (resStart r) (resSize r) \<inter> span (resStart q) (resSize q) = {}" if "q \<in> reserved s" for q
    using assms(3) that by (simp add: fits_def span_def r)
  show "res_inv ?t"
    unfolding res_inv_def res
  proof (intro conjI)
    show "window ?t" and "om_ok (reservedByGva ?t)"
      using inv by (simp_all add: window_def om_ok_om_set)
    show "\<forall>(k, q) \<in> set (reservedByGva ?t). k = resStart q \<and> resSize q \<noteq> 0 \<and> reserveStart ?t \<le> k \<and>
        unat k + unat (resSize q) \<le> unat (reserveEnd ?t)"
      using assms by (auto simp: set res_inv_def fits_def word_le_nat_alt)
    show "\<forall>q \<in> insert r (reserved s). \<forall>p \<in> insert r (reserved s). q \<noteq> p \<longrightarrow>
        span (resStart q) (resSize q) \<inter> span (resStart p) (resSize p) = {}"
      using assms(1) new by (auto simp: res_inv_def Int_commute)
  qed
qed

lemma AllocReserveGva_cases:
  assumes "res_inv s" and "n \<noteq> 0" and "AllocReserveGva rank n type s = (r, t)"
  obtains "\<forall>x. \<not> fits s n x" "t = s" "resSize r = 0"
  | "fits s n (unat (resStart r))" "\<forall>x. fits s n x \<longrightarrow> unat (resStart r) \<le> x"
    "r = \<lparr>resStart = resStart r, resSize = n, resMemType = type, resRank = rank\<rparr>"
    "t = s\<lparr>reservedByGva := om_set (resStart r) r (reservedByGva s)\<rparr>"
  using FindFreeSpace_first_fit [OF assms(1,2)] assms(2,3) that
  by (auto simp: AllocReserveGva_def Let_def split: prod.splits if_splits)

lemma AllocReserveGva_keeps:
  assumes "res_inv s" and "AllocReserveGva rank n type s = (r, t)"
  shows "res_inv t"
proof (cases "n = 0")
  case True
  with assms show ?thesis
    by (simp add: AllocReserveGva_def)
next
  case False
  from AllocReserveGva_cases [OF assms(1) this assms(2)] show ?thesis
    using assms(1) res_inv_insert(2) [OF assms(1) False]
    by (metis ReservedGvaInfo.select_convs(2))
qed

lemma FreeReserveGva_keeps: "res_inv s \<Longrightarrow> res_inv (FreeReserveGva a s)"
  by (auto simp: FreeReserveGva_def res_inv_def reserved_def window_def om_ok_om_erase split: option.split)

section \<open>Histories of the manager\<close>

text \<open>
  What callers owe: segments do not wrap around, keep apart from segments of the other memory type,
  and segments with different global addresses have different local ones. That segments of one type
  keep apart is checked by \<open>AddVaInfo\<close>.
\<close>

definition admissible :: "AllocatedGvaInfo \<Rightarrow> HybmVaManager \<Rightarrow> bool" where
  "admissible i s \<longleftrightarrow> seg_ok i \<and> (\<forall>j \<in> segs s.
     (memType j \<noteq> memType i \<longrightarrow> span (gva i) (gsize i) \<inter> span (gva j) (gsize j) = {}) \<and>
     (lva i \<noteq> 0 \<longrightarrow> lva j \<noteq> 0 \<longrightarrow> span (gva i) (gsize i) \<inter> span (gva j) (gsize j) = {} \<longrightarrow>
        span (lva i) (gsize i) \<inter> span (lva j) (gsize j) = {}))"

inductive va_reach :: "HybmVaManager \<Rightarrow> bool" where
  va_init: "va_reach va_manager"
| va_add: "va_reach s \<Longrightarrow> admissible i s \<Longrightarrow> AddVaInfo i s = (r, t) \<Longrightarrow> va_reach t"
| va_remove: "va_reach s \<Longrightarrow> RemoveOneVaInfo a s = Some t \<Longrightarrow> va_reach t"
| va_reserve: "va_reach s \<Longrightarrow> AllocReserveGva rank n type s = (q, t) \<Longrightarrow> va_reach t"
| va_free: "va_reach s \<Longrightarrow> va_reach (FreeReserveGva a s)"
| va_clear: "va_reach s \<Longrightarrow> va_reach (ClearAll s)"

lemma AddVaInfo_cases:
  assumes "alloc_inv s" and "admissible i s" and "AddVaInfo i s = (r, t)"
  shows "t = s \<or> (\<forall>j \<in> segs s. seg_apart i j)"
proof (cases "fst (CheckOverlap (gva i) (gsize i) (memType i) s)")
  case True
  with assms(3) show ?thesis
    by (auto simp: AddVaInfo_def Let_def split: if_splits)
next
  case False
  have "seg_ok i"
    using assms(2) by (simp add: admissible_def)
  with False CheckOverlap_iff [OF assms(1), of "gva i" "gsize i" "memType i"]
  have "span (gva i) (gsize i) \<inter> span (gva j) (gsize j) = {}" if "j \<in> segs s" for j
    using that assms(2) seg_ok_nonempty [of i] by (auto simp: admissible_def seg_ok_def)
  with assms(2) show ?thesis
    by (auto simp: admissible_def seg_apart_def)
qed

lemma alloc_inv_reserved: "alloc_inv (s\<lparr>reservedByGva := m\<rparr>) = alloc_inv s"
  by (simp add: alloc_inv_def by_gva_ok_def by_lva_ok_def by_type_ok_def segs_def type_list_def)

lemma res_inv_alloc:
  "reservedByGva t = reservedByGva s \<Longrightarrow> window t = window s \<Longrightarrow> reserveStart t = reserveStart s \<Longrightarrow>
    reserveEnd t = reserveEnd s \<Longrightarrow> res_inv t = res_inv s"
  by (simp add: res_inv_def reserved_def)

lemma AddVaInfo_reserved:
  "AddVaInfo i s = (r, t) \<Longrightarrow> res_inv t = res_inv s"
  by (rule res_inv_alloc) (auto simp: AddVaInfo_def Let_def window_def split: if_splits)

lemma va_reach_inv: "va_reach s \<Longrightarrow> alloc_inv s \<and> res_inv s"
proof (induction rule: va_reach.induct)
  case va_init
  show ?case
    by (simp add: va_manager_def alloc_inv_def by_gva_ok_def by_lva_ok_def by_type_ok_def segs_def type_list_def
        res_inv_def reserved_def window_def)
next
  case (va_add s i r t)
  then have "seg_ok i"
    by (simp add: admissible_def)
  with va_add AddVaInfo_cases [of s i r t] AddVaInfo_keeps(3) [of s i r t] AddVaInfo_reserved [of i s r t]
  show ?case
    by auto
next
  case (va_remove s a t)
  from this(2) show ?case
  proof (cases rule: RemoveOneVaInfo_cases)
    case (2 g i)
    then have "res_inv t = res_inv s"
      by (intro res_inv_alloc) (simp_all add: drop_seg_def window_def)
    with 2 va_remove.IH drop_seg_keeps show ?thesis
      by simp
  qed (use va_remove in simp)
next
  case (va_reserve s rank n type q t)
  have "alloc_inv t = alloc_inv s"
    using va_reserve.hyps(2)
    by (auto simp: AllocReserveGva_def Let_def alloc_inv_reserved split: if_splits prod.splits)
  with va_reserve AllocReserveGva_keeps show ?case
    by blast
next
  case (va_free s a)
  have "alloc_inv (FreeReserveGva a s) = alloc_inv s"
    by (auto simp: FreeReserveGva_def alloc_inv_reserved split: option.split)
  with va_free FreeReserveGva_keeps show ?case
    by blast
next
  case (va_clear s)
  then show ?case
    by (simp add: ClearAll_def alloc_inv_def by_gva_ok_def by_lva_ok_def by_type_ok_def segs_def type_list_def
        res_inv_def reserved_def window_def)
qed

lemma near_floor: "om_floor a m = Some (k, i) \<Longrightarrow> om_near a m = Some i"
  by (simp add: om_near_def)

lemma seg_addr_nonzero: "seg_ok i \<Longrightarrow> unat a \<in> span (gva i) (gsize i) \<Longrightarrow> a \<noteq> 0"
  by (auto simp: span_def seg_ok_def unat_eq_0)

lemma om_near_mem: "om_near a m = Some i \<Longrightarrow> \<exists>k. (k, i) \<in> set m"
proof (cases "om_floor a m")
  case None
  then show "om_near a m = Some i \<Longrightarrow> ?thesis"
    by (auto simp: om_near_def split: list.splits)
next
  case (Some e)
  then have "e = last (filter (\<lambda>e. fst e \<le> a) m)" and "filter (\<lambda>e. fst e \<le> a) m \<noteq> []"
    by (auto simp: om_floor_def split: list.splits)
  then have "e \<in> set m"
    using last_in_set by fastforce
  with Some show "om_near a m = Some i \<Longrightarrow> ?thesis"
    by (cases e) (auto simp: om_near_def)
qed

lemma GetMemType_outside:
  assumes "reservedByGva s = []" and "va \<noteq> 0" and "\<forall>(_, i) \<in> set (allocatedByGva s). \<not> Contains i va"
    and "\<forall>(_, i) \<in> set (allocatedByLva s). \<not> ContainsByLva i va"
  shows "GetMemType va s = None"
proof -
  have "\<not> Contains i va" if "om_near va (allocatedByGva s) = Some i" for i
    using om_near_mem [OF that] assms(3) by auto
  moreover have "\<not> ContainsByLva i va" if "om_near va (allocatedByLva s) = Some i" for i
    using om_near_mem [OF that] assms(4) by auto
  moreover have "om_near va (reservedByGva s) = None"
    by (simp add: assms(1) om_near_def om_floor_def)
  ultimately show ?thesis
    using assms(2) by (simp add: GetMemType_def split: bind_split)
qed

section \<open>Properties\<close>

definition host_seg :: AllocatedGvaInfo where
  "host_seg = \<lparr>gva = 0x5000, gsize = 0x100, memType = HYBM_MEM_TYPE_HOST, lva = 0x100, registered = False,
     localRankId = 3, importedRankId = INVALID_RANK_ID\<rparr>"

definition device_seg :: AllocatedGvaInfo where
  "device_seg = \<lparr>gva = 0x1000, gsize = 0x100, memType = HYBM_MEM_TYPE_DEVICE, lva = 0x900, registered = False,
     localRankId = 3, importedRankId = INVALID_RANK_ID\<rparr>"

definition example_va :: HybmVaManager where
  "example_va = snd (AddVaInfo host_seg (snd (AddVaInfo device_seg va_manager)))"

lemma example_va_eq:
  "example_va = va_manager\<lparr>allocatedByGva := [(0x1000, device_seg), (0x5000, host_seg)],
     allocatedByLva := [(0x100, host_seg), (0x900, device_seg)],
     allocatedByMemType := [(HYBM_MEM_TYPE_HOST, [host_seg]), (HYBM_MEM_TYPE_DEVICE, [device_seg])]\<rparr>"
  by (simp add: example_va_def AddVaInfo_def CheckOverlap_def Let_def device_seg_def host_seg_def va_manager_def
      same_info_def no_info_def type_list_def um_set_def)

lemma example_va_reach: "va_reach example_va"
proof -
  have "admissible device_seg va_manager"
    by (simp add: admissible_def seg_ok_def device_seg_def va_manager_def segs_def)
  with va_init have "va_reach (snd (AddVaInfo device_seg va_manager))"
    by (rule va_add) (rule prod.collapse [symmetric])
  moreover have "admissible host_seg (snd (AddVaInfo device_seg va_manager))"
    by (simp add: admissible_def seg_ok_def device_seg_def host_seg_def va_manager_def segs_def AddVaInfo_def
        CheckOverlap_def Let_def same_info_def no_info_def type_list_def um_set_def span_def)
  ultimately show ?thesis
    unfolding example_va_def by (rule va_add) (rule prod.collapse [symmetric])
qed

lemma example_va_segs: "host_seg \<in> segs example_va"
  by (simp add: example_va_eq segs_def)

text \<open>
  C32. The manager translates between global and local addresses without loss. In every state the
  operations reach, each address of a segment with a local mapping has one local address at the same
  offset, which translates back to it, and the address is recognised as global with the segment's rank.
\<close>

theorem address_translation_roundtrip:
  assumes "va_reach s" and "i \<in> segs s" and "lva i \<noteq> 0" and "unat a \<in> span (gva i) (gsize i)"
  shows "GetLvaByGva a s = lva i + (a - gva i) \<and> GetGvaByLva (GetLvaByGva a s) s = a \<and>
    IsGva a s = Some True \<and> GetRank a s = Some (RankId i, True) \<and> FindAllocByGva a s = Some (i, True)"
proof -
  have inv: "alloc_inv s" "by_gva_ok s"
    using va_reach_inv [OF assms(1)] by (simp_all add: alloc_inv_def)
  have ok: "seg_ok i"
    by (rule by_gva_segD [OF inv(2) assms(2)])
  have l: "GetLvaByGva a s = lva i + (a - gva i)"
    by (rule GetLvaByGva_in [OF inv(1) assms(2,4)])
  have "unat (lva i + (a - gva i)) \<in> span (lva i) (gsize i)"
    using span_shift [OF assms(4)] ok by (simp add: seg_ok_def)
  then have "GetGvaByLva (GetLvaByGva a s) s = a"
    using GetGvaByLva_in [OF inv(1) assms(2,3)] by (simp add: l)
  moreover have "om_near a (allocatedByGva s) = Some i"
    by (rule near_floor [OF floor_gva [OF inv(2) assms(2,4)]])
  ultimately show ?thesis
    using l assms(4) seg_addr_nonzero [OF ok assms(4)]
    by (simp add: IsGva_def GetRank_def FindAllocByGva_def Contains_iff [OF ok])
qed

theorem address_translation_roundtrip_witness:
  "GetLvaByGva 0x5010 example_va = 0x110 \<and> GetGvaByLva 0x110 example_va = 0x5010"
proof -
  have "lva host_seg \<noteq> 0" and "unat (0x5010 :: u64) \<in> span (gva host_seg) (gsize host_seg)"
    by (simp_all add: host_seg_def span_def)
  from address_translation_roundtrip [OF example_va_reach example_va_segs this] show ?thesis
    by (auto simp: host_seg_def)
qed

text \<open>
  C31. Reservations never overlap and are first fit. In every state the operations reach, a request for
  \<open>n > 0\<close> bytes succeeds exactly when the window has \<open>n\<close> free consecutive addresses; it then gets the
  lowest ones, inside the window and apart from all reserved ranges, and is recorded. Otherwise the
  empty range is returned and nothing changes.
\<close>

theorem reservation_first_fit:
  assumes "va_reach s" and "n \<noteq> 0" and "AllocReserveGva rank n type s = (r, t)"
  shows "if \<exists>x. fits s n x
    then resSize r = n \<and> fits s n (unat (resStart r)) \<and> (\<forall>x. fits s n x \<longrightarrow> unat (resStart r) \<le> x) \<and>
      reserved t = insert r (reserved s)
    else resSize r = 0 \<and> t = s"
proof -
  have inv: "res_inv s"
    using va_reach_inv [OF assms(1)] by simp
  from AllocReserveGva_cases [OF inv assms(2,3)] show ?thesis
  proof cases
    case 2
    then have "resSize r = n"
      by (metis ReservedGvaInfo.select_convs(2))
    with 2 res_inv_insert(1) [OF inv assms(2) 2(1)] show ?thesis
      by auto
  qed auto
qed

theorem reservation_first_fit_witness:
  "resStart (fst (AllocReserveGva 3 0x1000 HYBM_MEM_TYPE_HOST va_manager)) = HYBM_GVM_START_ADDR \<and>
    reserved (snd (AllocReserveGva 3 0x1000 HYBM_MEM_TYPE_HOST va_manager)) =
      {fst (AllocReserveGva 3 0x1000 HYBM_MEM_TYPE_HOST va_manager)}"
proof -
  have n: "(0x1000 :: u64) \<noteq> 0"
    by simp
  have r: "AllocReserveGva 3 0x1000 HYBM_MEM_TYPE_HOST va_manager =
      (fst (AllocReserveGva 3 0x1000 HYBM_MEM_TYPE_HOST va_manager),
       snd (AllocReserveGva 3 0x1000 HYBM_MEM_TYPE_HOST va_manager))"
    by simp
  have "fits va_manager 0x1000 0x280000000000"
    by (simp add: fits_def va_manager_def reserved_def)
  with reservation_first_fit [OF va_init n r] have
    "reserved (snd (AllocReserveGva 3 0x1000 HYBM_MEM_TYPE_HOST va_manager)) =
      insert (fst (AllocReserveGva 3 0x1000 HYBM_MEM_TYPE_HOST va_manager)) (reserved va_manager)"
    by (metis (full_types))
  then show ?thesis
    by (simp add: AllocReserveGva_def FindFreeSpace_def va_manager_def Let_def reserved_def)
qed

text \<open>
  The type of a local address comes from the wrong segment. There is a reachable state and an
  address of a host segment's local range for which \<open>GetMemType\<close> answers with the type of another,
  device, segment, so that \<open>InferCopyDirection\<close> treats a copy between host addresses as one
  from device memory.
\<close>

theorem local_address_gets_wrong_type:
  "\<exists>s va i. va_reach s \<and> i \<in> segs s \<and> FindAllocByLva va s = Some (i, True) \<and> memType i = HYBM_MEM_TYPE_HOST \<and>
     GetMemType va s = Some HYBM_MEM_TYPE_DEVICE \<and>
     InferCopyDirection va (gva i) s = Some HYBM_GLOBAL_DEVICE_TO_GLOBAL_HOST"
proof -
  have "FindAllocByLva 0x110 example_va = Some (host_seg, True)"
    by (simp add: FindAllocByLva_def example_va_eq om_near_def om_floor_def ContainsByLva_def host_seg_def)
  moreover have t: "GetMemType 0x110 example_va = Some HYBM_MEM_TYPE_DEVICE"
    by (simp add: GetMemType_def example_va_eq om_near_def om_floor_def Contains_def ContainsByLva_def
        host_seg_def device_seg_def)
  moreover have "GetMemType 0x5000 example_va = Some HYBM_MEM_TYPE_HOST"
    by (simp add: GetMemType_def example_va_eq om_near_def om_floor_def Contains_def host_seg_def)
  then have "InferCopyDirection 0x110 (gva host_seg) example_va = Some HYBM_GLOBAL_DEVICE_TO_GLOBAL_HOST"
    by (simp add: InferCopyDirection_def ClassifyAddress_def t host_seg_def)
  moreover have "memType host_seg = HYBM_MEM_TYPE_HOST"
    by (simp add: host_seg_def)
  ultimately show ?thesis
    using example_va_reach example_va_segs by blast
qed

text \<open>
  Before anything is reserved, asking for the direction of a copy that touches an address outside
  every segment dereferences \<open>end()\<close> of the empty map of reserved ranges; with no segment at all even
  \<open>IsGva\<close> and \<open>GetRank\<close> do so.
\<close>

theorem lookup_on_empty_map:
  "(\<forall>va s. reservedByGva s = [] \<longrightarrow> va \<noteq> 0 \<longrightarrow> (\<forall>(_, i) \<in> set (allocatedByGva s). \<not> Contains i va) \<longrightarrow>
      (\<forall>(_, i) \<in> set (allocatedByLva s). \<not> ContainsByLva i va) \<longrightarrow> InferCopyDirection va d s = None) \<and>
   (\<forall>va s. allocatedByGva s = [] \<longrightarrow> va \<noteq> 0 \<longrightarrow> IsGva va s = None \<and> GetRank va s = None)"
  using GetMemType_outside
  by (simp add: InferCopyDirection_def ClassifyAddress_def IsGva_def GetRank_def om_near_def om_floor_def)

theorem lookup_on_empty_map_witness:
  "InferCopyDirection 0x9999 0x5000 example_va = None \<and> IsGva 0x9999 va_manager = None"
  using lookup_on_empty_map [of "0x5000"]
  by (simp add: example_va_eq va_manager_def Contains_def ContainsByLva_def host_seg_def device_seg_def)

end
