(* ===== verification/Fault_Handler.thy ===== *)
theory Fault_Handler
  imports Store_Waiters
begin

text \<open>
  The fault handler of the transfer engine, \<open>SmemStoreFaultHandler\<close>
  (\<^verbatim>\<open>src/smem/csrc/smem_trans/smem_trans_fault_handler.h/.cpp\<close>): handlers it registers with the store
  server, which remember per link what a client has stored, clear it when the link breaks, and hand the
  freed numbers out again. The store keys are those of \<^verbatim>\<open>smem_trans_store_helper.h\<close>.

  The handler's state is the \<open>ext\<close> part of the server's. A member without initialiser is \<open>None\<close> until it is
  set; reading it then is undefined, as are division by zero, signed overflow and indexing outside.
\<close>

section \<open>Keys\<close>

definition AUTO_RANK_KEY_PREFIX :: bytes where "AUTO_RANK_KEY_PREFIX = str ''auto_ranking_key_''"
definition CLUSTER_RANKS_INFO_KEY :: bytes where "CLUSTER_RANKS_INFO_KEY = str ''cluster_ranks_info''"
definition SENDER_COUNT_KEY :: bytes where "SENDER_COUNT_KEY = str ''count_for_senders''"
definition SENDER_DEVICE_INFO_KEY :: bytes where "SENDER_DEVICE_INFO_KEY = str ''devices_info_for_senders''"
definition SENDER_GET_DEVICE_ID_KEY :: bytes where "SENDER_GET_DEVICE_ID_KEY = str ''get_devices_id_for_senders''"
definition RECEIVER_COUNT_KEY :: bytes where "RECEIVER_COUNT_KEY = str ''receiver_for_senders''"
definition RECEIVER_DEVICE_INFO_KEY :: bytes where "RECEIVER_DEVICE_INFO_KEY = str ''devices_info_for_receivers''"
definition RECEIVER_GET_DEVICE_ID_KEY :: bytes where
  "RECEIVER_GET_DEVICE_ID_KEY = str ''get_devices_id_for_receivers''"
definition RECEIVER_TOTAL_SLICE_COUNT_KEY :: bytes where
  "RECEIVER_TOTAL_SLICE_COUNT_KEY = str ''receivers_total_slices_count''"
definition RECEIVER_SLICES_INFO_KEY :: bytes where "RECEIVER_SLICES_INFO_KEY = str ''receivers_all_slices_info''"
definition RECEIVER_GET_SLICES_ID_KEY :: bytes where
  "RECEIVER_GET_SLICES_ID_KEY = str ''get_receivers_all_slices_id''"
definition SENDER_TOTAL_SLICE_COUNT_KEY :: bytes where
  "SENDER_TOTAL_SLICE_COUNT_KEY = str ''senders_total_slices_count''"
definition SENDER_SLICES_INFO_KEY :: bytes where "SENDER_SLICES_INFO_KEY = str ''senders_all_slices_info''"
definition SENDER_GET_SLICES_ID_KEY :: bytes where
  "SENDER_GET_SLICES_ID_KEY = str ''get_senders_all_slices_id''"

abbreviation (input) ABNORMAL :: byte where "ABNORMAL \<equiv> 0"
abbreviation (input) NORMAL :: byte where "NORMAL \<equiv> 1"

text \<open>\<open>key.find(s) != npos\<close>.\<close>

fun has_str :: "bytes \<Rightarrow> bytes \<Rightarrow> bool" where
  "has_str [] s \<longleftrightarrow> s = []"
| "has_str (c # cs) s \<longleftrightarrow> take (length s) (c # cs) = s \<or> has_str cs s"

section \<open>State\<close>

record ConfigServerDeviceInfo =
  deviceInfoId :: u16
  deviceInfoUint :: "u16 option"
  deviceInfoKey :: bytes
  deviceCountKey :: bytes

record ConfigServerSliceInfo =
  sliceInfoUint :: "u16 option"
  sliceInfoId :: "u16 list"
  sliceInfoKey :: bytes
  sliceCountKey :: bytes

record RankInfo =
  rkId :: u16
  rankName :: bytes
  dInfo :: ConfigServerDeviceInfo
  sInfo :: ConfigServerSliceInfo

definition new_rank_info :: "u16 \<Rightarrow> bytes \<Rightarrow> RankInfo" where
  "new_rank_info rId rName = \<lparr>rkId = rId, rankName = rName,
     dInfo = \<lparr>deviceInfoId = 0, deviceInfoUint = None, deviceInfoKey = [], deviceCountKey = []\<rparr>,
     sInfo = \<lparr>sliceInfoUint = None, sliceInfoId = [], sliceInfoKey = [], sliceCountKey = []\<rparr>\<rparr>"

text \<open>The first queue of a pair belongs to the senders, the second to the receivers.\<close>

record SmemStoreFaultHandler =
  linkIdToRankInfoMap :: "(link \<times> RankInfo) list"
  faultRankIdQueue :: "u16 list"
  faultDeviceIdQueue :: "u16 list \<times> u16 list"
  faultSliceIdQueue :: "u16 list \<times> u16 list"

definition new_fault_handler :: SmemStoreFaultHandler where
  "new_fault_handler = \<lparr>linkIdToRankInfoMap = [], faultRankIdQueue = [], faultDeviceIdQueue = ([], []),
     faultSliceIdQueue = ([], [])\<rparr>"

type_synonym 'b fault_op = "('b, SmemStoreFaultHandler) op_handler"

section \<open>Recording what a client stores\<close>

definition BuildLinkIdToRankInfoMap :: "'b fault_op" where
  "BuildLinkIdToRankInfoMap linkId key value = (\<lambda>(b, x).
     if has_str key AUTO_RANK_KEY_PREFIX then
       if length value \<noteq> 2 then Some (SM_ERROR, value, b, x)
       else
         let rank = or (ucast (value ! 0)) (push_bit 8 (ucast (value ! 1))) :: u16
         in Some (SM_OK, value, b, x\<lparr>linkIdToRankInfoMap :=
              um_set linkId (new_rank_info rank key) (linkIdToRankInfoMap x)\<rparr>)
     else Some (SM_OK, value, b, x))"

text \<open>The change of a link's entry, with the error of a link that has none.\<close>

definition update_rank_info ::
    "link \<Rightarrow> (RankInfo \<Rightarrow> RankInfo) \<Rightarrow> bytes \<Rightarrow> 'b \<times> SmemStoreFaultHandler \<Rightarrow>
       (result \<times> bytes \<times> 'b \<times> SmemStoreFaultHandler) cpp" where
  "update_rank_info linkId f value = (\<lambda>(b, x).
     case map_of (linkIdToRankInfoMap x) linkId of
       None \<Rightarrow> Some (SM_INVALID_PARAM, value, b, x)
     | Some info \<Rightarrow>
         Some (SM_OK, value, b, x\<lparr>linkIdToRankInfoMap := um_set linkId (f info) (linkIdToRankInfoMap x)\<rparr>))"

definition set_device_count :: "bytes \<Rightarrow> RankInfo \<Rightarrow> RankInfo" where
  "set_device_count key info = info\<lparr>dInfo := (dInfo info)\<lparr>deviceCountKey := key\<rparr>\<rparr>"

definition set_slice_count :: "bytes \<Rightarrow> RankInfo \<Rightarrow> RankInfo" where
  "set_slice_count key info = info\<lparr>sInfo := (sInfo info)\<lparr>sliceCountKey := key\<rparr>\<rparr>"

definition set_device :: "bytes \<Rightarrow> u16 \<Rightarrow> nat \<Rightarrow> RankInfo \<Rightarrow> RankInfo" where
  "set_device key index n info = info\<lparr>dInfo := (dInfo info)\<lparr>deviceInfoId := index,
     deviceInfoUint := Some (of_nat n), deviceInfoKey := key\<rparr>\<rparr>"

definition add_slice :: "bytes \<Rightarrow> u16 \<Rightarrow> nat \<Rightarrow> RankInfo \<Rightarrow> RankInfo" where
  "add_slice key index n info = info\<lparr>sInfo := (sInfo info)\<lparr>sliceInfoId := sliceInfoId (sInfo info) @ [index],
     sliceInfoUint := Some (of_nat n), sliceInfoKey := key\<rparr>\<rparr>"

definition AddRankInfoMap :: "'b fault_op" where
  "AddRankInfoMap linkId key value bx =
     (if has_str key SENDER_COUNT_KEY \<or> has_str key RECEIVER_COUNT_KEY then
        update_rank_info linkId (set_device_count key) value bx
      else if has_str key SENDER_TOTAL_SLICE_COUNT_KEY \<or> has_str key RECEIVER_TOTAL_SLICE_COUNT_KEY then
        update_rank_info linkId (set_slice_count key) value bx
      else Some (SM_OK, value, bx))"

text \<open>What \<open>WriteRankInfoMap\<close> and \<open>AppendRankInfoMap\<close> record of record number \<open>index\<close> of \<open>n\<close> bytes.\<close>

definition record_info :: "link \<Rightarrow> bytes \<Rightarrow> u16 \<Rightarrow> nat \<Rightarrow> bytes \<Rightarrow> 'b \<times> SmemStoreFaultHandler \<Rightarrow>
    (result \<times> bytes \<times> 'b \<times> SmemStoreFaultHandler) cpp" where
  "record_info linkId key index n value bx =
     (if has_str key SENDER_DEVICE_INFO_KEY \<or> has_str key RECEIVER_DEVICE_INFO_KEY then
        update_rank_info linkId (set_device key index n) value bx
      else if has_str key SENDER_SLICES_INFO_KEY \<or> has_str key RECEIVER_SLICES_INFO_KEY then
        update_rank_info linkId (add_slice key index n) value bx
      else Some (SM_OK, value, bx))"

definition WriteRankInfoMap :: "'b fault_op" where
  "WriteRankInfoMap linkId key value bx = do {
     offset \<leftarrow> read_at 4 value 0;
     let realValSize = length value - 4;
     if realValSize = 0 then None
     else record_info linkId key (of_nat (offset div realValSize)) realValSize value bx
   }"

definition AppendRankInfoMap :: "'b backend_ops \<Rightarrow> 'b fault_op" where
  "AppendRankInfoMap ops linkId key value bx =
     (let (ret, oldValue) = be_get ops (fst bx) key []
      in if ret \<noteq> SUCCESS then Some (SM_INVALID_PARAM, value, bx)
         else if length value = 0 then None
         else record_info linkId key (of_int (int (length oldValue div length value) - 1)) (length value) value bx)"

section \<open>Handing out freed numbers\<close>

definition GetFromFaultInfo :: "'b fault_op" where
  "GetFromFaultInfo linkId key value = (\<lambda>(b, x).
     let give = (\<lambda>i x. Some (SM_GET_OBJIECT, value @ [ucast i, ucast (drop_bit 8 i)], b, x));
         (ds, dr) = faultDeviceIdQueue x; (ss, sr) = faultSliceIdQueue x
     in if faultRankIdQueue x \<noteq> [] \<and> has_str key AUTO_RANK_KEY_PREFIX then
          give (hd (faultRankIdQueue x)) (x\<lparr>faultRankIdQueue := tl (faultRankIdQueue x)\<rparr>)
        else if ds \<noteq> [] \<and> has_str key SENDER_GET_DEVICE_ID_KEY then
          give (hd ds) (x\<lparr>faultDeviceIdQueue := (tl ds, dr)\<rparr>)
        else if dr \<noteq> [] \<and> has_str key RECEIVER_GET_DEVICE_ID_KEY then
          give (hd dr) (x\<lparr>faultDeviceIdQueue := (ds, tl dr)\<rparr>)
        else if ss \<noteq> [] \<and> has_str key SENDER_GET_SLICES_ID_KEY then
          give (hd ss) (x\<lparr>faultSliceIdQueue := (tl ss, sr)\<rparr>)
        else if sr \<noteq> [] \<and> has_str key RECEIVER_GET_SLICES_ID_KEY then
          give (hd sr) (x\<lparr>faultSliceIdQueue := (ss, tl sr)\<rparr>)
        else Some (SM_OBJECT_NOT_EXISTS, value, b, x))"

section \<open>Clearing what a broken link leaves behind\<close>

text \<open>The product of two \<open>uint16_t\<close> is an \<open>int\<close>, converted to \<open>uint32_t\<close>.\<close>

definition record_offset :: "u16 option \<Rightarrow> u16 \<Rightarrow> nat cpp" where
  "record_offset unit' i = do {
     u \<leftarrow> unit';
     if unat u * unat i > 2147483647 then None else Some (unat u * unat i)
   }"

definition mark_abnormal :: "nat \<Rightarrow> bytes \<Rightarrow> bytes cpp" where
  "mark_abnormal offset v = (if offset < length v then Some (v[offset := ABNORMAL]) else None)"

text \<open>
  The counter under \<open>key\<close> is lowered by \<open>n\<close>; \<open>old\<close> is the local \<open>oldValue\<close>. The subtraction in
  \<open>ClearSliceInfo\<close> is unsigned and converted back, that in \<open>ClearDeviceInfo\<close> is signed: there it may overflow.
\<close>

definition lower_count :: "'b backend_ops \<Rightarrow> bytes \<Rightarrow> bytes \<Rightarrow> (int \<Rightarrow> int cpp) \<Rightarrow> 'b \<Rightarrow> 'b cpp" where
  "lower_count ops key old lower b =
     (let (ret, v) = be_get ops b key old
      in if ret \<noteq> SUCCESS then Some b
         else case String2Int 64 v of
           None \<Rightarrow> Some b
         | Some valueNum \<Rightarrow> do {
             n \<leftarrow> lower valueNum;
             Some (snd (be_put ops b key (to_string n) 0))
           })"

definition dec_long :: "int \<Rightarrow> int cpp" where
  "dec_long n = (if n = LLONG_MIN then None else Some (n - 1))"

definition ClearDeviceInfo :: "'b backend_ops \<Rightarrow> RankInfo \<Rightarrow> 'b \<times> SmemStoreFaultHandler \<Rightarrow>
    ('b \<times> SmemStoreFaultHandler) cpp" where
  "ClearDeviceInfo ops info = (\<lambda>(b, x).
     let d = dInfo info; (ret, v) = be_get ops b (deviceInfoKey d) []
     in if ret = SUCCESS then do {
          offset \<leftarrow> record_offset (deviceInfoUint d) (deviceInfoId d);
          let (ds, dr) = faultDeviceIdQueue x;
          let x = x\<lparr>faultDeviceIdQueue := (if has_str (deviceInfoKey d) SENDER_DEVICE_INFO_KEY
                then (ds @ [deviceInfoId d], dr) else (ds, dr @ [deviceInfoId d]))\<rparr>;
          v \<leftarrow> mark_abnormal offset v;
          let (ret, b) = be_put ops b (deviceInfoKey d) v 0;
          if ret \<noteq> SUCCESS then Some (b, x)
          else do { b \<leftarrow> lower_count ops (deviceCountKey d) v dec_long b; Some (b, x) }
        }
        else do { b \<leftarrow> lower_count ops (deviceCountKey d) v dec_long b; Some (b, x) })"

fun mark_slices :: "u16 option \<Rightarrow> u16 list \<Rightarrow> bytes \<Rightarrow> bytes cpp" where
  "mark_slices unit' [] v = Some v"
| "mark_slices unit' (i # ids) v = do {
     offset \<leftarrow> record_offset unit' i;
     v \<leftarrow> mark_abnormal offset v;
     mark_slices unit' ids v
   }"

definition sub_size :: "nat \<Rightarrow> int \<Rightarrow> int cpp" where
  "sub_size k n = Some (signed_cast 64 (n - int k))"

definition ClearSliceInfo :: "'b backend_ops \<Rightarrow> RankInfo \<Rightarrow> 'b \<times> SmemStoreFaultHandler \<Rightarrow>
    ('b \<times> SmemStoreFaultHandler) cpp" where
  "ClearSliceInfo ops info = (\<lambda>(b, x).
     let s = sInfo info; lower = sub_size (length (sliceInfoId s));
         (ret, v) = be_get ops b (sliceInfoKey s) []
     in if ret = SUCCESS then do {
          v \<leftarrow> mark_slices (sliceInfoUint s) (sliceInfoId s) v;
          let (ss, sr) = faultSliceIdQueue x;
          let x = x\<lparr>faultSliceIdQueue := (if has_str (sliceInfoKey s) SENDER_SLICES_INFO_KEY
                then (ss @ sliceInfoId s, sr) else (ss, sr @ sliceInfoId s))\<rparr>;
          let (ret, b) = be_put ops b (sliceInfoKey s) v 0;
          if ret \<noteq> SUCCESS then Some (b, x)
          else do { b \<leftarrow> lower_count ops (sliceCountKey s) v lower b; Some (b, x) }
        }
        else do { b \<leftarrow> lower_count ops (sliceCountKey s) v lower b; Some (b, x) })"

definition ClearFaultInfo :: "'b backend_ops \<Rightarrow> ('b, SmemStoreFaultHandler) broken_handler" where
  "ClearFaultInfo ops linkId = (\<lambda>(b, x).
     case map_of (linkIdToRankInfoMap x) linkId of
       None \<Rightarrow> Some (b, x)
     | Some info \<Rightarrow> do {
         bx \<leftarrow> ClearDeviceInfo ops info (b, x);
         (b, x) \<leftarrow> ClearSliceInfo ops info bx;
         let b = snd (be_delete ops b (rankName info));
         Some (b, x\<lparr>faultRankIdQueue := faultRankIdQueue x @ [rkId info],
                    linkIdToRankInfoMap := um_erase linkId (linkIdToRankInfoMap x)\<rparr>)
       })"

definition RegisterHandlerToStore ::
    "'b backend_ops \<Rightarrow> ('b, SmemStoreFaultHandler) AccStoreServer \<Rightarrow> ('b, SmemStoreFaultHandler) AccStoreServer" where
  "RegisterHandlerToStore ops s =
     (let s = RegisterOpHandler (mt_code SET) BuildLinkIdToRankInfoMap s;
          s = RegisterOpHandler (mt_code GET) GetFromFaultInfo s;
          s = RegisterOpHandler (mt_code ADD) AddRankInfoMap s;
          s = RegisterOpHandler (mt_code WRITE) WriteRankInfoMap s;
          s = RegisterOpHandler (mt_code APPEND) (AppendRankInfoMap ops) s
      in RegisterBrokenLinkCHandler (Some (ClearFaultInfo ops)) s)"

section \<open>Clearing, by keys\<close>

text \<open>
  What a link's entry promises about the store: the recorded places lie inside the stored values, the
  products stay in \<open>int\<close>, the device counter can be lowered, and the keys are different ones.
\<close>

definition slices_fit :: "u16 option \<Rightarrow> u16 list \<Rightarrow> nat \<Rightarrow> bool" where
  "slices_fit unit' ids n \<longleftrightarrow> (\<forall>i \<in> set ids. \<exists>o'. record_offset unit' i = Some o' \<and> o' < n)"

definition info_ok :: "(bytes \<rightharpoonup> bytes) \<Rightarrow> RankInfo \<Rightarrow> bool" where
  "info_ok m info \<longleftrightarrow>
     distinct [deviceInfoKey (dInfo info), deviceCountKey (dInfo info), sliceInfoKey (sInfo info),
       sliceCountKey (sInfo info), rankName info] \<and>
     (\<forall>v. m (deviceInfoKey (dInfo info)) = Some v \<longrightarrow>
        slices_fit (deviceInfoUint (dInfo info)) [deviceInfoId (dInfo info)] (length v)) \<and>
     (\<forall>v. m (deviceCountKey (dInfo info)) = Some v \<longrightarrow> String2Int 64 v \<noteq> Some LLONG_MIN) \<and>
     (\<forall>v. m (sliceInfoKey (sInfo info)) = Some v \<longrightarrow>
        slices_fit (sliceInfoUint (sInfo info)) (sliceInfoId (sInfo info)) (length v))"

text \<open>The value with the status byte of every recorded slice cleared.\<close>

definition offsets :: "u16 option \<Rightarrow> u16 list \<Rightarrow> nat set" where
  "offsets unit' ids = {o'. \<exists>i \<in> set ids. record_offset unit' i = Some o'}"

definition cleared :: "u16 option \<Rightarrow> u16 list \<Rightarrow> bytes \<Rightarrow> bytes" where
  "cleared unit' ids v = map (\<lambda>j. if j \<in> offsets unit' ids then ABNORMAL else v ! j) [0..<length v]"

lemma length_cleared [simp]: "length (cleared unit' ids v) = length v"
  by (simp add: cleared_def)

lemma mark_slices_cleared:
  "slices_fit unit' ids (length v) \<Longrightarrow> mark_slices unit' ids v = Some (cleared unit' ids v)"
proof (induction ids arbitrary: v)
  case Nil
  show ?case
    by (simp add: cleared_def offsets_def map_nth)
next
  case (Cons i ids)
  then obtain o' where o': "record_offset unit' i = Some o'" "o' < length v"
    by (auto simp: slices_fit_def)
  have "mark_slices unit' ids (v[o' := 0]) = Some (cleared unit' ids (v[o' := 0]))"
    using Cons by (simp add: slices_fit_def)
  moreover have "cleared unit' ids (v[o' := 0]) = cleared unit' (i # ids) v"
    using o' by (auto simp: cleared_def offsets_def nth_list_update)
  ultimately show ?case
    using o' by (simp add: mark_abnormal_def)
qed

text \<open>The part the two clearing functions share.\<close>

definition clear_value ::
    "'b backend_ops \<Rightarrow> bytes \<Rightarrow> u16 option \<Rightarrow> u16 list \<Rightarrow> bytes \<Rightarrow> (int \<Rightarrow> int cpp) \<Rightarrow> 'b \<Rightarrow> 'b cpp" where
  "clear_value ops key unit' ids countKey lower b =
     (let (ret, v) = be_get ops b key []
      in if ret = SUCCESS then do {
           v \<leftarrow> mark_slices unit' ids v;
           let (ret, b) = be_put ops b key v 0;
           if ret \<noteq> SUCCESS then Some b else lower_count ops countKey v lower b
         }
         else lower_count ops countKey v lower b)"

definition queue_freed :: "bool \<Rightarrow> bool \<Rightarrow> u16 list \<Rightarrow> u16 list \<times> u16 list \<Rightarrow> u16 list \<times> u16 list" where
  "queue_freed found sender ids q =
     (if found then if sender then (fst q @ ids, snd q) else (fst q, snd q @ ids) else q)"

lemma ClearDeviceInfo_shared:
  "ClearDeviceInfo ops info (b, x) = do {
     b' \<leftarrow> clear_value ops (deviceInfoKey (dInfo info)) (deviceInfoUint (dInfo info)) [deviceInfoId (dInfo info)]
       (deviceCountKey (dInfo info)) dec_long b;
     Some (b', x\<lparr>faultDeviceIdQueue := queue_freed (fst (be_get ops b (deviceInfoKey (dInfo info)) []) = SUCCESS)
       (has_str (deviceInfoKey (dInfo info)) SENDER_DEVICE_INFO_KEY) [deviceInfoId (dInfo info)] (faultDeviceIdQueue x)\<rparr>)
   }"
  by (cases "faultDeviceIdQueue x") (auto simp: ClearDeviceInfo_def clear_value_def queue_freed_def Let_def split_beta
      split: bind_splits)

lemma ClearSliceInfo_shared:
  "ClearSliceInfo ops info (b, x) = do {
     b' \<leftarrow> clear_value ops (sliceInfoKey (sInfo info)) (sliceInfoUint (sInfo info)) (sliceInfoId (sInfo info))
       (sliceCountKey (sInfo info)) (sub_size (length (sliceInfoId (sInfo info)))) b;
     Some (b', x\<lparr>faultSliceIdQueue := queue_freed (fst (be_get ops b (sliceInfoKey (sInfo info)) []) = SUCCESS)
       (has_str (sliceInfoKey (sInfo info)) SENDER_SLICES_INFO_KEY) (sliceInfoId (sInfo info)) (faultSliceIdQueue x)\<rparr>)
   }"
  by (cases "faultSliceIdQueue x") (auto simp: ClearSliceInfo_def clear_value_def queue_freed_def Let_def split_beta
      split: bind_splits)

text \<open>The store after a value and its counter are cleared.\<close>

definition lowered :: "(int \<Rightarrow> int) \<Rightarrow> bytes \<Rightarrow> bytes" where
  "lowered f v = (case String2Int 64 v of None \<Rightarrow> v | Some n \<Rightarrow> to_string (f n))"

definition clear_map ::
    "bytes \<Rightarrow> u16 option \<Rightarrow> u16 list \<Rightarrow> bytes \<Rightarrow> (int \<Rightarrow> int) \<Rightarrow> (bytes \<rightharpoonup> bytes) \<Rightarrow> (bytes \<rightharpoonup> bytes)" where
  "clear_map key unit' ids countKey f m =
     m(key := map_option (cleared unit' ids) (m key), countKey := map_option (lowered f) (m countKey))"

context reliable_backend
begin

lemma lower_count_spec:
  assumes "\<And>v n. lookup b key = Some v \<Longrightarrow> String2Int 64 v = Some n \<Longrightarrow> lower n = Some (f n)"
  shows "\<exists>b'. lower_count ops key old lower b = Some b' \<and>
    lookup b' = (lookup b)(key := map_option (lowered f) (lookup b key))"
proof (cases "lookup b key")
  case None
  then show ?thesis
    by (simp add: lower_count_def get_spec fun_upd_idem)
next
  case (Some v)
  then show ?thesis
    using assms by (cases "String2Int 64 v") (simp_all add: lower_count_def get_spec lowered_def put_lookup fun_upd_idem)
qed

lemma clear_value_spec:
  assumes "key \<noteq> countKey"
    and "\<And>v. lookup b key = Some v \<Longrightarrow> slices_fit unit' ids (length v)"
    and "\<And>v n. lookup b countKey = Some v \<Longrightarrow> String2Int 64 v = Some n \<Longrightarrow> lower n = Some (f n)"
  shows "\<exists>b'. clear_value ops key unit' ids countKey lower b = Some b' \<and>
    lookup b' = clear_map key unit' ids countKey f (lookup b)"
proof (cases "lookup b key")
  case None
  with lower_count_spec [of b countKey lower f, OF assms(3)] show ?thesis
    by (simp add: clear_value_def get_spec clear_map_def fun_upd_idem)
next
  case (Some v)
  let ?b = "snd (be_put ops b key (cleared unit' ids v) 0)"
  have l: "lookup ?b = (lookup b)(key \<mapsto> cleared unit' ids v)"
    by (rule put_lookup)
  have m: "mark_slices unit' ids v = Some (cleared unit' ids v)"
    by (rule mark_slices_cleared [OF assms(2) [OF Some]])
  have "\<exists>b'. lower_count ops countKey (cleared unit' ids v) lower ?b = Some b' \<and>
      lookup b' = (lookup ?b)(countKey := map_option (lowered f) (lookup ?b countKey))"
    using assms(1,3) by (intro lower_count_spec) (simp add: l)
  then show ?thesis
    using Some assms(1) by (auto simp: clear_value_def get_spec m l clear_map_def split_beta put_succeeds Let_def)
qed

lemma ClearFaultInfo_spec:
  fixes x :: SmemStoreFaultHandler and info :: RankInfo
  defines "d \<equiv> dInfo info" and "i \<equiv> sInfo info"
  assumes "map_of (linkIdToRankInfoMap x) l = Some info" and "info_ok (lookup b) info"
  shows "\<exists>b'. ClearFaultInfo ops l (b, x) = Some (b', x\<lparr>
      faultDeviceIdQueue := queue_freed (lookup b (deviceInfoKey d) \<noteq> None)
        (has_str (deviceInfoKey d) SENDER_DEVICE_INFO_KEY) [deviceInfoId d] (faultDeviceIdQueue x),
      faultSliceIdQueue := queue_freed (lookup b (sliceInfoKey i) \<noteq> None)
        (has_str (sliceInfoKey i) SENDER_SLICES_INFO_KEY) (sliceInfoId i) (faultSliceIdQueue x),
      faultRankIdQueue := faultRankIdQueue x @ [rkId info],
      linkIdToRankInfoMap := um_erase l (linkIdToRankInfoMap x)\<rparr>) \<and>
    lookup b' = (clear_map (sliceInfoKey i) (sliceInfoUint i) (sliceInfoId i) (sliceCountKey i)
        (\<lambda>n. signed_cast 64 (n - int (length (sliceInfoId i))))
      (clear_map (deviceInfoKey d) (deviceInfoUint d) [deviceInfoId d] (deviceCountKey d) (\<lambda>n. n - 1)
        (lookup b)))(rankName info := None)"
proof -
  have ne: "deviceInfoKey d \<noteq> deviceCountKey d" "sliceInfoKey i \<noteq> sliceCountKey i"
    "sliceInfoKey i \<notin> {deviceInfoKey d, deviceCountKey d}" "sliceCountKey i \<notin> {deviceInfoKey d, deviceCountKey d}"
    using assms(4) by (auto simp: info_ok_def d_def i_def)
  have "\<exists>b'. clear_value ops (deviceInfoKey d) (deviceInfoUint d) [deviceInfoId d] (deviceCountKey d) dec_long b = Some b' \<and>
      lookup b' = clear_map (deviceInfoKey d) (deviceInfoUint d) [deviceInfoId d] (deviceCountKey d) (\<lambda>n. n - 1) (lookup b)"
    using assms(4) by (intro clear_value_spec) (auto simp: info_ok_def d_def dec_long_def)
  then obtain b1 where b1:
    "clear_value ops (deviceInfoKey d) (deviceInfoUint d) [deviceInfoId d] (deviceCountKey d) dec_long b = Some b1"
    "lookup b1 = clear_map (deviceInfoKey d) (deviceInfoUint d) [deviceInfoId d] (deviceCountKey d) (\<lambda>n. n - 1) (lookup b)"
    by blast
  have same: "lookup b1 (sliceInfoKey i) = lookup b (sliceInfoKey i)"
    using ne by (simp add: b1(2) clear_map_def)
  have "\<exists>b'. clear_value ops (sliceInfoKey i) (sliceInfoUint i) (sliceInfoId i) (sliceCountKey i)
        (sub_size (length (sliceInfoId i))) b1 = Some b' \<and>
      lookup b' = clear_map (sliceInfoKey i) (sliceInfoUint i) (sliceInfoId i) (sliceCountKey i)
        (\<lambda>n. signed_cast 64 (n - int (length (sliceInfoId i)))) (lookup b1)"
    using assms(4) ne(2) same by (intro clear_value_spec) (auto simp: info_ok_def i_def sub_size_def)
  then obtain b2 where b2:
    "clear_value ops (sliceInfoKey i) (sliceInfoUint i) (sliceInfoId i) (sliceCountKey i)
        (sub_size (length (sliceInfoId i))) b1 = Some b2"
    "lookup b2 = clear_map (sliceInfoKey i) (sliceInfoUint i) (sliceInfoId i) (sliceCountKey i)
        (\<lambda>n. signed_cast 64 (n - int (length (sliceInfoId i)))) (lookup b1)"
    by blast
  have "ClearDeviceInfo ops info (b, x) = Some (b1, x\<lparr>faultDeviceIdQueue :=
      queue_freed (lookup b (deviceInfoKey d) \<noteq> None) (has_str (deviceInfoKey d) SENDER_DEVICE_INFO_KEY)
        [deviceInfoId d] (faultDeviceIdQueue x)\<rparr>)"
    using b1(1) by (simp add: ClearDeviceInfo_shared d_def get_success_iff)
  moreover have "ClearSliceInfo ops info (b1, y) = Some (b2, y\<lparr>faultSliceIdQueue :=
      queue_freed (lookup b (sliceInfoKey i) \<noteq> None) (has_str (sliceInfoKey i) SENDER_SLICES_INFO_KEY)
        (sliceInfoId i) (faultSliceIdQueue y)\<rparr>)" for y
    using b2(1) same by (simp add: ClearSliceInfo_shared i_def get_success_iff)
  ultimately show ?thesis
    using assms(3) b1(2) b2(2) by (simp add: ClearFaultInfo_def delete_lookup)
qed

end

section \<open>Properties\<close>

lemma rank_bytes: "or (ucast (ucast i :: byte)) (push_bit 8 (ucast (ucast (drop_bit 8 i) :: byte))) = (i :: u16)"
  by (rule bit_word_eqI) (auto simp: bit_simps)

definition example_info :: RankInfo where
  "example_info = \<lparr>rkId = 5, rankName = str ''auto_ranking_key_a'',
     dInfo = \<lparr>deviceInfoId = 1, deviceInfoUint = Some 2, deviceInfoKey = SENDER_DEVICE_INFO_KEY,
       deviceCountKey = SENDER_COUNT_KEY\<rparr>,
     sInfo = \<lparr>sliceInfoUint = None, sliceInfoId = [], sliceInfoKey = str ''s'', sliceCountKey = []\<rparr>\<rparr>"

definition example_faults :: SmemStoreFaultHandler where
  "example_faults = new_fault_handler\<lparr>linkIdToRankInfoMap := [(7, example_info)]\<rparr>"

definition example_kv :: LocalBackend where
  "example_kv = \<lparr>kvStore = [(SENDER_DEVICE_INFO_KEY, [1, 10, 1, 20, 1, 30]), (SENDER_COUNT_KEY, str ''3''),
     (str ''auto_ranking_key_a'', [5, 0])]\<rparr>"

lemma example_info_ok: "info_ok (local_lookup example_kv) example_info"
  by (simp add: info_ok_def example_info_def example_kv_def local_lookup_def slices_fit_def record_offset_def
      SENDER_DEVICE_INFO_KEY_def SENDER_COUNT_KEY_def str_def) code_simp





text \<open>
  With the fault handler registered, one request stops the server. A WRITE whose value holds only
  the offset 0, or an APPEND of an empty value, passes every check of the server and then divides by zero,
  whatever the key.
\<close>

theorem empty_record_divides_by_zero:
  assumes "ctxLink c = Some l" and "length key \<le> 2048"
  shows "WriteHandler local_ops c ((message WRITE)\<lparr>keys := [key], vals := [le_encode 4 0]\<rparr>)
      (RegisterHandlerToStore local_ops s) = None \<and>
    AppendHandler local_ops up c ((message APPEND)\<lparr>keys := [key], vals := [[]]\<rparr>)
      (RegisterHandlerToStore local_ops s) = None"
proof -
  let ?s = "RegisterHandlerToStore local_ops s"
  have h: "map_of (externalOpHandlerMap ?s) (mt_code WRITE) = Some WriteRankInfoMap"
    "map_of (externalOpHandlerMap ?s) (mt_code APPEND) = Some (AppendRankInfoMap local_ops)"
    by (simp_all add: RegisterHandlerToStore_def RegisterOpHandler_def RegisterBrokenLinkCHandler_def Let_def)
  have w: "ExecuteHandle WRITE l key (le_encode 4 0) (?s\<lparr>backend := b\<rparr>) = None" for b
    using h(1) by (simp add: ExecuteHandle_def WriteRankInfoMap_def read_at_def)
  have r: "read_at 4 (le_encode 4 0) 0 = Some 0"
    by code_simp
  have e: "drop 4 (le_encode 4 0) = []"
    by simp
  have "WriteHandler local_ops c ((message WRITE)\<lparr>keys := [key], vals := [le_encode 4 0]\<rparr>) ?s = None"
    using assms w by (auto simp: WriteHandler_def r e Let_def split_beta local.put_succeeds)
  moreover have "ExecuteHandle APPEND l key [] t = None"
    if "local_lookup (backend t) key \<noteq> None" "externalOpHandlerMap t = externalOpHandlerMap ?s" for t
    using h(2) that by (auto simp: ExecuteHandle_def AppendRankInfoMap_def local.get_spec)
  then have "AppendHandler local_ops up c ((message APPEND)\<lparr>keys := [key], vals := [[]]\<rparr>) ?s = None"
    using assms by (auto simp: AppendHandler_def Let_def split_beta local.put_lookup)
  ultimately show ?thesis
    by simp
qed

theorem empty_record_divides_by_zero_witness:
  "WriteHandler local_ops \<lparr>seqNo = 1, ctxLink = Some 7\<rparr>
      ((message WRITE)\<lparr>keys := [str ''k''], vals := [le_encode 4 0]\<rparr>)
      (RegisterHandlerToStore local_ops (new_server 8 example_kv new_fault_handler)) = None"
proof -
  have "ctxLink \<lparr>seqNo = 1, ctxLink = Some 7\<rparr> = Some 7" and "length (str ''k'') \<le> 2048"
    by (simp_all add: str_def)
  from empty_record_divides_by_zero [OF this] show ?thesis
    by blast
qed

end
