(* ===== verification/Store_Contract.thy ===== *)
theory Store_Contract
  imports Store_Client_Properties
begin

text \<open>
  What users of the configuration store rely on: the locale \<open>kv_store\<close> states the laws of a store's
  operations over a view of its contents, for keys and values within the limits of client and packer.
  The TCP store against a server with the in-memory backend is an interpretation; other components
  prove their lemmas inside the locale.
\<close>

section \<open>The contract\<close>

definition key_ok :: "bytes \<Rightarrow> bool" where
  "key_ok k \<longleftrightarrow> k \<noteq> [] \<and> length k \<le> 1024 \<and> take (length AutoRankingStr) k \<noteq> AutoRankingStr"

abbreviation val_ok :: "bytes \<Rightarrow> bool" where
  "val_ok v \<equiv> length v \<le> 67108864"

locale kv_store =
  fixes st :: "'s store_ops"
    and view :: "'s \<Rightarrow> bytes \<rightharpoonup> bytes"
    and ok :: "'s \<Rightarrow> bool"
    and good :: "bytes \<Rightarrow> bool"
  assumes set_law: "ok s \<Longrightarrow> good k \<Longrightarrow> val_ok v \<Longrightarrow>
      \<exists>t. st_set st k v s = Some (0, t) \<and> ok t \<and> view t = (view s)(k \<mapsto> v)"
    and get_law: "ok s \<Longrightarrow> good k \<Longrightarrow> view s k = Some v \<Longrightarrow> val_ok v \<Longrightarrow>
      st_get st k out timeout s = Some (0, v, s)"
    and miss_law: "ok s \<Longrightarrow> good k \<Longrightarrow> view s k = None \<Longrightarrow>
      st_get st k out 0 s = Some (store_code NOT_EXIST, out, s)"
    and block_law: "ok s \<Longrightarrow> good k \<Longrightarrow> view s k = None \<Longrightarrow> timeout \<noteq> 0 \<Longrightarrow> st_get st k out timeout s = None"
    and append_law: "ok s \<Longrightarrow> good k \<Longrightarrow> val_ok v \<Longrightarrow> new = case_option [] id (view s k) @ v \<Longrightarrow>
      length new < 2 ^ 63 \<Longrightarrow>
      \<exists>t. st_append st k v size0 s = Some (0, of_nat (length new), t) \<and> ok t \<and> view t = (view s)(k \<mapsto> new)"
    and add_law: "ok s \<Longrightarrow> good k \<Longrightarrow> view s k = map_option to_string old \<Longrightarrow> long_range n \<Longrightarrow>
      \<forall>m. old = Some m \<longrightarrow> long_range m \<and> long_range (m + n) \<Longrightarrow>
      \<exists>t. st_add st k n out' s = Some (0, case_option 0 id old + n, t) \<and> ok t \<and>
        view t = (view s)(k \<mapsto> to_string (case_option 0 id old + n))"
    and write_law: "ok s \<Longrightarrow> good k \<Longrightarrow> length v \<le> 67108860 \<Longrightarrow> unat offset \<le> 65535 * length v \<Longrightarrow>
      \<exists>t. st_write st k v offset s = Some (0, t) \<and> ok t \<and>
        view t = (view s)(k \<mapsto> overwrite_at (unat offset) v (case_option [] id (view s k)))"
    and remove_law: "ok s \<Longrightarrow> good k \<Longrightarrow>
      \<exists>t. st_remove st k s = Some (if view s k = None then store_code NOT_EXIST else 0, t) \<and> ok t \<and>
        view t = (view s)(k := None)"
    and cas_law: "ok s \<Longrightarrow> good k \<Longrightarrow> val_ok expect \<Longrightarrow> val_ok v \<Longrightarrow>
      cur = case_option [] id (view s k) \<Longrightarrow> val_ok cur \<Longrightarrow>
      \<exists>t. st_cas st k expect v out s = Some (0, cur, t) \<and> ok t \<and>
        view t = (if cur = expect then (view s)(k \<mapsto> v) else view s)"

text \<open>A prefix keeps the laws, for the keys that are good with the prefix before them.\<close>

lemma kv_store_prefix:
  assumes "kv_store st view ok good"
  shows "kv_store (prefix_store st p) (\<lambda>s k. view s (p @ k)) ok (\<lambda>k. good (p @ k))"
proof -
  have sel: "st_set (prefix_store st p) k = st_set st (p @ k)" "st_get (prefix_store st p) k = st_get st (p @ k)"
    "st_append (prefix_store st p) k = st_append st (p @ k)" "st_add (prefix_store st p) k = st_add st (p @ k)"
    "st_write (prefix_store st p) k = st_write st (p @ k)" "st_remove (prefix_store st p) k = st_remove st (p @ k)"
    "st_cas (prefix_store st p) k = st_cas st (p @ k)" for k
    by (simp_all add: prefix_store_def)
  have upd: "view t = (view s)(p @ k := x) \<Longrightarrow> (\<lambda>j. view t (p @ j)) = (\<lambda>j. view s (p @ j))(k := x)" for s t k x
    by (simp add: fun_eq_iff)
  show ?thesis
  proof (unfold_locales, unfold sel)
    show "\<exists>t. st_set st (p @ k) v s = Some (0, t) \<and> ok t \<and> (\<lambda>j. view t (p @ j)) = (\<lambda>j. view s (p @ j))(k \<mapsto> v)"
      if "ok s" "good (p @ k)" "val_ok v" for s k v
      using kv_store.set_law [OF assms that] upd by blast
    show "st_get st (p @ k) out timeout s = Some (0, v, s)"
      if "ok s" "good (p @ k)" "view s (p @ k) = Some v" "val_ok v" for s k v out timeout
      using kv_store.get_law [OF assms that] .
    show "st_get st (p @ k) out 0 s = Some (store_code NOT_EXIST, out, s)"
      if "ok s" "good (p @ k)" "view s (p @ k) = None" for s k out
      using kv_store.miss_law [OF assms that] .
    show "st_get st (p @ k) out timeout s = None"
      if "ok s" "good (p @ k)" "view s (p @ k) = None" "timeout \<noteq> 0" for s k out timeout
      using kv_store.block_law [OF assms that] .
    show "\<exists>t. st_append st (p @ k) v size0 s = Some (0, of_nat (length new), t) \<and> ok t \<and>
        (\<lambda>j. view t (p @ j)) = (\<lambda>j. view s (p @ j))(k \<mapsto> new)"
      if "ok s" "good (p @ k)" "val_ok v" "new = case_option [] id (view s (p @ k)) @ v" "length new < 2 ^ 63"
      for s k v new size0
      using kv_store.append_law [OF assms that] upd by blast
    show "\<exists>t. st_add st (p @ k) n out' s = Some (0, case_option 0 id old + n, t) \<and> ok t \<and>
        (\<lambda>j. view t (p @ j)) = (\<lambda>j. view s (p @ j))(k \<mapsto> to_string (case_option 0 id old + n))"
      if "ok s" "good (p @ k)" "view s (p @ k) = map_option to_string old" "long_range n"
        "\<forall>m. old = Some m \<longrightarrow> long_range m \<and> long_range (m + n)" for s k old n out'
      using kv_store.add_law [OF assms that] upd by blast
    show "\<exists>t. st_write st (p @ k) v offset s = Some (0, t) \<and> ok t \<and>
        (\<lambda>j. view t (p @ j)) = (\<lambda>j. view s (p @ j))(k \<mapsto> overwrite_at (unat offset) v (case_option [] id (view s (p @ k))))"
      if "ok s" "good (p @ k)" "length v \<le> 67108860" "unat offset \<le> 65535 * length v" for s k v offset
      using kv_store.write_law [OF assms that] upd by blast
    show "\<exists>t. st_remove st (p @ k) s = Some (if view s (p @ k) = None then store_code NOT_EXIST else 0, t) \<and> ok t \<and>
        (\<lambda>j. view t (p @ j)) = (\<lambda>j. view s (p @ j))(k := None)"
      if "ok s" "good (p @ k)" for s k
      using kv_store.remove_law [OF assms that] upd by blast
    show "\<exists>t. st_cas st (p @ k) expect v out s = Some (0, cur, t) \<and> ok t \<and>
        (\<lambda>j. view t (p @ j)) = (if cur = expect then (\<lambda>j. view s (p @ j))(k \<mapsto> v) else (\<lambda>j. view s (p @ j)))"
      if "ok s" "good (p @ k)" "val_ok expect" "val_ok v" "cur = case_option [] id (view s (p @ k))" "val_ok cur"
      for s k expect v cur out
    proof -
      note law = kv_store.cas_law [OF assms that, of out]
      obtain t where "st_cas st (p @ k) expect v out s = Some (0, cur, t)" "ok t"
        "view t = (if cur = expect then (view s)(p @ k \<mapsto> v) else view s)"
        using law by blast
      then show ?thesis
        using upd [of t s k "Some v"] by auto
    qed
  qed
qed

section \<open>The TCP store\<close>

definition server_ok :: "('b, 'x) AccStoreServer \<Rightarrow> bool" where
  "server_ok s \<longleftrightarrow> waiters_ok s \<and> no_handlers s"

definition server_view :: "(LocalBackend, 'x) AccStoreServer \<Rightarrow> bytes \<rightharpoonup> bytes" where
  "server_view s = local_lookup (backend s)"

lemma no_handlers_handlers:
  "SetHandler ops up c m s = Some (t, rs, r) \<Longrightarrow> no_handlers s \<Longrightarrow> no_handlers t"
  "AppendHandler ops up c m s = Some (t, rs, r) \<Longrightarrow> no_handlers s \<Longrightarrow> no_handlers t"
  "AddHandler ops up c m s = Some (t, rs, r) \<Longrightarrow> no_handlers s \<Longrightarrow> no_handlers t"
  "WriteHandler ops c m s = Some (t, rs, r) \<Longrightarrow> no_handlers s \<Longrightarrow> no_handlers t"
  "CasHandler ops up c m s = Some (t, rs, r) \<Longrightarrow> no_handlers s \<Longrightarrow> no_handlers t"
  by (auto simp: SetHandler_def CasHandler_def AppendHandler_def AddHandler_def WriteHandler_def ExecuteHandle_none Let_def
      case_prod_beta cpp_simps split: if_splits option.splits)

lemma exchange_reply:
  assumes "requestHandlers (mt m) = Some h" and "wf_message m"
    and "h ops up now c m s = Some (t, (c, code, payload) # rs, r)" and "k \<noteq> []" and "length k \<le> 1024"
  shows "request_reply (server_exchange ops up now c) k m s =
    Some (Inr \<lparr>rspResult = code, rspData = Some payload\<rparr>, t)"
  using server_exchange_packed [OF assms(2,1,3)] assms(4,5) by (simp add: request_reply_def)

lemma server_ok_handlers:
  "SetHandler ops up c m s = Some (t, rs, r) \<Longrightarrow> server_ok s \<Longrightarrow> server_ok t"
  "AppendHandler ops up c m s = Some (t, rs, r) \<Longrightarrow> server_ok s \<Longrightarrow> server_ok t"
  "AddHandler ops up c m s = Some (t, rs, r) \<Longrightarrow> server_ok s \<Longrightarrow> server_ok t"
  "WriteHandler ops c m s = Some (t, rs, r) \<Longrightarrow> server_ok s \<Longrightarrow> server_ok t"
  "CasHandler ops up c m s = Some (t, rs, r) \<Longrightarrow> server_ok s \<Longrightarrow> server_ok t"
  by (auto simp: server_ok_def intro: no_handlers_handlers waiters_ok_SetHandler waiters_ok_AppendHandler
      waiters_ok_AddHandler waiters_ok_WriteHandler waiters_ok_CasHandler)

lemma Set_contract:
  assumes "server_ok s" and "key_ok k" and "val_ok v" and "ctxLink c \<noteq> None"
  shows "\<exists>t. Set (server_exchange local_ops up now c) k v s = Some (0, t) \<and> server_ok t \<and>
    server_view t = (server_view s)(k \<mapsto> v)"
proof -
  let ?m = "(message SET)\<lparr>keys := [k], vals := [v]\<rparr>"
  have s: "waiters_ok s" "no_handlers s" "length k \<le> 2048" "k \<noteq> []" "length k \<le> 1024"
    using assms by (simp_all add: server_ok_def key_ok_def)
  have m: "mt ?m = SET" "keys ?m = [k]" "vals ?m = [v]"
    by (simp_all add: message_def)
  obtain t rs where run: "SetHandler local_ops up c ?m s = Some (t, (c, store_code SUCCESS, str ''success'') # rs, SM_OK)"
    and post: "server_view t = (server_view s)(k \<mapsto> v)"
  proof (cases "server_view s k")
    case None
    with local.SetHandler_creates [OF s(1,2) assms(4) s(3) _ m(2,3), of up] that show ?thesis
      unfolding server_view_def by blast
  next
    case (Some old)
    with local.SetHandler_overwrites [OF s(2) assms(4) s(3) _ m(2,3), of up] that show ?thesis
      by (simp add: server_view_def local.put_lookup)
  qed
  have "request_reply (server_exchange local_ops up now c) k ?m s =
      Some (Inr \<lparr>rspResult = store_code SUCCESS, rspData = Some (str ''success'')\<rparr>, t)"
    by (rule exchange_reply [where h = "\<lambda>ops up now c m s. SetHandler ops up c m s"])
      (use run m s assms(3) in \<open>simp_all add: wf_request\<close>)
  with post server_ok_handlers(1) [OF run assms(1)] show ?thesis
    by (simp add: Set_def)
qed

lemma Get_contract_miss:
  assumes "server_ok s" and "key_ok k" and "server_view s k = None" and "ctxLink c \<noteq> None"
  shows "GetReal (server_exchange local_ops up now c) k out 0 s = Some (store_code NOT_EXIST, out, s)"
proof -
  let ?m = "(message GET)\<lparr>keys := [k], userDef := 0\<rparr>"
  have k: "length k \<le> 2048" "k \<noteq> []" "length k \<le> 1024" "take (length AutoRankingStr) k \<noteq> AutoRankingStr"
    using assms(2) by (simp_all add: key_ok_def)
  have m: "mt ?m = GET" "keys ?m = [k]" "vals ?m = []" "userDef ?m = 0"
    by (simp_all add: message_def)
  have "GetHandler local_ops now c ?m s = Some (s, [(c, store_code NOT_EXIST, str ''<not exist>'')], SM_ERROR)"
    using assms k m by (auto simp: GetHandler_def local.get_spec server_view_def server_ok_def ExecuteHandle_none Let_def)
  then have "request_reply (server_exchange local_ops up now c) k ?m s =
      Some (Inr \<lparr>rspResult = store_code NOT_EXIST, rspData = Some (str ''<not exist>'')\<rparr>, s)"
    by (intro exchange_reply [where h = "\<lambda>ops up now. GetHandler ops now"]) (use m k in \<open>simp_all add: wf_request\<close>)
  then show ?thesis
    by (simp add: GetReal_def)
qed

lemma of_nat_length: "n < 2 ^ 63 \<Longrightarrow> String2Int 64 (to_string (int n)) = Some (int n)"
  by (rule String2Int_to_string) simp_all

lemma Append_contract:
  assumes "server_ok s" and "key_ok k" and "val_ok v" and "ctxLink c \<noteq> None"
    and "new = case_option [] id (server_view s k) @ v" and "length new < 2 ^ 63"
  shows "\<exists>t. Append (server_exchange local_ops up now c) k v out s = Some (0, of_nat (length new), t) \<and> server_ok t \<and>
    server_view t = (server_view s)(k \<mapsto> new)"
proof -
  let ?m = "(message APPEND)\<lparr>keys := [k], vals := [v]\<rparr>"
  have s: "waiters_ok s" "no_handlers s" "length k \<le> 2048" "k \<noteq> []" "length k \<le> 1024"
    using assms by (simp_all add: server_ok_def key_ok_def)
  have m: "mt ?m = APPEND" "keys ?m = [k]" "vals ?m = [v]"
    by (simp_all add: message_def)
  obtain t rs where run: "AppendHandler local_ops up c ?m s =
      Some (t, (c, store_code SUCCESS, to_string (int (length new))) # rs, SM_OK)"
    and post: "server_view t = (server_view s)(k \<mapsto> new)"
    using local.AppendHandler_appends [OF s(1,2) assms(4) s(3) m(2,3), of up] assms(5)
    unfolding server_view_def by auto
  have "request_reply (server_exchange local_ops up now c) k ?m s =
      Some (Inr \<lparr>rspResult = store_code SUCCESS, rspData = Some (to_string (int (length new)))\<rparr>, t)"
    by (rule exchange_reply [where h = "\<lambda>ops up now c m s. AppendHandler ops up c m s"])
      (use run m s assms(3) in \<open>simp_all add: wf_request\<close>)
  with post server_ok_handlers(2) [OF run assms(1)] of_nat_length [OF assms(6)] show ?thesis
    by (simp add: Append_def)
qed

lemma to_string_zero: "to_string 0 = str ''0''"
  by (simp add: to_string_def dec_digits.simps str_def)

lemma Add_reply:
  assumes "long_range n"
  shows "String2Int 64 (to_string n) = Some n" and "errno_erange stale (to_string n) = False"
    and "length (to_string n) \<le> 67108864"
proof -
  have r: "LLONG_MIN \<le> n" "n \<le> LLONG_MAX"
    using assms by (simp_all add: long_range_def)
  then show "String2Int 64 (to_string n) = Some n"
    by (rule String2Int_to_string)
  show "errno_erange stale (to_string n) = False"
    using r by (simp add: errno_erange_def to_string_nonempty c_str_to_string strtoll_to_string)
  have "nat \<bar>n\<bar> < 10 ^ 20"
    using r by simp
  from length_dec_digits [OF this] show "length (to_string n) \<le> 67108864"
    using r by (auto simp: to_string_def not_less)
qed

lemma Add_contract:
  assumes "server_ok s" and "key_ok k" and "ctxLink c \<noteq> None" and "server_view s k = map_option to_string old"
    and "long_range n" and "\<forall>m. old = Some m \<longrightarrow> long_range m \<and> long_range (m + n)"
  shows "\<exists>t. Add stale (server_exchange local_ops up now c) k n out s = Some (0, case_option 0 id old + n, t) \<and>
    server_ok t \<and> server_view t = (server_view s)(k \<mapsto> to_string (case_option 0 id old + n))"
proof -
  let ?m = "(message ADD)\<lparr>keys := [k], vals := [to_string n]\<rparr>" and ?n = "case_option 0 id old + n"
  have s: "waiters_ok s" "no_handlers s" "length k \<le> 2048" "k \<noteq> []" "length k \<le> 1024"
    using assms by (simp_all add: server_ok_def key_ok_def)
  have m: "mt ?m = ADD" "keys ?m = [k]" "vals ?m = [to_string n]"
    by (simp_all add: message_def)
  have l: "long_range ?n"
    using assms(5,6) by (cases old) simp_all
  obtain t rs where run: "AddHandler local_ops up c ?m s = Some (t, (c, store_code SUCCESS, to_string ?n) # rs, SM_OK)"
    and post: "server_view t = (server_view s)(k \<mapsto> to_string ?n)"
    using local.AddHandler_adds [OF s(1,2) assms(3) s(3) m(2,3) assms(5) _ assms(6), of up] assms(4)
    unfolding server_view_def by auto
  have "request_reply (server_exchange local_ops up now c) k ?m s =
      Some (Inr \<lparr>rspResult = store_code SUCCESS, rspData = Some (to_string ?n)\<rparr>, t)"
    by (rule exchange_reply [where h = "\<lambda>ops up now c m s. AddHandler ops up c m s"])
      (use run m s Add_reply(3) [OF assms(5)] in \<open>simp_all add: wf_request\<close>)
  with post server_ok_handlers(3) [OF run assms(1)] Add_reply(1,2) [OF l] show ?thesis
    by (auto simp: Add_def Let_def to_string_zero)
qed

lemma Write_contract:
  assumes "server_ok s" and "key_ok k" and "ctxLink c \<noteq> None" and "length v \<le> 67108860"
    and "unat offset \<le> 65535 * length v"
  shows "\<exists>t. Write (server_exchange local_ops up now c) k v offset s = Some (0, t) \<and> server_ok t \<and>
    server_view t = (server_view s)(k \<mapsto> overwrite_at (unat offset) v (case_option [] id (server_view s k)))"
proof -
  let ?m = "(message WRITE)\<lparr>keys := [k], vals := [le_word offset @ v]\<rparr>"
  have s: "waiters_ok s" "no_handlers s" "length k \<le> 2048" "k \<noteq> []" "length k \<le> 1024"
    using assms by (simp_all add: server_ok_def key_ok_def)
  have m: "mt ?m = WRITE" "keys ?m = [k]" "vals ?m = [le_encode 4 (unat offset) @ v]"
    by (simp_all add: message_def le_word_def)
  have o: "unat offset < 2 ^ 32"
    using unsigned_less [of offset, where 'a = nat] by simp
  have l: "length (le_word offset @ v) \<le> 67108864"
    using assms(4) by (simp add: le_word_def)
  obtain t where run: "WriteHandler local_ops c ?m s = Some (t, [(c, store_code SUCCESS, str ''success'')], SM_OK)"
    and post: "server_view t =
      (server_view s)(k \<mapsto> overwrite_at (unat offset) v (case_option [] id (server_view s k)))"
    using local.WriteHandler_patches [OF s(2) assms(3) s(3) m(2,3) o assms(5)] unfolding server_view_def by auto
  have "request_reply (server_exchange local_ops up now c) k ?m s =
      Some (Inr \<lparr>rspResult = store_code SUCCESS, rspData = Some (str ''success'')\<rparr>, t)"
    by (rule exchange_reply [where h = "\<lambda>ops up now c m s. WriteHandler ops c m s"])
      (use run m s wf_request(1) [OF s(5) l] in simp_all)
  with post server_ok_handlers(4) [OF run assms(1)] show ?thesis
    by (simp add: Write_def)
qed

lemma Get_contract_block:
  assumes "server_ok s" and "key_ok k" and "server_view s k = None" and "timeout \<noteq> 0"
  shows "GetReal (server_exchange local_ops up now c) k out timeout s = None"
proof -
  let ?m = "(message GET)\<lparr>keys := [k], userDef := timeout\<rparr>"
  have k: "length k \<le> 2048" "k \<noteq> []" "length k \<le> 1024" "take (length AutoRankingStr) k \<noteq> AutoRankingStr"
    using assms(2) by (simp_all add: key_ok_def)
  have m: "mt ?m = GET" "keys ?m = [k]" "vals ?m = []" "userDef ?m = timeout"
    by (simp_all add: message_def)
  have wf: "wf_message ?m"
    using k(3) by (rule wf_request(2))
  have "GetHandler local_ops now c ?m s = None \<or> (\<exists>t r. GetHandler local_ops now c ?m s = Some (t, [], r))"
    using assms k m
    by (cases "ctxLink c") (auto simp: GetHandler_def local.get_spec server_view_def server_ok_def ExecuteHandle_none Let_def)
  then have "server_exchange local_ops up now c (Pack ?m) s = None"
    using wf m(1) by (auto simp: server_exchange_def ReceiveMessageHandler_packed)
  then show ?thesis
    using k by (simp add: GetReal_def request_reply_def)
qed

lemma Remove_contract:
  assumes "server_ok s" and "key_ok k"
  shows "\<exists>t. Remove (server_exchange local_ops up now c) k s =
      Some (if server_view s k = None then store_code NOT_EXIST else 0, t) \<and> server_ok t \<and>
    server_view t = (server_view s)(k := None)"
proof -
  let ?m = "(message REMOVE)\<lparr>keys := [k]\<rparr>"
  have k: "length k \<le> 2048" "k \<noteq> []" "length k \<le> 1024"
    using assms(2) by (simp_all add: key_ok_def)
  have m: "mt ?m = REMOVE" "keys ?m = [k]" "vals ?m = []"
    by (simp_all add: message_def)
  obtain t code msg where run: "RemoveHandler local_ops c ?m s = Some (t, [(c, code, msg)], SM_OK)"
    and code: "code = (if server_view s k = None then store_code NOT_EXIST else 0)"
    and t: "server_ok t" "server_view t = (server_view s)(k := None)"
    using assms(1) k m
    by (cases "server_view s k")
      (auto simp: RemoveHandler_def Let_def local.exist_success_iff local.delete_lookup server_view_def server_ok_def
        no_handlers_def fun_eq_iff)
  have "request_reply (server_exchange local_ops up now c) k ?m s =
      Some (Inr \<lparr>rspResult = code, rspData = Some msg\<rparr>, t)"
    by (rule exchange_reply [where h = "\<lambda>ops up now. RemoveHandler ops"]) (use run m k in \<open>simp_all add: wf_request\<close>)
  with t code show ?thesis
    by (simp add: Remove_def)
qed

lemma Cas_contract:
  assumes "server_ok s" and "key_ok k" and "val_ok expect" and "val_ok v"
    and "cur = case_option [] id (server_view s k)" and "val_ok cur"
  shows "\<exists>t. Cas (server_exchange local_ops up now c) k expect v out s = Some (0, cur, t) \<and> server_ok t \<and>
    server_view t = (if cur = expect then (server_view s)(k \<mapsto> v) else server_view s)"
proof -
  let ?m = "(message CAS)\<lparr>keys := [k], vals := [expect, v]\<rparr>"
  have s: "waiters_ok s" "no_handlers s" "length k \<le> 2048" "k \<noteq> []" "length k \<le> 1024"
    using assms by (simp_all add: server_ok_def key_ok_def)
  have m: "mt ?m = CAS" "keys ?m = [k]" "vals ?m = [expect, v]"
    by (simp_all add: message_def)
  have wf: "wf_message ?m"
    using s(5) assms(3,4) by (simp add: wf_message_def message_def)
  obtain t rs where run: "CasHandler local_ops up c ?m s = Some (t, (c, store_code SUCCESS, value_message CAS cur) # rs, SM_OK)"
    and post: "server_view t = (if cur = expect then (server_view s)(k \<mapsto> v) else server_view s)"
    using local.CasHandler_spec [OF s(1,3) m(2,3), of up c] assms(5) unfolding server_view_def m(1) by auto
  have "server_ok t"
    using server_ok_handlers(5) [OF run assms(1)] .
  moreover have "request_reply (server_exchange local_ops up now c) k ?m s =
      Some (Inr \<lparr>rspResult = store_code SUCCESS, rspData = Some (value_message CAS cur)\<rparr>, t)"
    by (rule exchange_reply [where h = "\<lambda>ops up now. CasHandler ops up"]) (use run m s wf in simp_all)
  ultimately show ?thesis
    using post response_value_message [OF assms(6), of 0 CAS] by (auto simp: Cas_def)
qed

lemma PrefixConfigStore_tcp: "PrefixConfigStore core (tcp_store stale exch) p = prefix_store core p"
  by (simp add: PrefixConfigStore_def tcp_store_def)

interpretation tcp: kv_store "tcp_store stale (server_exchange local_ops up now \<lparr>seqNo = q, ctxLink = Some l\<rparr>)"
  server_view server_ok key_ok for stale up now q l
proof
  let ?c = "\<lparr>seqNo = q, ctxLink = Some l\<rparr>"
  have c: "ctxLink ?c \<noteq> None"
    by simp
  let ?st = "tcp_store stale (server_exchange local_ops up now ?c)"
  show "\<exists>t. st_set ?st k v s = Some (0, t) \<and> server_ok t \<and> server_view t = (server_view s)(k \<mapsto> v)"
    if "server_ok s" "key_ok k" "val_ok v" for s :: "(LocalBackend, 'a) AccStoreServer" and k v
    using Set_contract [OF that c] by (simp add: tcp_store_def)
  show "st_get ?st k out timeout s = Some (0, v, s)"
    if "server_ok s" "key_ok k" "server_view s k = Some v" "val_ok v"
    for s :: "(LocalBackend, 'a) AccStoreServer" and k v out timeout
    using GetReal_server [of s k v] that by (simp add: tcp_store_def server_view_def key_ok_def)
  show "st_get ?st k out 0 s = Some (store_code NOT_EXIST, out, s)"
    if "server_ok s" "key_ok k" "server_view s k = None" for s :: "(LocalBackend, 'a) AccStoreServer" and k out
    using Get_contract_miss [OF that c] by (simp add: tcp_store_def)
  show "\<exists>t. st_append ?st k v size0 s = Some (0, of_nat (length new), t) \<and> server_ok t \<and>
      server_view t = (server_view s)(k \<mapsto> new)"
    if "server_ok s" "key_ok k" "val_ok v" "new = case_option [] id (server_view s k) @ v" "length new < 2 ^ 63"
    for s :: "(LocalBackend, 'a) AccStoreServer" and k v new size0
    using Append_contract [OF that(1-3) c that(4,5)] by (simp add: tcp_store_def)
  show "\<exists>t. st_add ?st k n out' s = Some (0, case_option 0 id old + n, t) \<and> server_ok t \<and>
      server_view t = (server_view s)(k \<mapsto> to_string (case_option 0 id old + n))"
    if "server_ok s" "key_ok k" "server_view s k = map_option to_string old" "long_range n"
      "\<forall>m. old = Some m \<longrightarrow> long_range m \<and> long_range (m + n)"
    for s :: "(LocalBackend, 'a) AccStoreServer" and k old n out'
    using Add_contract [OF that(1,2) c that(3-5)] by (simp add: tcp_store_def)
  show "\<exists>t. st_write ?st k v offset s = Some (0, t) \<and> server_ok t \<and>
      server_view t = (server_view s)(k \<mapsto> overwrite_at (unat offset) v (case_option [] id (server_view s k)))"
    if "server_ok s" "key_ok k" "length v \<le> 67108860" "unat offset \<le> 65535 * length v"
    for s :: "(LocalBackend, 'a) AccStoreServer" and k v offset
    using Write_contract [OF that(1,2) c that(3,4)] by (simp add: tcp_store_def)
  show "st_get ?st k out timeout s = None"
    if "server_ok s" "key_ok k" "server_view s k = None" "timeout \<noteq> 0"
    for s :: "(LocalBackend, 'a) AccStoreServer" and k out timeout
    using Get_contract_block [OF that] by (simp add: tcp_store_def)
  show "\<exists>t. st_remove ?st k s = Some (if server_view s k = None then store_code NOT_EXIST else 0, t) \<and> server_ok t \<and>
      server_view t = (server_view s)(k := None)"
    if "server_ok s" "key_ok k" for s :: "(LocalBackend, 'a) AccStoreServer" and k
    using Remove_contract [OF that] by (simp add: tcp_store_def)
  show "\<exists>t. st_cas ?st k expect v out s = Some (0, cur, t) \<and> server_ok t \<and>
      server_view t = (if cur = expect then (server_view s)(k \<mapsto> v) else server_view s)"
    if "server_ok s" "key_ok k" "val_ok expect" "val_ok v" "cur = case_option [] id (server_view s k)" "val_ok cur"
    for s :: "(LocalBackend, 'a) AccStoreServer" and k expect v cur out
    using Cas_contract [OF that] by (simp add: tcp_store_def)
qed

end
