(* ===== verification/Trans_Store_Helper.thy ===== *)
theory Trans_Store_Helper
  imports Fault_Handler Store_Contract
begin

text \<open>
  The transfer engine's use of the configuration store, \<open>SmemStoreHelper\<close>
  (\<^verbatim>\<open>src/smem/csrc/smem_trans/smem_trans_store_helper.h/.cpp\<close>): ranks are taken by appending to a shared
  value, devices and slices are published as records of fixed size behind a status byte, and peers find
  changes by comparing a published value with the one they saw last.

  The operations work on a store given by its operations (\<open>store_ops\<close>, theory \<open>Store_Client\<close>). A
  \<open>smem_trans_config_t\<close> and a \<open>StoredSliceInfo\<close> are their bytes, an exchange info is the \<open>descLen\<close> bytes in
  use of its 512; more than 512 is out of bounds. How the store object is created (\<open>Initialize\<close>,
  \<open>Destroy\<close>) is left out except for the choice of the keys.
\<close>

section \<open>State\<close>

record StoreKeys =
  deviceCount :: bytes
  sliceCount :: bytes
  deviceInfo :: bytes
  sliceInfo :: bytes
  getDeviceId :: bytes
  getSliceId :: bytes

definition senderStoreKeys :: StoreKeys where
  "senderStoreKeys = \<lparr>deviceCount = SENDER_COUNT_KEY, sliceCount = SENDER_TOTAL_SLICE_COUNT_KEY,
     deviceInfo = SENDER_DEVICE_INFO_KEY, sliceInfo = SENDER_SLICES_INFO_KEY,
     getDeviceId = SENDER_GET_DEVICE_ID_KEY, getSliceId = SENDER_GET_SLICES_ID_KEY\<rparr>"

definition receiveStoreKeys :: StoreKeys where
  "receiveStoreKeys = \<lparr>deviceCount = RECEIVER_COUNT_KEY, sliceCount = RECEIVER_TOTAL_SLICE_COUNT_KEY,
     deviceInfo = RECEIVER_DEVICE_INFO_KEY, sliceInfo = RECEIVER_SLICES_INFO_KEY,
     getDeviceId = RECEIVER_GET_DEVICE_ID_KEY, getSliceId = RECEIVER_GET_SLICES_ID_KEY\<rparr>"

datatype smem_trans_role_t = SMEM_TRANS_NONE | SMEM_TRANS_SENDER | SMEM_TRANS_RECEIVER | SMEM_TRANS_BOTH
  | SMEM_TRANS_BUTT

record SmemStoreHelper =
  engineName :: bytes
  localKeys :: StoreKeys
  remoteKeys :: StoreKeys
  deviceExpSize :: nat
  sliceExpSize :: nat
  storeRankIdInfo :: "u16 \<times> bytes"
  storeDeviceInfo :: "u16 \<times> bytes"
  storeSliceInfo :: "(u16 \<times> bytes) list"
  remoteDeviceInfoLastTime :: bytes
  remoteSlicesInfoLastTime :: bytes

definition new_helper :: "bytes \<Rightarrow> StoreKeys \<Rightarrow> StoreKeys \<Rightarrow> SmemStoreHelper" where
  "new_helper n l r = \<lparr>engineName = n, localKeys = l, remoteKeys = r, deviceExpSize = 0, sliceExpSize = 0,
     storeRankIdInfo = (0, []), storeDeviceInfo = (0, []), storeSliceInfo = [],
     remoteDeviceInfoLastTime = [], remoteSlicesInfoLastTime = []\<rparr>"

text \<open>The choice of the keys at the start of \<open>Initialize\<close>; \<open>Inl\<close> is its error.\<close>

definition init_keys :: "smem_trans_role_t \<Rightarrow> result + (StoreKeys \<times> StoreKeys)" where
  "init_keys role =
     (if role = SMEM_TRANS_SENDER then Inr (senderStoreKeys, receiveStoreKeys)
      else if role = SMEM_TRANS_RECEIVER then Inr (receiveStoreKeys, senderStoreKeys)
      else Inl SM_INVALID_PARAM)"

definition SetSliceExportSize :: "nat \<Rightarrow> SmemStoreHelper \<Rightarrow> SmemStoreHelper" where
  "SetSliceExportSize n h = h\<lparr>sliceExpSize := n\<rparr>"

abbreviation (input) sizeof_StoredSliceInfo :: nat where "sizeof_StoredSliceInfo \<equiv> 48"
abbreviation (input) DESC_MAX :: nat where "DESC_MAX \<equiv> 512"

text \<open>A number in two bytes, and back; \<open>id_of\<close> indexes the bytes.\<close>

definition id_bytes :: "u16 \<Rightarrow> bytes" where
  "id_bytes i = [ucast i, ucast (drop_bit 8 i)]"

definition id_of :: "bytes \<Rightarrow> u16 cpp" where
  "id_of v = (if length v < 2 then None else Some (or (ucast (v ! 0)) (push_bit 8 (ucast (v ! 1)))))"

section \<open>Ranks\<close>

definition RecoverRankInformation ::
    "'s store_ops \<Rightarrow> bytes \<Rightarrow> u16 \<Rightarrow> bytes \<Rightarrow> bytes \<Rightarrow> SmemStoreHelper \<Rightarrow> 's \<Rightarrow>
       (result \<times> u16 \<times> bool \<times> SmemStoreHelper \<times> 's) cpp" where
  "RecoverRankInformation st rankIdValue rank cfg key h s = do {
     rank \<leftarrow> id_of rankIdValue;
     (ret, s) \<leftarrow> st_write st CLUSTER_RANKS_INFO_KEY cfg (of_nat (unat rank * length cfg)) s;
     if ret \<noteq> store_code SUCCESS then Some (ret, rank, False, h, s)
     else do {
       let h = h\<lparr>storeRankIdInfo := (rank, cfg)\<rparr>;
       (ret, s) \<leftarrow> st_set st key (id_bytes rank) s;
       if ret \<noteq> store_code SUCCESS then Some (ret, rank, False, h, s)
       else Some (store_code SUCCESS, rank, True, h, s)
     }
   }"

definition GenerateRankId ::
    "'s store_ops \<Rightarrow> bytes \<Rightarrow> u16 \<Rightarrow> SmemStoreHelper \<Rightarrow> 's \<Rightarrow> (result \<times> u16 \<times> SmemStoreHelper \<times> 's) cpp" where
  "GenerateRankId st cfg rank h s = do {
     let key = AUTO_RANK_KEY_PREFIX @ engineName h;
     (ret, rankIdValue, s) \<leftarrow> st_get st key [0, 0] 0 s;
     r \<leftarrow> (if ret = store_code NOT_EXIST then do {
         (ret, currentSize, s) \<leftarrow> st_append st CLUSTER_RANKS_INFO_KEY cfg 0 s;
         if ret \<noteq> store_code SUCCESS then Some (Inl (SM_ERROR, rank, h, s))
         else do {
           let rank = of_nat (unat currentSize div length cfg) - 1;
           let h = h\<lparr>storeRankIdInfo := (rank, cfg)\<rparr>;
           (ret, s) \<leftarrow> st_set st key (id_bytes rank) s;
           if ret \<noteq> store_code SUCCESS then Some (Inl (SM_ERROR, rank, h, s))
           else Some (Inr (ret, id_bytes rank, rank, False, h, s))
         }
       }
       else if ret = store_code RESTORE then do {
         (ret, rank, isRestore, h, s) \<leftarrow> RecoverRankInformation st rankIdValue rank cfg key h s;
         if ret \<noteq> store_code SUCCESS then Some (Inl (SM_ERROR, rank, h, s))
         else Some (Inr (ret, rankIdValue, rank, isRestore, h, s))
       }
       else Some (Inr (ret, rankIdValue, rank, False, h, s)));
     case r of
       Inl out \<Rightarrow> Some out
     | Inr (ret, rankIdValue, rank, isRestore, h, s) \<Rightarrow>
         if ret = store_code SUCCESS then
           if length rankIdValue \<noteq> 2 \<and> \<not> isRestore then Some (SM_ERROR, rank, h, s)
           else do { rank \<leftarrow> id_of rankIdValue; Some (SM_OK, rank, h, s) }
         else Some (SM_ERROR, rank, h, s)
   }"

definition ReRegisterToServer :: "'s store_ops \<Rightarrow> u16 \<Rightarrow> SmemStoreHelper \<Rightarrow> 's \<Rightarrow> (result \<times> 's) cpp" where
  "ReRegisterToServer st rank h s = do {
     let key = AUTO_RANK_KEY_PREFIX @ engineName h;
     (ret, rankIdValue, s) \<leftarrow> st_get st key [0, 0] 0 s;
     r \<leftarrow> (if ret = store_code NOT_EXIST then do {
         let offset = of_nat (length (snd (storeRankIdInfo h)) * unat (fst (storeRankIdInfo h)));
         (ret, s) \<leftarrow> st_write st CLUSTER_RANKS_INFO_KEY (snd (storeRankIdInfo h)) offset s;
         if ret \<noteq> store_code SUCCESS then Some (Inl (SM_ERROR, s))
         else do {
           (ret, s) \<leftarrow> st_set st key (id_bytes rank) s;
           if ret \<noteq> store_code SUCCESS then Some (Inl (SM_ERROR, s))
           else Some (Inr (ret, id_bytes rank, s))
         }
       }
       else Some (Inr (ret, rankIdValue, s)));
     Some (case r of
         Inl out \<Rightarrow> out
       | Inr (ret, rankIdValue, s) \<Rightarrow>
           if ret = store_code SUCCESS then if length rankIdValue \<noteq> 2 then (SM_ERROR, s) else (SM_OK, s)
           else (SM_ERROR, s))
   }"

section \<open>Publishing devices and slices\<close>

definition StoreDeviceInfo ::
    "'s store_ops \<Rightarrow> bytes \<Rightarrow> SmemStoreHelper \<Rightarrow> 's \<Rightarrow> (result \<times> SmemStoreHelper \<times> 's) cpp" where
  "StoreDeviceInfo st info h s =
     (if length info > DESC_MAX then None
      else do {
        let h = h\<lparr>deviceExpSize := length info\<rparr>;
        let value = NORMAL # info;
        (ret, getValue, s) \<leftarrow> st_get st (getDeviceId (localKeys h)) [] 0 s;
        r \<leftarrow> (if ret = store_code RESTORE then do {
            i \<leftarrow> id_of getValue;
            (ret, s) \<leftarrow> st_write st (deviceInfo (localKeys h)) value (of_nat (unat i * length value)) s;
            if ret \<noteq> 0 then Some (Inl (SM_ERROR, h, s))
            else Some (Inr (h\<lparr>storeDeviceInfo := (i, value)\<rparr>, s))
          }
          else do {
            (ret, total, s) \<leftarrow> st_append st (deviceInfo (localKeys h)) value 0 s;
            if ret \<noteq> 0 then Some (Inl (SM_ERROR, h, s))
            else Some (Inr (h\<lparr>storeDeviceInfo := (of_nat (unat total div length value) - 1, value)\<rparr>, s))
          });
        case r of
          Inl out \<Rightarrow> Some out
        | Inr (h, s) \<Rightarrow> do {
            (ret, _, s) \<leftarrow> st_add st (deviceCount (localKeys h)) 1 0 s;
            Some (if ret \<noteq> 0 then SM_ERROR else SM_OK, h, s)
          }
      })"

definition ReStoreDeviceInfo :: "'s store_ops \<Rightarrow> SmemStoreHelper \<Rightarrow> 's \<Rightarrow> (result \<times> 's) cpp" where
  "ReStoreDeviceInfo st h s = do {
     let (i, value) = storeDeviceInfo h;
     (ret, s) \<leftarrow> st_write st (deviceInfo (localKeys h)) value (of_nat (unat i * length value)) s;
     if ret \<noteq> 0 then Some (SM_ERROR, s)
     else do {
       (ret, _, s) \<leftarrow> st_add st (deviceCount (localKeys h)) 1 0 s;
       Some (if ret \<noteq> 0 then SM_ERROR else SM_OK, s)
     }
   }"

definition StoreSliceInfo ::
    "'s store_ops \<Rightarrow> bytes \<Rightarrow> bytes \<Rightarrow> SmemStoreHelper \<Rightarrow> 's \<Rightarrow> (result \<times> SmemStoreHelper \<times> 's) cpp" where
  "StoreSliceInfo st info sl h s =
     (if length info > DESC_MAX then None
      else do {
        let value = NORMAL # sl @ info;
        (ret, getValue, s) \<leftarrow> st_get st (getSliceId (localKeys h)) [] 0 s;
        r \<leftarrow> (if ret = store_code RESTORE then do {
            i \<leftarrow> id_of getValue;
            (ret, s) \<leftarrow> st_write st (sliceInfo (localKeys h)) value (of_nat (unat i * length value)) s;
            if ret \<noteq> 0 then Some (Inl (SM_ERROR, h, s))
            else Some (Inr (h\<lparr>storeSliceInfo := storeSliceInfo h @ [(i, value)]\<rparr>, s))
          }
          else do {
            (ret, total, s) \<leftarrow> st_append st (sliceInfo (localKeys h)) value 0 s;
            let valueOffset = of_int (int (unat total div length value) - 1);
            let h = h\<lparr>storeSliceInfo := storeSliceInfo h @ [(valueOffset, value)]\<rparr>;
            if ret \<noteq> 0 then Some (Inl (SM_ERROR, h, s)) else Some (Inr (h, s))
          });
        case r of
          Inl out \<Rightarrow> Some out
        | Inr (h, s) \<Rightarrow> do {
            (ret, _, s) \<leftarrow> st_add st (sliceCount (localKeys h)) 1 0 s;
            Some (if ret \<noteq> 0 then SM_ERROR else SM_OK, h, s)
          }
      })"

fun restore_slices :: "'s store_ops \<Rightarrow> StoreKeys \<Rightarrow> (u16 \<times> bytes) list \<Rightarrow> 's \<Rightarrow> (result \<times> 's) cpp" where
  "restore_slices st ks [] s = Some (SM_OK, s)"
| "restore_slices st ks ((i, value) # infos) s = do {
     (ret, s) \<leftarrow> st_write st (sliceInfo ks) value (of_nat (unat i * length value)) s;
     if ret \<noteq> 0 then Some (SM_ERROR, s)
     else do {
       (ret, _, s) \<leftarrow> st_add st (sliceCount ks) 1 0 s;
       if ret \<noteq> 0 then Some (SM_ERROR, s) else restore_slices st ks infos s
     }
   }"

definition ReStoreSliceInfo :: "'s store_ops \<Rightarrow> SmemStoreHelper \<Rightarrow> 's \<Rightarrow> (result \<times> 's) cpp" where
  "ReStoreSliceInfo st h s = restore_slices st (localKeys h) (storeSliceInfo h) s"

section \<open>Finding changes\<close>

text \<open>
  A published value is a sequence of records, a status byte and \<open>n\<close> bytes of data. The loops over the
  records are the same for devices and slices. They return the data of the records to add, the data of
  those to remove, and the new local copy.
\<close>

definition status_at :: "nat \<Rightarrow> bytes \<Rightarrow> nat \<Rightarrow> byte" where
  "status_at n v i = v ! (i * (n + 1))"

definition data_at :: "nat \<Rightarrow> bytes \<Rightarrow> nat \<Rightarrow> bytes" where
  "data_at n v i = take n (drop (i * (n + 1) + 1) v)"

definition put_at :: "nat \<Rightarrow> bytes \<Rightarrow> bytes \<Rightarrow> bytes" where
  "put_at pos bs v = take pos v @ bs @ drop (pos + length bs) v"

fun compare_update :: "nat \<Rightarrow> bytes \<Rightarrow> nat list \<Rightarrow> bytes \<Rightarrow> bytes list \<times> bytes list \<times> bytes" where
  "compare_update n values [] old = ([], [], old)"
| "compare_update n values (i # js) old =
     (let cur = status_at n old i; new = status_at n values i;
          curData = data_at n old i; newData = data_at n values i; pos = i * (n + 1);
          (add, gone, old) =
            (if cur = NORMAL \<and> new = NORMAL then
               if curData \<noteq> newData then ([newData], [], put_at (pos + 1) newData old) else ([], [], old)
             else if cur = NORMAL \<and> new \<noteq> NORMAL then ([], [curData], put_at pos [ABNORMAL] old)
             else if cur \<noteq> NORMAL \<and> new = NORMAL then
               ([newData], [], put_at (pos + 1) newData (put_at pos [NORMAL] old))
             else ([], [], old));
          (adds, rems, old) = compare_update n values js old
      in (add @ adds, gone @ rems, old))"

fun take_new :: "nat \<Rightarrow> bytes \<Rightarrow> nat list \<Rightarrow> bytes \<Rightarrow> bytes list \<times> bytes" where
  "take_new n values [] old = ([], old)"
| "take_new n values (i # js) old =
     (let new = status_at n values i; newData = data_at n values i; pos = i * (n + 1);
          (add, old) =
            (if new = NORMAL then ([newData], put_at (pos + 1) newData (put_at pos [NORMAL] old))
             else ([], put_at (pos + 1) newData (put_at pos [ABNORMAL] old)));
          (adds, old) = take_new n values js old
      in (add @ adds, old))"

definition vec_resize :: "nat \<Rightarrow> bytes \<Rightarrow> bytes" where
  "vec_resize n v = take n v @ replicate (n - length v) 0"

definition rec_count :: "nat \<Rightarrow> bytes \<Rightarrow> nat" where
  "rec_count n v = length v div (n + 1) mod 2 ^ 32"

definition CompareAndUpdateDeviceInfo ::
    "nat \<Rightarrow> bytes \<Rightarrow> bytes list \<Rightarrow> SmemStoreHelper \<Rightarrow> (bytes list \<times> SmemStoreHelper) cpp" where
  "CompareAndUpdateDeviceInfo minCount values addInfo h =
     (let (adds, rems, old) =
        compare_update (deviceExpSize h) values [0..<minCount] (remoteDeviceInfoLastTime h)
      in if deviceExpSize h > DESC_MAX \<and> (adds \<noteq> [] \<or> rems \<noteq> []) then None
         else Some (addInfo @ adds, h\<lparr>remoteDeviceInfoLastTime := old\<rparr>))"

definition ExtraDeviceChangeInfo ::
    "bytes \<Rightarrow> bytes list \<Rightarrow> SmemStoreHelper \<Rightarrow> (bytes list \<times> SmemStoreHelper) cpp" where
  "ExtraDeviceChangeInfo values addInfo h =
     (if remoteDeviceInfoLastTime h = values then Some (addInfo, h)
      else do {
        let n = deviceExpSize h;
        let newCount = rec_count n values;
        let curCount = rec_count n (remoteDeviceInfoLastTime h);
        let minCount = min newCount curCount;
        (addInfo, h) \<leftarrow> CompareAndUpdateDeviceInfo minCount values addInfo h;
        if newCount > curCount then
          let (adds, old) = take_new n values [minCount..<newCount]
                (vec_resize (length values) (remoteDeviceInfoLastTime h))
          in if n > DESC_MAX \<and> adds \<noteq> [] then None
             else Some (addInfo @ adds, h\<lparr>remoteDeviceInfoLastTime := old\<rparr>)
        else Some (addInfo, h)
      })"

text \<open>A slice's data is its \<open>StoredSliceInfo\<close> followed by the exchange info.\<close>

definition CompareAndUpdateSliceInfo ::
    "nat \<Rightarrow> bytes \<Rightarrow> bytes list \<Rightarrow> bytes list \<Rightarrow> bytes list \<Rightarrow> SmemStoreHelper \<Rightarrow>
       (bytes list \<times> bytes list \<times> bytes list \<times> SmemStoreHelper) cpp" where
  "CompareAndUpdateSliceInfo minCount values addInfo addStoreSs removeStoreSs h =
     (let (adds, rems, old) = compare_update (sliceExpSize h + sizeof_StoredSliceInfo) values [0..<minCount]
        (remoteSlicesInfoLastTime h)
      in if sliceExpSize h > DESC_MAX \<and> adds \<noteq> [] then None
         else Some (addInfo @ map (drop sizeof_StoredSliceInfo) adds, addStoreSs @ map (take sizeof_StoredSliceInfo) adds,
           removeStoreSs @ map (take sizeof_StoredSliceInfo) rems, h\<lparr>remoteSlicesInfoLastTime := old\<rparr>))"

definition ExtraSliceChangeInfo ::
    "bytes \<Rightarrow> bytes list \<Rightarrow> bytes list \<Rightarrow> bytes list \<Rightarrow> SmemStoreHelper \<Rightarrow>
       (bytes list \<times> bytes list \<times> bytes list \<times> SmemStoreHelper) cpp" where
  "ExtraSliceChangeInfo values addInfo addStoreSs removeStoreSs h =
     (if remoteSlicesInfoLastTime h = values then Some (addInfo, addStoreSs, removeStoreSs, h)
      else do {
        let n = sliceExpSize h + sizeof_StoredSliceInfo;
        let newCount = rec_count n values;
        let curCount = rec_count n (remoteSlicesInfoLastTime h);
        let minCount = min newCount curCount;
        (addInfo, addStoreSs, removeStoreSs, h) \<leftarrow>
          CompareAndUpdateSliceInfo minCount values addInfo addStoreSs removeStoreSs h;
        if newCount > curCount then
          let (adds, old) = take_new n values [minCount..<newCount]
                (vec_resize (length values) (remoteSlicesInfoLastTime h))
          in if sliceExpSize h > DESC_MAX \<and> adds \<noteq> [] then None
             else Some (addInfo @ map (drop sizeof_StoredSliceInfo) adds,
               addStoreSs @ map (take sizeof_StoredSliceInfo) adds, removeStoreSs,
               h\<lparr>remoteSlicesInfoLastTime := old\<rparr>)
        else Some (addInfo, addStoreSs, removeStoreSs, h)
      })"

text \<open>
  The callbacks are the caller's: a round returns what it is called with, or \<open>None\<close> inside when it is
  not called. Their result is only logged.
\<close>

definition FindNewRemoteRanks ::
    "'s store_ops \<Rightarrow> SmemStoreHelper \<Rightarrow> 's \<Rightarrow> (bytes list option \<times> SmemStoreHelper \<times> 's) cpp" where
  "FindNewRemoteRanks st h s =
     (if deviceExpSize h = 0 then Some (None, h, s)
      else do {
        (ret, totalValue, s) \<leftarrow> st_add st (deviceCount (remoteKeys h)) 0 0 s;
        if ret \<noteq> 0 then Some (None, h, s)
        else if totalValue = 0 \<and> remoteDeviceInfoLastTime h = [] then Some (None, h, s)
        else do {
          (ret, values, s) \<leftarrow> st_get st (deviceInfo (remoteKeys h)) [] (- 1) s;
          if ret \<noteq> 0 then Some (None, h, s)
          else do {
            (addInfo, h) \<leftarrow> ExtraDeviceChangeInfo values [] h;
            Some (Some addInfo, h, s)
          }
        }
      })"

definition FindNewRemoteSlices ::
    "'s store_ops \<Rightarrow> SmemStoreHelper \<Rightarrow> 's \<Rightarrow>
       ((bytes list \<times> bytes list \<times> bytes list) option \<times> SmemStoreHelper \<times> 's) cpp" where
  "FindNewRemoteSlices st h s =
     (if sliceExpSize h = 0 then Some (None, h, s)
      else do {
        (ret, totalValue, s) \<leftarrow> st_add st (sliceCount (remoteKeys h)) 0 0 s;
        if ret \<noteq> 0 then Some (None, h, s)
        else if totalValue = 0 \<and> remoteSlicesInfoLastTime h = [] then Some (None, h, s)
        else do {
          (ret, values, s) \<leftarrow> st_get st (sliceInfo (remoteKeys h)) [] (- 1) s;
          if ret \<noteq> 0 then Some (None, h, s)
          else do {
            (addInfo, addStoreSs, removeStoreSs, h) \<leftarrow> ExtraSliceChangeInfo values [] [] [] h;
            Some (Some (addInfo, addStoreSs, removeStoreSs), h, s)
          }
        }
      })"

section \<open>Records\<close>

text \<open>Record \<open>i\<close> of a value, status and data together, and what one comparison makes of it.\<close>

definition rec_at :: "nat \<Rightarrow> bytes \<Rightarrow> nat \<Rightarrow> byte \<times> bytes" where
  "rec_at n v i = (status_at n v i, data_at n v i)"

definition holds :: "nat \<Rightarrow> bytes \<Rightarrow> nat \<Rightarrow> bool" where
  "holds n v i \<longleftrightarrow> (i + 1) * (n + 1) \<le> length v"

definition is_new :: "byte \<times> bytes \<Rightarrow> byte \<times> bytes \<Rightarrow> bool" where
  "is_new cur new \<longleftrightarrow> fst new = NORMAL \<and> cur \<noteq> new"

definition is_gone :: "byte \<times> bytes \<Rightarrow> byte \<times> bytes \<Rightarrow> bool" where
  "is_gone cur new \<longleftrightarrow> fst cur = NORMAL \<and> fst new \<noteq> NORMAL"

definition merged :: "byte \<times> bytes \<Rightarrow> byte \<times> bytes \<Rightarrow> byte \<times> bytes" where
  "merged cur new = (if fst new = NORMAL then new else if fst cur = NORMAL then (ABNORMAL, snd cur) else cur)"

lemma length_put_at [simp]: "pos + length bs \<le> length v \<Longrightarrow> length (put_at pos bs v) = length v"
  by (simp add: put_at_def)

lemma nth_put_at:
  "pos + length bs \<le> length v \<Longrightarrow> j < length v \<Longrightarrow>
    put_at pos bs v ! j = (if pos \<le> j \<and> j < pos + length bs then bs ! (j - pos) else v ! j)"
  by (auto simp: put_at_def nth_append min_def)

lemma put_at_other:
  assumes "pos + length bs \<le> length v" and "q + m \<le> pos \<or> pos + length bs \<le> q" and "q + m \<le> length v"
  shows "take m (drop q (put_at pos bs v)) = take m (drop q v)"
  using assms by (intro nth_equalityI) (auto simp: nth_put_at)

lemma put_at_same:
  "pos + length bs \<le> length v \<Longrightarrow> take (length bs) (drop pos (put_at pos bs v)) = bs"
  by (simp add: put_at_def)

lemma status_data_block:
  "holds n v i \<Longrightarrow> status_at n v i # data_at n v i = take (n + 1) (drop (i * (n + 1)) v)"
  by (simp add: holds_def status_at_def data_at_def Cons_nth_drop_Suc [symmetric])

lemma length_data_at [simp]: "holds n v i \<Longrightarrow> length (data_at n v i) = n"
  by (simp add: holds_def data_at_def)

lemma rec_at_block:
  assumes "holds n v i" and "take (n + 1) (drop (i * (n + 1)) v) = st # d"
  shows "rec_at n v i = (st, d)"
  using status_data_block [OF assms(1)] assms(2) by (simp add: rec_at_def)

lemma rec_at_put_other:
  assumes "holds n v i" and "holds n v j" and "i \<noteq> j" and "length bs = n + 1"
  shows "rec_at n (put_at (i * (n + 1)) bs v) j = rec_at n v j"
proof -
  have "j * (n + 1) + (n + 1) \<le> i * (n + 1) \<or> i * (n + 1) + (n + 1) \<le> j * (n + 1)"
  proof (cases "j < i")
    case True
    then have "(j + 1) * (n + 1) \<le> i * (n + 1)"
      by (intro mult_le_mono1) simp
    then show ?thesis
      by simp
  next
    case False
    with assms(3) have "(i + 1) * (n + 1) \<le> j * (n + 1)"
      by (intro mult_le_mono1) simp
    then show ?thesis
      by simp
  qed
  then have "take (n + 1) (drop (j * (n + 1)) (put_at (i * (n + 1)) bs v)) = take (n + 1) (drop (j * (n + 1)) v)"
    using assms by (intro put_at_other) (auto simp: holds_def)
  moreover have "holds n (put_at (i * (n + 1)) bs v) j"
    using assms by (simp add: holds_def)
  ultimately have "rec_at n (put_at (i * (n + 1)) bs v) j = (status_at n v j, data_at n v j)"
    using status_data_block [OF assms(2)] by (intro rec_at_block) (simp_all only:)
  then show ?thesis
    by (simp only: rec_at_def)
qed

lemma rec_at_put_same:
  assumes "holds n v i" and "length d = n"
  shows "rec_at n (put_at (i * (n + 1)) (st # d) v) i = (st, d)"
  using assms put_at_same [of "i * (n + 1)" "st # d" v]
  by (intro rec_at_block) (simp_all add: holds_def)

text \<open>The three ways the loops write are writes of one record.\<close>

lemma put_at_append: "pos + length as + length bs \<le> length v \<Longrightarrow>
    put_at (pos + length as) bs (put_at pos as v) = put_at pos (as @ bs) v"
  by (simp add: put_at_def ac_simps)

lemma put_at_id: "pos + m \<le> length v \<Longrightarrow> put_at pos (take m (drop pos v)) v = v"
  by (simp add: put_at_def min_def) (metis add.commute append_take_drop_id drop_drop)

lemma put_both:
  "holds n v i \<Longrightarrow> length d = n \<Longrightarrow>
    put_at (i * (n + 1) + 1) d (put_at (i * (n + 1)) [st] v) = put_at (i * (n + 1)) (st # d) v"
  using put_at_append [of "i * (n + 1)" "[st]" d v] by (simp add: holds_def)

lemma put_data:
  assumes "holds n v i" and "length d = n"
  shows "put_at (i * (n + 1) + 1) d v = put_at (i * (n + 1)) (status_at n v i # d) v"
proof -
  have "put_at (i * (n + 1)) [status_at n v i] v = v"
    using put_at_id [of "i * (n + 1)" 1 v] assms(1)
    by (simp add: holds_def status_at_def take_Suc hd_drop_conv_nth)
  with put_both [OF assms, of "status_at n v i"] show ?thesis
    by simp
qed

lemma put_status:
  assumes "holds n v i"
  shows "put_at (i * (n + 1)) [st] v = put_at (i * (n + 1)) (st # data_at n v i) v"
proof -
  have h: "holds n (put_at (i * (n + 1)) [st] v) i"
    using assms by (simp add: holds_def)
  have "data_at n (put_at (i * (n + 1)) [st] v) i = data_at n v i"
    using put_at_other [of "i * (n + 1)" "[st]" v "i * (n + 1) + 1" n] assms by (simp add: data_at_def holds_def)
  moreover have "put_at (i * (n + 1) + 1) (data_at n (put_at (i * (n + 1)) [st] v) i) (put_at (i * (n + 1)) [st] v) =
      put_at (i * (n + 1)) [st] v"
    using h by (simp add: data_at_def holds_def put_at_id)
  ultimately show ?thesis
    using put_both [OF assms, of "data_at n v i" st] assms by simp
qed

definition set_rec :: "nat \<Rightarrow> bytes \<Rightarrow> nat \<Rightarrow> byte \<times> bytes \<Rightarrow> bytes" where
  "set_rec n v i r = put_at (i * (n + 1)) (fst r # snd r) v"

lemma set_rec_id: "holds n v i \<Longrightarrow> set_rec n v i (rec_at n v i) = v"
  using put_at_id [of "i * (n + 1)" "n + 1" v] status_data_block [of n v i]
  by (simp add: set_rec_def rec_at_def holds_def)

lemma length_set_rec [simp]: "holds n v i \<Longrightarrow> length (snd r) = n \<Longrightarrow> length (set_rec n v i r) = length v"
  by (simp add: set_rec_def holds_def)

lemma holds_cong: "length v = length w \<Longrightarrow> holds n v i = holds n w i"
  by (simp add: holds_def)

lemma rec_at_set_rec:
  "holds n v i \<Longrightarrow> holds n v j \<Longrightarrow> length (snd r) = n \<Longrightarrow>
    rec_at n (set_rec n v i r) j = (if j = i then r else rec_at n v j)"
  using rec_at_put_same [of n v i "snd r" "fst r"] rec_at_put_other [of n v i j "fst r # snd r"]
  by (simp add: set_rec_def)

lemma length_snd_rec_at [simp]: "holds n v i \<Longrightarrow> length (snd (rec_at n v i)) = n"
  by (simp add: rec_at_def)

lemma length_merged [simp]:
  "length (snd cur) = n \<Longrightarrow> length (snd new) = n \<Longrightarrow> length (snd (merged cur new)) = n"
  by (simp add: merged_def)

lemma compare_update_step:
  assumes "holds n values i" and "holds n old i"
  shows "compare_update n values (i # js) old =
    (let (adds, gone, old') = compare_update n values js (set_rec n old i (merged (rec_at n old i) (rec_at n values i)))
     in ((if is_new (rec_at n old i) (rec_at n values i) then [data_at n values i] else []) @ adds,
         (if is_gone (rec_at n old i) (rec_at n values i) then [data_at n old i] else []) @ gone, old'))"
proof -
  have same: "set_rec n old i (status_at n old i, data_at n old i) = old"
    using set_rec_id [OF assms(2)] by (simp add: rec_at_def)
  show ?thesis
    using same put_data [OF assms(2) length_data_at [OF assms(1)]] put_status [OF assms(2), of ABNORMAL]
      put_both [OF assms(2) length_data_at [OF assms(1)], of NORMAL]
    by (auto simp: is_new_def is_gone_def merged_def rec_at_def set_rec_def Let_def split_beta)
qed

lemma compare_update_spec:
  assumes "\<forall>i \<in> set js. holds n values i \<and> holds n old i" and "distinct js"
  shows "\<exists>old'. compare_update n values js old =
      (map (data_at n values) (filter (\<lambda>i. is_new (rec_at n old i) (rec_at n values i)) js),
       map (data_at n old) (filter (\<lambda>i. is_gone (rec_at n old i) (rec_at n values i)) js), old') \<and>
    length old' = length old \<and>
    (\<forall>j. holds n old j \<longrightarrow> rec_at n old' j =
       (if j \<in> set js then merged (rec_at n old j) (rec_at n values j) else rec_at n old j))"
  using assms
proof (induction js arbitrary: old)
  case Nil
  then show ?case
    by simp
next
  case (Cons i js)
  let ?m = "merged (rec_at n old i) (rec_at n values i)"
  let ?o = "set_rec n old i ?m"
  have h: "holds n values i" "holds n old i"
    using Cons.prems by simp_all
  have l: "length (snd ?m) = n"
    using h by simp
  have len: "length ?o = length old"
    using h l by simp
  have r: "rec_at n ?o j = (if j = i then ?m else rec_at n old j)" if "holds n old j" for j
    by (rule rec_at_set_rec [OF h(2) that l])
  have rj: "rec_at n ?o j = rec_at n old j" if "j \<in> set js" for j
    using r [of j] Cons.prems that by auto
  then have dj: "data_at n ?o j = data_at n old j" if "j \<in> set js" for j
    using that unfolding rec_at_def by simp
  have "\<forall>j \<in> set js. holds n values j \<and> holds n ?o j"
    using Cons.prems(1) holds_cong [OF len] by simp
  from Cons.IH [OF this] Cons.prems(2) obtain old' where IH:
    "compare_update n values js ?o =
      (map (data_at n values) (filter (\<lambda>i. is_new (rec_at n ?o i) (rec_at n values i)) js),
       map (data_at n ?o) (filter (\<lambda>i. is_gone (rec_at n ?o i) (rec_at n values i)) js), old')"
    "length old' = length ?o"
    "\<forall>j. holds n ?o j \<longrightarrow> rec_at n old' j =
       (if j \<in> set js then merged (rec_at n ?o j) (rec_at n values j) else rec_at n ?o j)"
    by auto
  have fn: "filter (\<lambda>j. is_new (rec_at n ?o j) (rec_at n values j)) js =
      filter (\<lambda>j. is_new (rec_at n old j) (rec_at n values j)) js"
    and fg: "filter (\<lambda>j. is_gone (rec_at n ?o j) (rec_at n values j)) js =
      filter (\<lambda>j. is_gone (rec_at n old j) (rec_at n values j)) js"
    using rj by (auto intro!: filter_cong)
  have m: "map (data_at n ?o) (filter P js) = map (data_at n old) (filter P js)" for P
    using dj by simp
  show ?case
  proof (intro exI conjI)
    show "compare_update n values (i # js) old =
      (map (data_at n values) (filter (\<lambda>i. is_new (rec_at n old i) (rec_at n values i)) (i # js)),
       map (data_at n old) (filter (\<lambda>i. is_gone (rec_at n old i) (rec_at n values i)) (i # js)), old')"
      by (simp add: compare_update_step [OF h] IH(1) fn fg m del: compare_update.simps)
    show "length old' = length old"
      by (simp add: IH(2) len)
    show "\<forall>j. holds n old j \<longrightarrow> rec_at n old' j =
       (if j \<in> set (i # js) then merged (rec_at n old j) (rec_at n values j) else rec_at n old j)"
      using IH(3) r holds_cong [OF len] Cons.prems(2) by auto
  qed
qed

text \<open>The same for the records the local copy does not have yet.\<close>

lemma take_new_step:
  assumes "holds n values i" and "holds n old i"
  shows "take_new n values (i # js) old =
    (let st = if status_at n values i = NORMAL then NORMAL else ABNORMAL;
         (adds, old') = take_new n values js (set_rec n old i (st, data_at n values i))
     in ((if status_at n values i = NORMAL then [data_at n values i] else []) @ adds, old'))"
  using put_both [OF assms(2) length_data_at [OF assms(1)], of NORMAL]
    put_both [OF assms(2) length_data_at [OF assms(1)], of ABNORMAL]
  by (simp add: set_rec_def Let_def split_beta)

lemma take_new_spec:
  assumes "\<forall>i \<in> set js. holds n values i \<and> holds n old i" and "distinct js"
  shows "\<exists>old'. take_new n values js old =
      (map (data_at n values) (filter (\<lambda>i. status_at n values i = NORMAL) js), old') \<and>
    length old' = length old \<and>
    (\<forall>j. holds n old j \<longrightarrow> rec_at n old' j =
       (if j \<in> set js then (if status_at n values j = NORMAL then NORMAL else ABNORMAL, data_at n values j)
        else rec_at n old j))"
  using assms
proof (induction js arbitrary: old)
  case Nil
  then show ?case
    by simp
next
  case (Cons i js)
  let ?m = "(if status_at n values i = NORMAL then NORMAL else ABNORMAL, data_at n values i)"
  let ?o = "set_rec n old i ?m"
  have h: "holds n values i" "holds n old i"
    using Cons.prems by simp_all
  have l: "length (snd ?m) = n"
    using h by simp
  have len: "length ?o = length old"
    using h l by simp
  have r: "rec_at n ?o j = (if j = i then ?m else rec_at n old j)" if "holds n old j" for j
    by (rule rec_at_set_rec [OF h(2) that l])
  have "\<forall>j \<in> set js. holds n values j \<and> holds n ?o j"
    using Cons.prems(1) holds_cong [OF len] by simp
  from Cons.IH [OF this] Cons.prems(2) obtain old' where IH:
    "take_new n values js ?o = (map (data_at n values) (filter (\<lambda>i. status_at n values i = NORMAL) js), old')"
    "length old' = length ?o"
    "\<forall>j. holds n ?o j \<longrightarrow> rec_at n old' j =
       (if j \<in> set js then (if status_at n values j = NORMAL then NORMAL else ABNORMAL, data_at n values j)
        else rec_at n ?o j)"
    by auto
  show ?case
  proof (intro exI conjI)
    show "take_new n values (i # js) old =
      (map (data_at n values) (filter (\<lambda>i. status_at n values i = NORMAL) (i # js)), old')"
      using IH(1) by (simp add: take_new_step [OF h] Let_def del: take_new.simps)
    show "length old' = length old"
      by (simp add: IH(2) len)
    show "\<forall>j. holds n old j \<longrightarrow> rec_at n old' j =
       (if j \<in> set (i # js) then (if status_at n values j = NORMAL then NORMAL else ABNORMAL, data_at n values j)
        else rec_at n old j)"
      using IH(3) r holds_cong [OF len] Cons.prems(2) by auto
  qed
qed

text \<open>One comparison as a whole, for devices and slices alike.\<close>

definition change :: "nat \<Rightarrow> bytes \<Rightarrow> bytes \<Rightarrow> bytes list \<times> bytes list \<times> bytes" where
  "change n values old =
     (if old = values then ([], [], old)
      else
        let newCount = rec_count n values; curCount = rec_count n old; minCount = min newCount curCount;
            (adds, gone, old') = compare_update n values [0..<minCount] old
        in if newCount > curCount then
             let (news, old'') = take_new n values [minCount..<newCount] (vec_resize (length values) old')
             in (adds @ news, gone, old'')
           else (adds, gone, old'))"

lemma ExtraDeviceChangeInfo_change:
  assumes "deviceExpSize h \<le> DESC_MAX"
  shows "ExtraDeviceChangeInfo values addInfo h =
    (let (adds, gone, old') = change (deviceExpSize h) values (remoteDeviceInfoLastTime h)
     in Some (addInfo @ adds, h\<lparr>remoteDeviceInfoLastTime := old'\<rparr>))"
  using assms by (simp add: ExtraDeviceChangeInfo_def CompareAndUpdateDeviceInfo_def change_def Let_def split_beta)

lemma ExtraSliceChangeInfo_change:
  assumes "sliceExpSize h \<le> DESC_MAX"
  shows "ExtraSliceChangeInfo values addInfo addStoreSs removeStoreSs h =
    (let (adds, gone, old') = change (sliceExpSize h + sizeof_StoredSliceInfo) values (remoteSlicesInfoLastTime h)
     in Some (addInfo @ map (drop sizeof_StoredSliceInfo) adds, addStoreSs @ map (take sizeof_StoredSliceInfo) adds,
          removeStoreSs @ map (take sizeof_StoredSliceInfo) gone, h\<lparr>remoteSlicesInfoLastTime := old'\<rparr>))"
  using assms by (simp add: ExtraSliceChangeInfo_def CompareAndUpdateSliceInfo_def change_def Let_def split_beta)

lemma holds_iff: "holds n v i \<longleftrightarrow> i < length v div (n + 1)"
  by (simp add: holds_def less_eq_div_iff_mult_less_eq Suc_le_eq [symmetric] del: add_is_1)

lemma rec_count_eq: "length v < 2 ^ 32 \<Longrightarrow> rec_count n v = length v div (n + 1)"
  unfolding rec_count_def by (rule mod_less) (rule le_less_trans [OF div_le_dividend])

lemma rec_at_resize:
  "length v \<le> m \<Longrightarrow> holds n v i \<Longrightarrow> rec_at n (vec_resize m v) i = rec_at n v i"
  by (auto simp: rec_at_def status_at_def data_at_def vec_resize_def holds_def nth_append)

text \<open>Which records are new, and the local copy a comparison leaves.\<close>

definition news :: "nat \<Rightarrow> bytes \<Rightarrow> bytes \<Rightarrow> nat list" where
  "news n values old = filter (\<lambda>i. status_at n values i = NORMAL \<and>
     (i < length old div (n + 1) \<longrightarrow> rec_at n old i \<noteq> rec_at n values i)) [0..<length values div (n + 1)]"

definition gones :: "nat \<Rightarrow> bytes \<Rightarrow> bytes \<Rightarrow> nat list" where
  "gones n values old = filter (\<lambda>i. status_at n old i = NORMAL \<and> status_at n values i \<noteq> NORMAL)
     [0..<min (length values div (n + 1)) (length old div (n + 1))]"

definition copied :: "nat \<Rightarrow> bytes \<Rightarrow> bytes \<Rightarrow> bool" where
  "copied n values old \<longleftrightarrow> length values div (n + 1) \<le> length old div (n + 1) \<and>
     (\<forall>i < length values div (n + 1).
        if status_at n values i = NORMAL then rec_at n old i = rec_at n values i else status_at n old i \<noteq> NORMAL)"

lemma merged_ok:
  "if fst new = NORMAL then merged cur new = new else fst (merged cur new) \<noteq> NORMAL"
  by (simp add: merged_def)

lemma filter_split_upt: "k \<le> m \<Longrightarrow> filter P [0..<k] @ filter P [k..<m] = filter P [0..<m]"
  by (metis filter_append le_add_diff_inverse upt_add_eq_append zero_le)

lemma is_new_iff: "is_new (rec_at n old i) (rec_at n values i) \<longleftrightarrow>
    status_at n values i = NORMAL \<and> rec_at n old i \<noteq> rec_at n values i"
  by (simp add: is_new_def rec_at_def)

lemma is_gone_iff: "is_gone (rec_at n old i) (rec_at n values i) \<longleftrightarrow>
    status_at n old i = NORMAL \<and> status_at n values i \<noteq> NORMAL"
  by (simp add: is_gone_def rec_at_def)

lemma change_spec:
  assumes "length values < 2 ^ 32" and "length old < 2 ^ 32"
  shows "\<exists>old'. change n values old =
      (map (data_at n values) (news n values old), map (data_at n old) (gones n values old), old') \<and>
    copied n values old' \<and> length old' < 2 ^ 32"
proof (cases "old = values")
  case True
  then show ?thesis
    using assms by (simp add: change_def news_def gones_def copied_def rec_at_def)
next
  case False
  let ?k = "length values div (n + 1)" and ?c = "length old div (n + 1)"
  note cnt = rec_count_eq [OF assms(1), of n] rec_count_eq [OF assms(2), of n]
  have "\<forall>i \<in> set [0..<min ?k ?c]. holds n values i \<and> holds n old i"
    by (simp add: holds_iff)
  from compare_update_spec [OF this] obtain old1 where o1:
    "compare_update n values [0..<min ?k ?c] old =
      (map (data_at n values) (filter (\<lambda>i. is_new (rec_at n old i) (rec_at n values i)) [0..<min ?k ?c]),
       map (data_at n old) (filter (\<lambda>i. is_gone (rec_at n old i) (rec_at n values i)) [0..<min ?k ?c]), old1)"
    "length old1 = length old"
    "\<forall>j. holds n old j \<longrightarrow> rec_at n old1 j =
       (if j \<in> set [0..<min ?k ?c] then merged (rec_at n old j) (rec_at n values j) else rec_at n old j)"
    by auto
  have g: "filter (\<lambda>i. is_gone (rec_at n old i) (rec_at n values i)) [0..<min ?k ?c] = gones n values old"
    by (simp add: gones_def is_gone_iff)
  have a: "filter (\<lambda>i. is_new (rec_at n old i) (rec_at n values i)) [0..<min ?k ?c] =
      filter (\<lambda>i. status_at n values i = NORMAL \<and> (i < ?c \<longrightarrow> rec_at n old i \<noteq> rec_at n values i)) [0..<min ?k ?c]"
    by (auto simp: is_new_iff intro!: filter_cong)
  have ok1: "if status_at n values i = NORMAL then rec_at n old1 i = rec_at n values i else status_at n old1 i \<noteq> NORMAL"
    if "i < min ?k ?c" for i
    using o1(3) [rule_format, of i] that merged_ok [of "rec_at n values i" "rec_at n old i"]
    by (simp add: holds_iff rec_at_def split: if_splits) (metis fst_conv)+
  show ?thesis
  proof (cases "?k > ?c")
    case True
    have le: "length old \<le> length values"
      using True by (meson div_le_mono le_cases not_le)
    let ?o2 = "vec_resize (length values) old1"
    have l2: "length ?o2 = length values"
      using le o1(2) by (simp add: vec_resize_def)
    have "\<forall>i \<in> set [?c..<?k]. holds n values i \<and> holds n ?o2 i"
      by (simp add: holds_iff l2)
    from take_new_spec [OF this] obtain old2 where o2:
      "take_new n values [?c..<?k] ?o2 =
        (map (data_at n values) (filter (\<lambda>i. status_at n values i = NORMAL) [?c..<?k]), old2)"
      "length old2 = length ?o2"
      "\<forall>j. holds n ?o2 j \<longrightarrow> rec_at n old2 j =
         (if j \<in> set [?c..<?k] then (if status_at n values j = NORMAL then NORMAL else ABNORMAL, data_at n values j)
          else rec_at n ?o2 j)"
      by auto
    have b: "filter (\<lambda>i. status_at n values i = NORMAL) [?c..<?k] =
        filter (\<lambda>i. status_at n values i = NORMAL \<and> (i < ?c \<longrightarrow> rec_at n old i \<noteq> rec_at n values i)) [?c..<?k]"
      by (auto intro!: filter_cong)
    have "change n values old = (map (data_at n values) (news n values old),
        map (data_at n old) (gones n values old), old2)"
    proof -
      have m: "min ?k ?c = ?c"
        using True by simp
      have "filter (\<lambda>i. is_new (rec_at n old i) (rec_at n values i)) [0..<?c] @
          filter (\<lambda>i. status_at n values i = NORMAL) [?c..<?k] = news n values old"
        using a [unfolded m] b filter_split_upt [of ?c ?k] True by (simp add: news_def)
      then show ?thesis
        using True False o1(1) [unfolded m] o2(1) g [unfolded m]
        by (simp add: change_def cnt Let_def map_append [symmetric] del: map_append)
    qed
    moreover have "copied n values old2"
      unfolding copied_def
    proof (intro conjI allI impI)
      show "?k \<le> length old2 div (n + 1)"
        by (simp add: o2(2) l2)
      fix i assume i: "i < ?k"
      show "if status_at n values i = NORMAL then rec_at n old2 i = rec_at n values i else status_at n old2 i \<noteq> NORMAL"
      proof (cases "i < ?c")
        case True
        then have "rec_at n old2 i = rec_at n old1 i"
          using o2(3) [rule_format, of i] rec_at_resize [of old1 "length values" n i] i le o1(2)
          by (simp add: holds_iff l2)
        with ok1 [of i] True i show ?thesis
          by (auto simp: rec_at_def split: if_splits)
      next
        case False
        then show ?thesis
          using o2(3) [rule_format, of i] i by (simp add: holds_iff l2 rec_at_def)
      qed
    qed
    ultimately show ?thesis
      using assms(1) l2 o2(2) by auto
  next
    case small: False
    have "change n values old = (map (data_at n values) (news n values old),
        map (data_at n old) (gones n values old), old1)"
      using small False o1(1) a g by (simp add: change_def cnt Let_def news_def min_def)
    moreover have "copied n values old1"
      using ok1 small by (simp add: copied_def o1(2) min_def)
    ultimately show ?thesis
      using assms(2) o1(2) by auto
  qed
qed

lemma copied_news: "copied n values old \<Longrightarrow> news n values old = []"
  by (auto simp: copied_def news_def filter_empty_conv)

lemma copied_gones: "copied n values old \<Longrightarrow> gones n values old = []"
  by (force simp: copied_def gones_def filter_empty_conv split: if_splits)

section \<open>Taking ranks\<close>

lemma id_of_bytes [simp]: "id_of (id_bytes i) = Some i"
  by (simp add: id_of_def id_bytes_def rank_bytes)

lemma length_id_bytes [simp]: "length (id_bytes i) = 2"
  by (simp add: id_bytes_def)

text \<open>The store \<open>Initialize\<close> keeps: the client's, with the prefix of the entity.\<close>

definition helper_prefix :: "u16 \<Rightarrow> bytes" where
  "helper_prefix entityId = str ''/trans/'' @ to_string (uint entityId) @ str ''/''"

definition helper_store :: "'s store_ops \<Rightarrow> u16 \<Rightarrow> 's store_ops" where
  "helper_store tmpStore entityId = PrefixConfigStore tmpStore tmpStore (helper_prefix entityId)"

lemma length_helper_prefix: "length (helper_prefix e) \<le> 13"
proof -
  have "unat e < 10 ^ 5"
    using unsigned_less [of e, where 'a = nat] by simp
  from length_dec_digits [OF this] show ?thesis
    by (simp add: helper_prefix_def to_string_def not_less)
qed

lemma rank_key_ok: "length name \<le> 980 \<Longrightarrow> key_ok (helper_prefix e @ AUTO_RANK_KEY_PREFIX @ name)"
  using length_helper_prefix [of e]
  by (simp add: key_ok_def AUTO_RANK_KEY_PREFIX_def AutoRankingStr_def helper_prefix_def str_def)

lemma cluster_key_ok: "key_ok (helper_prefix e @ CLUSTER_RANKS_INFO_KEY)"
  using length_helper_prefix [of e]
  by (simp add: key_ok_def CLUSTER_RANKS_INFO_KEY_def AutoRankingStr_def helper_prefix_def str_def)

lemma rank_key_not_cluster: "AUTO_RANK_KEY_PREFIX @ name \<noteq> CLUSTER_RANKS_INFO_KEY"
  by (simp add: AUTO_RANK_KEY_PREFIX_def CLUSTER_RANKS_INFO_KEY_def str_def)

lemma unat_of_nat_63: "n < 2 ^ 63 \<Longrightarrow> unat (of_nat n :: u64) = n"
  by (simp add: unsigned_of_nat take_bit_nat_eq_self)

text \<open>Engines taking ranks one after another, each with its own fresh helper; any failure is no value.\<close>

fun generate_all :: "'s store_ops \<Rightarrow> bytes \<Rightarrow> bytes list \<Rightarrow> 's \<Rightarrow> (u16 list \<times> 's) option" where
  "generate_all st cfg [] s = Some ([], s)"
| "generate_all st cfg (name # names) s = do {
     (ret, rank, _, s) \<leftarrow> GenerateRankId st cfg 0 (new_helper name senderStoreKeys receiveStoreKeys) s;
     if ret \<noteq> SM_OK then None
     else do { (ranks, s) \<leftarrow> generate_all st cfg names s; Some (rank # ranks, s) }
   }"

text \<open>The stored configurations: \<open>m\<close> of them, each as long as \<open>cfg\<close>.\<close>

definition ranks_taken :: "bytes \<Rightarrow> nat \<Rightarrow> (bytes \<rightharpoonup> bytes) \<Rightarrow> bool" where
  "ranks_taken cfg m view' \<longleftrightarrow> length (case_option [] id (view' CLUSTER_RANKS_INFO_KEY)) = m * length cfg"

text \<open>What the helper needs of its store: the laws, for the two kinds of key it uses.\<close>

locale rank_store = kv_store +
  assumes rank_good: "length name \<le> 980 \<Longrightarrow> good (AUTO_RANK_KEY_PREFIX @ name)"
    and cluster_good: "good CLUSTER_RANKS_INFO_KEY"
begin

lemma GenerateRankId_registered:
  assumes "ok s" and "length (engineName h) \<le> 980"
    and "view s (AUTO_RANK_KEY_PREFIX @ engineName h) = Some (id_bytes i)"
  shows "GenerateRankId st cfg r h s = Some (SM_OK, i, h, s)"
  using get_law [OF assms(1) rank_good [OF assms(2)] assms(3)] by (simp add: GenerateRankId_def)

lemma GenerateRankId_fresh:
  assumes "ok s" and "length (engineName h) \<le> 980" and "view s (AUTO_RANK_KEY_PREFIX @ engineName h) = None"
    and "cfg \<noteq> []" and "val_ok cfg" and "ranks_taken cfg m (view s)" and "(m + 1) * length cfg < 2 ^ 63"
  shows "\<exists>t. GenerateRankId st cfg r h s = Some (SM_OK, of_nat m, h\<lparr>storeRankIdInfo := (of_nat m, cfg)\<rparr>, t) \<and> ok t \<and>
    ranks_taken cfg (m + 1) (view t) \<and>
    view t (AUTO_RANK_KEY_PREFIX @ engineName h) = Some (id_bytes (of_nat m)) \<and>
    (\<forall>k. k \<noteq> CLUSTER_RANKS_INFO_KEY \<longrightarrow> k \<noteq> AUTO_RANK_KEY_PREFIX @ engineName h \<longrightarrow> view t k = view s k)"
proof -
  let ?k = "AUTO_RANK_KEY_PREFIX @ engineName h"
  let ?new = "case_option [] id (view s CLUSTER_RANKS_INFO_KEY) @ cfg"
  note key = rank_good [OF assms(2)]
  have len: "length ?new = (m + 1) * length cfg"
    using assms(6) by (simp add: ranks_taken_def)
  obtain t where t: "st_append st CLUSTER_RANKS_INFO_KEY cfg 0 s = Some (0, of_nat (length ?new), t)" "ok t"
    "view t = (view s)(CLUSTER_RANKS_INFO_KEY \<mapsto> ?new)"
    using append_law [OF assms(1) cluster_good assms(5) refl, of 0] len assms(7) by auto
  have "unat (of_nat (length ?new) :: u64) = length ?new"
    using len assms(7) by (intro unat_of_nat_63) (simp only:)
  then have rank: "of_nat (unat (of_nat (length ?new) :: u64) div length cfg) - 1 = (of_nat m :: u16)"
    using len assms(4) by simp
  obtain u where u: "st_set st ?k (id_bytes (of_nat m)) t = Some (0, u)" "ok u"
    "view u = (view t)(?k \<mapsto> id_bytes (of_nat m))"
    using set_law [OF t(2) key, of "id_bytes (of_nat m)"] by auto
  have "GenerateRankId st cfg r h s = Some (SM_OK, of_nat m, h\<lparr>storeRankIdInfo := (of_nat m, cfg)\<rparr>, u)"
    using miss_law [OF assms(1) key assms(3), of "[0, 0]"] t(1) u(1) rank
    by (simp add: GenerateRankId_def Let_def)
  then show ?thesis
    using u(2,3) t(3) len rank_key_not_cluster [of "engineName h"] by (auto simp: ranks_taken_def)
qed

lemma generate_all_fresh:
  assumes "ok s" and "\<forall>name \<in> set names. length name \<le> 980 \<and> view s (AUTO_RANK_KEY_PREFIX @ name) = None"
    and "distinct names" and "cfg \<noteq> []" and "val_ok cfg" and "ranks_taken cfg m (view s)"
    and "(m + length names) * length cfg < 2 ^ 63"
  shows "\<exists>t. generate_all st cfg names s = Some (map of_nat [m..<m + length names], t) \<and> ok t \<and>
    (\<forall>i < length names. view t (AUTO_RANK_KEY_PREFIX @ names ! i) = Some (id_bytes (of_nat (m + i)))) \<and>
    (\<forall>name. name \<notin> set names \<longrightarrow> view t (AUTO_RANK_KEY_PREFIX @ name) = view s (AUTO_RANK_KEY_PREFIX @ name))"
  using assms
proof (induction names arbitrary: s m)
  case Nil
  then show ?case
    by simp
next
  case (Cons name names)
  let ?h = "new_helper name senderStoreKeys receiveStoreKeys"
  have n: "engineName ?h = name"
    by (simp add: new_helper_def)
  have "(m + 1) * length cfg \<le> (m + length (name # names)) * length cfg"
    by (rule mult_le_mono1) simp
  then have "(m + 1) * length cfg < 2 ^ 63"
    using Cons.prems(7) by (rule le_less_trans)
  from GenerateRankId_fresh [of s ?h cfg m 0, OF Cons.prems(1) _ _ Cons.prems(4,5,6) this] Cons.prems(2)
  obtain h' t where t: "GenerateRankId st cfg 0 ?h s = Some (SM_OK, of_nat m, h', t)" "ok t"
    "ranks_taken cfg (m + 1) (view t)" "view t (AUTO_RANK_KEY_PREFIX @ name) = Some (id_bytes (of_nat m))"
    "\<forall>k. k \<noteq> CLUSTER_RANKS_INFO_KEY \<longrightarrow> k \<noteq> AUTO_RANK_KEY_PREFIX @ name \<longrightarrow> view t k = view s k"
    unfolding n by auto
  have other: "view t (AUTO_RANK_KEY_PREFIX @ name') = view s (AUTO_RANK_KEY_PREFIX @ name')" if "name' \<noteq> name" for name'
    using t(5) rank_key_not_cluster that by simp
  have "\<forall>name' \<in> set names. length name' \<le> 980 \<and> view t (AUTO_RANK_KEY_PREFIX @ name') = None"
  proof
    fix name' assume "name' \<in> set names"
    with Cons.prems(2,3) other [of name'] show "length name' \<le> 980 \<and> view t (AUTO_RANK_KEY_PREFIX @ name') = None"
      by (cases "name' = name") auto
  qed
  moreover have "(m + 1 + length names) * length cfg < 2 ^ 63"
    using Cons.prems(7) by simp
  ultimately obtain u where u:
    "generate_all st cfg names t = Some (map of_nat [m + 1..<m + 1 + length names], u)" "ok u"
    "\<forall>i < length names. view u (AUTO_RANK_KEY_PREFIX @ names ! i) = Some (id_bytes (of_nat (m + 1 + i)))"
    "\<forall>name'. name' \<notin> set names \<longrightarrow> view u (AUTO_RANK_KEY_PREFIX @ name') = view t (AUTO_RANK_KEY_PREFIX @ name')"
    using Cons.IH [OF t(2) _ _ Cons.prems(4,5) t(3)] Cons.prems(3) by auto
  have "generate_all st cfg (name # names) s = Some (map of_nat [m..<m + length (name # names)], u)"
  proof -
    have "[m..<m + length (name # names)] = m # [m + 1..<m + 1 + length names]"
      by (simp add: upt_conv_Cons del: upt_Suc)
    then show ?thesis
      using t(1) u(1) by (simp del: upt_Suc)
  qed
  moreover have "view u (AUTO_RANK_KEY_PREFIX @ (name # names) ! i) = Some (id_bytes (of_nat (m + i)))"
    if "i < length (name # names)" for i
    using that u(3,4) t(4) Cons.prems(3) by (cases i) auto
  ultimately show ?case
    using u(2,4) other Cons.prems(3) by auto
qed

end

interpretation helper: rank_store
  "helper_store (tcp_store stale (server_exchange local_ops up now \<lparr>seqNo = q, ctxLink = Some l\<rparr>)) e"
  "\<lambda>s k. server_view s (helper_prefix e @ k)" server_ok "\<lambda>k. key_ok (helper_prefix e @ k)" for stale up now q l e
proof (rule rank_store.intro)
  show "kv_store (helper_store (tcp_store stale (server_exchange local_ops up now \<lparr>seqNo = q, ctxLink = Some l\<rparr>)) e)
      (\<lambda>s k. server_view s (helper_prefix e @ k)) server_ok (\<lambda>k. key_ok (helper_prefix e @ k))"
    unfolding helper_store_def PrefixConfigStore_tcp by (rule kv_store_prefix [OF tcp.kv_store_axioms])
  show "rank_store_axioms (\<lambda>k. key_ok (helper_prefix e @ k))"
    by unfold_locales (rule rank_key_ok cluster_key_ok, assumption?)+
qed

section \<open>Properties\<close>

text \<open>A store whose connection is lost after the first answer.\<close>

definition lost_store :: "unit store_ops" where
  "lost_store = (tcp_store False (\<lambda>body s. Some (None, s)))\<lparr>st_get := \<lambda>k out timeout s. Some (store_code NOT_EXIST, out, s)\<rparr>"

text \<open>
  C12. Ranks are handed out without gaps or duplicates, end to end through helper, prefix, client,
  packer and server. On a store where no rank is taken yet, engines with different names that register one after another, at
  most 65536 of them, get the ranks 0, 1, 2 and so on, all different; each of them gets the same rank
  when it asks again.
\<close>

theorem ranks_handed_out_once:
  assumes "server_ok s" and "server_view s (helper_prefix e @ CLUSTER_RANKS_INFO_KEY) = None"
    and "\<forall>name \<in> set names. length name \<le> 980 \<and> server_view s (helper_prefix e @ AUTO_RANK_KEY_PREFIX @ name) = None"
    and "distinct names" and "cfg \<noteq> []" and "length cfg \<le> 4096" and "length names \<le> 65536"
    and "store = helper_store (tcp_store stale (server_exchange local_ops up now \<lparr>seqNo = q, ctxLink = Some l\<rparr>)) e"
  shows "\<exists>t. generate_all store cfg names s = Some (map of_nat [0..<length names], t) \<and>
    distinct (map of_nat [0..<length names] :: u16 list) \<and>
    (\<forall>i < length names. GenerateRankId store cfg r (new_helper (names ! i) lk rk) t =
       Some (SM_OK, of_nat i, new_helper (names ! i) lk rk, t))"
proof -
  have "(0 + length names) * length cfg \<le> 65536 * 4096"
    using assms(6,7) by (intro mult_le_mono) simp_all
  then have b: "(0 + length names) * length cfg < 2 ^ 63"
    by simp
  have "ranks_taken cfg 0 (\<lambda>k. server_view s (helper_prefix e @ k))" and "val_ok cfg"
    using assms(2,6) by (simp_all add: ranks_taken_def)
  from helper.generate_all_fresh [OF assms(1,3,4,5) this(2,1) b, of stale up now q l] obtain t where
    t: "generate_all store cfg names s = Some (map of_nat [0..<length names], t)" "server_ok t"
      "\<forall>i < length names. server_view t (helper_prefix e @ AUTO_RANK_KEY_PREFIX @ names ! i) = Some (id_bytes (of_nat i))"
    by (auto simp: assms(8))
  have "inj_on (of_nat :: nat \<Rightarrow> u16) {0..<length names}"
    using assms(7) by (intro inj_onI) (simp add: word_of_nat_eq_iff take_bit_nat_eq_self)
  then have "distinct (map of_nat [0..<length names] :: u16 list)"
    by (simp add: distinct_map)
  moreover have "GenerateRankId store cfg r (new_helper (names ! i) lk rk) t =
      Some (SM_OK, of_nat i, new_helper (names ! i) lk rk, t)" if "i < length names" for i
    unfolding assms(8) using t(2,3) that assms(3)
    by (intro helper.GenerateRankId_registered) (simp_all add: new_helper_def)
  ultimately show ?thesis
    using t(1) by blast
qed

theorem ranks_handed_out_once_witness:
  "\<exists>t. generate_all
      (helper_store (tcp_store False (server_exchange local_ops (\<lambda>_. True) 0 \<lparr>seqNo = 1, ctxLink = Some 7\<rparr>)) 3)
      [1, 2] [str ''a'', str ''b''] (new_server 8 \<lparr>kvStore = []\<rparr> ()) = Some ([0, 1], t)"
proof -
  let ?s = "new_server 8 \<lparr>kvStore = []\<rparr> ()" and ?names = "[str ''a'', str ''b'']"
  have "server_ok ?s"
    by (simp add: server_ok_def no_handlers_def) (simp add: new_server_def)
  moreover have "server_view ?s (helper_prefix 3 @ CLUSTER_RANKS_INFO_KEY) = None"
    and "\<forall>name \<in> set ?names. length name \<le> 980 \<and> server_view ?s (helper_prefix 3 @ AUTO_RANK_KEY_PREFIX @ name) = None"
    by (simp_all add: server_view_def new_server_def local_lookup_def str_def)
  moreover have "distinct ?names" and "[1, 2 :: byte] \<noteq> []" and "length [1, 2 :: byte] \<le> 4096" and "length ?names \<le> 65536"
    by (simp_all add: str_def)
  moreover have "map of_nat [0..<length ?names] = [0, 1 :: u16]"
    by simp
  ultimately show ?thesis
    using ranks_handed_out_once [of ?s 3 ?names "[1, 2]", OF _ _ _ _ _ _ _ refl, of False "\<lambda>_. True" 0 1 7]
    by metis
qed

text \<open>
  C24. A comparison reports every change of the published slices exactly once. Over records, the
  byte-level routine adds the records that are normal now and were not, or had other data, in the
  order they are published, removes those that were normal and are not, and leaves a local copy that agrees
  with what is published: comparing again with the same value reports nothing.
\<close>

theorem slice_changes_reported_once:
  fixes h :: SmemStoreHelper
  defines "n \<equiv> sliceExpSize h + 48" and "old \<equiv> remoteSlicesInfoLastTime h"
  assumes "sliceExpSize h \<le> 512" and "length values < 2 ^ 32" and "length (remoteSlicesInfoLastTime h) < 2 ^ 32"
  shows "\<exists>h'. ExtraSliceChangeInfo values [] [] [] h =
      Some (map (drop 48 \<circ> data_at n values) (news n values old), map (take 48 \<circ> data_at n values) (news n values old),
        map (take 48 \<circ> data_at n old) (gones n values old), h') \<and>
    copied n values (remoteSlicesInfoLastTime h') \<and>
    (\<exists>h''. ExtraSliceChangeInfo values [] [] [] h' = Some ([], [], [], h''))"
proof -
  obtain old' where c: "change n values old =
      (map (data_at n values) (news n values old), map (data_at n old) (gones n values old), old')"
    "copied n values old'" "length old' < 2 ^ 32"
    using change_spec [OF assms(4,5), of n] unfolding old_def by blast
  obtain old'' where "change n values old' = ([], [], old'')"
    using change_spec [OF assms(4) c(3), of n] copied_news [OF c(2)] copied_gones [OF c(2)] by auto
  then show ?thesis
    using c assms(3) by (simp add: ExtraSliceChangeInfo_change n_def old_def)
qed

theorem slice_changes_reported_once_witness:
  "\<exists>h'. ExtraSliceChangeInfo (1 # replicate 48 7 @ [9]) [] [] []
      ((new_helper [] senderStoreKeys receiveStoreKeys)\<lparr>sliceExpSize := 1\<rparr>) = Some ([[9]], [replicate 48 7], [], h')"
proof -
  let ?h = "(new_helper [] senderStoreKeys receiveStoreKeys)\<lparr>sliceExpSize := 1\<rparr>" and ?v = "1 # replicate 48 7 @ [9 :: byte]"
  have h: "sliceExpSize ?h = 1" "remoteSlicesInfoLastTime ?h = []"
    by (simp_all add: new_helper_def)
  have n: "news 49 ?v [] = [0]" "gones 49 ?v [] = []"
    by (simp_all add: news_def gones_def status_at_def)
  have d: "data_at 49 ?v 0 = replicate 48 7 @ [9]"
    by (simp add: data_at_def)
  have "sliceExpSize ?h \<le> 512" and "length ?v < 2 ^ 32" and "length (remoteSlicesInfoLastTime ?h) < 2 ^ 32"
    by (simp_all add: new_helper_def)
  from slice_changes_reported_once [OF this] show ?thesis
    unfolding h by (auto simp: n d)
qed

text \<open>
  A slice whose publication failed is still remembered, as record 65535. When the append fails, the
  size it reports is 0, and recovery after a reconnect would write the slice 65535 records
  into the shared value.
\<close>

theorem failed_slice_is_remembered:
  assumes "st_get st (getSliceId (localKeys h)) [] 0 s = Some (store_code NOT_EXIST, v, s')"
    and "st_append st (sliceInfo (localKeys h)) (1 # slice' @ info) 0 s' = Some (e, 0, t)" and "e \<noteq> 0"
    and "length info \<le> 512"
  shows "\<exists>h'. StoreSliceInfo st info slice' h s = Some (SM_ERROR, h', t) \<and>
    storeSliceInfo h' = storeSliceInfo h @ [(65535, 1 # slice' @ info)]"
proof -
  have "(of_int (- 1) :: u16) = 65535"
    by simp
  with assms show ?thesis
    by (simp add: StoreSliceInfo_def Let_def)
qed

theorem failed_slice_is_remembered_witness:
  "\<exists>h'. StoreSliceInfo lost_store [5] [4] (new_helper [] senderStoreKeys receiveStoreKeys) () = Some (SM_ERROR, h', ()) \<and>
    storeSliceInfo h' = [(65535, [1, 4, 5])]"
proof -
  let ?h = "new_helper [] senderStoreKeys receiveStoreKeys"
  have g: "st_get lost_store (getSliceId (localKeys ?h)) [] 0 () = Some (store_code NOT_EXIST, [], ())"
    by (simp add: lost_store_def)
  have a: "st_append lost_store (sliceInfo (localKeys ?h)) (1 # [4] @ [5]) 0 () = Some (store_code IO_ERROR, 0, ())"
    by (simp add: lost_store_def tcp_store_def new_helper_def senderStoreKeys_def Append_def request_reply_def
        SENDER_SLICES_INFO_KEY_def str_def)
  have "store_code IO_ERROR \<noteq> 0" and "length [5 :: byte] \<le> 512"
    by simp_all
  from failed_slice_is_remembered [OF g a this] show ?thesis
    by (simp add: new_helper_def)
qed

end
