(* ===== verification/Group_Engine.thy ===== *)
theory Group_Engine
  imports Store_Contract "HOL-Library.Product_Lexorder"
begin

text \<open>
  The group engine \<open>SmemNetGroupEngine\<close> (\<^verbatim>\<open>src/smem/csrc/net/smem_net_group_engine.h/.cpp\<close>): barrier and
  all-gather over the configuration store, numbers allocated from a shared bitmap, and dynamic groups
  that ranks join and leave.

  Barrier and all-gather are programs of store calls, so that the calls of several ranks can be
  interleaved; the other operations run their calls in one go. The member \<open>store_\<close> is never null here.
  A callback is a function from the rank to its result, and \<open>notified\<close> records the calls. Locks
  and sleeps have no counterpart, and the loop of the listening thread is given by one iteration.
\<close>

unbundle bit_operations_syntax

section \<open>Programs of store calls\<close>

text \<open>
  A program returns or makes a call on the shared state and goes on with the rest. A call that
  is not answered, because it blocks or its behaviour is undefined, is no value.
\<close>

datatype ('s, 'a) prog = Ret 'a | Call "'s \<Rightarrow> (('s, 'a) prog \<times> 's) cpp"

primrec run :: "('s, 'a) prog \<Rightarrow> 's \<Rightarrow> ('a \<times> 's) cpp" where
  "run (Ret a) = (\<lambda>s. Some (a, s))"
| "run (Call f) = (\<lambda>s. Option.bind (map_option (map_prod run id) (f s)) (\<lambda>(r, t). r t))"

definition call1 :: "('s \<Rightarrow> (result \<times> 's) cpp) \<Rightarrow> (result \<Rightarrow> ('s, 'a) prog) \<Rightarrow> ('s, 'a) prog" where
  "call1 op k = Call (\<lambda>s. map_option (\<lambda>(ret, t). (k ret, t)) (op s))"

definition call2 :: "('s \<Rightarrow> (result \<times> 'v \<times> 's) cpp) \<Rightarrow> (result \<Rightarrow> 'v \<Rightarrow> ('s, 'a) prog) \<Rightarrow> ('s, 'a) prog" where
  "call2 op k = Call (\<lambda>s. map_option (\<lambda>(ret, v, t). (k ret v, t)) (op s))"

definition abort :: "('s, 'a) prog" where
  "abort = Call (\<lambda>s. None)"

section \<open>State\<close>

abbreviation (input) SM_NOT_STARTED :: result where "SM_NOT_STARTED \<equiv> - 2003"
abbreviation (input) REMOVE_INTERVAL :: u32 where "REMOVE_INTERVAL \<equiv> 2"
abbreviation (input) MAX_RANK_COUNT :: u32 where "MAX_RANK_COUNT \<equiv> 1024"
abbreviation (input) RANK_BITS_U64_COUNT :: nat where "RANK_BITS_U64_COUNT \<equiv> 16"
abbreviation (input) UINT32_MAX :: u32 where "UINT32_MAX \<equiv> 4294967295"
abbreviation (input) SMEM_ALLOC_NUM_SIZE :: nat where "SMEM_ALLOC_NUM_SIZE \<equiv> 1024"
abbreviation (input) SMEM_ALLOC_NUM_BUF_LEN :: nat where "SMEM_ALLOC_NUM_BUF_LEN \<equiv> 128"
abbreviation (input) USER_GROUP_KEY_LEN_MAX :: nat where "USER_GROUP_KEY_LEN_MAX \<equiv> 64"
abbreviation (input) GROUP_DYNAMIC_SIZE_BIT_LEN :: nat where "GROUP_DYNAMIC_SIZE_BIT_LEN \<equiv> 30"
abbreviation (input) GROUP_DYNAMIC_SIZE_BIT_MASK :: int where "GROUP_DYNAMIC_SIZE_BIT_MASK \<equiv> 1073741823"
abbreviation (input) MAX_RETRY :: nat where "MAX_RETRY \<equiv> 100000"

definition SMEM_GROUP_SET_STR :: bytes where "SMEM_GROUP_SET_STR = str ''ok''"
definition SMEM_GROUP_EXIT_KEY :: bytes where "SMEM_GROUP_EXIT_KEY = str ''EXIT''"
definition SMEM_GROUP_LISTEN_EVENT_KEY :: bytes where "SMEM_GROUP_LISTEN_EVENT_KEY = str ''EVENT''"
definition SMEM_GROUP_DYNAMIC_SIZE_KEY :: bytes where "SMEM_GROUP_DYNAMIC_SIZE_KEY = str ''DSIZE''"
definition SMEM_GROUP_CAS_ALLOC_NUM_KEY :: bytes where "SMEM_GROUP_CAS_ALLOC_NUM_KEY = str ''AT_NUM''"

record SmemGroupOption =
  rankSize :: u32
  rank :: u32
  opTimeoutMs :: u64
  dynamic :: bool
  joinCb :: "(u32 \<Rightarrow> result) option"
  leaveCb :: "(u32 \<Rightarrow> result) option"

text \<open>An event of the store's key, with its value, or of a broken link, with the rank.\<close>

datatype GroupEvent = LUNCH_JOIN_LEAVE_EVENT bytes | REMOTE_DOWN_EVENT u32

record SmemNetGroupEngine =
  opt :: SmemGroupOption
  groupVersion :: int
  allGatherGroupSn :: u32
  barrierGroupSn :: u32
  listenWatchId :: u32
  listenRet :: result
  listenEvents :: "GroupEvent list"
  listenLinkStatusWatchId :: u32
  joined :: bool
  groupStoped :: bool
  globalExitHandler :: bool
  joinedRanksBitmap :: "u64 list"
  userGroupGatherSn :: "(bytes \<times> u32) list"
  userGroupBarrierSn :: "(bytes \<times> u32) list"
  allocedSet :: "int list"
  notified :: "(bool \<times> u32) list"

text \<open>The constructor; \<open>Create\<close> puts the prefix of the kind of group before the store.\<close>

definition new_engine :: "SmemGroupOption \<Rightarrow> SmemNetGroupEngine" where
  "new_engine option = \<lparr>opt = (if dynamic option then option\<lparr>rankSize := 1\<rparr> else option), groupVersion = 0,
     allGatherGroupSn = 0, barrierGroupSn = 0, listenWatchId = UINT32_MAX, listenRet = SM_OK, listenEvents = [],
     listenLinkStatusWatchId = UINT32_MAX, joined = (\<not> dynamic option), groupStoped = False, globalExitHandler = False,
     joinedRanksBitmap = replicate RANK_BITS_U64_COUNT 0, userGroupGatherSn = [], userGroupBarrierSn = [],
     allocedSet = [], notified = []\<rparr>"

definition group_prefix :: "bool \<Rightarrow> bytes" where
  "group_prefix dyn = (if dyn then str ''D_'' else str ''S_'')"

definition group_store :: "'s store_ops \<Rightarrow> bool \<Rightarrow> 's store_ops" where
  "group_store core dyn = PrefixConfigStore core core (group_prefix dyn)"

section \<open>Barrier and all-gather\<close>

definition sn_key :: "bytes \<Rightarrow> u32 \<Rightarrow> string \<Rightarrow> bytes" where
  "sn_key owner sn suffix = owner @ str ''_'' @ to_string (uint sn) @ str suffix"

text \<open>
  What the four collective operations have in common, each with keys and tests of its own: arrive,
  let the first clean up an old round, let the last release the others, wait, check.
\<close>

definition remove_keys :: "'s store_ops \<Rightarrow> bytes \<Rightarrow> bytes \<Rightarrow> ('s, 'a) prog \<Rightarrow> ('s, 'a) prog" where
  "remove_keys st a w k = call1 (st_remove st a) (\<lambda>_. call1 (st_remove st w) (\<lambda>_. k))"

definition wait_ok :: "'s store_ops \<Rightarrow> bytes \<Rightarrow> u64 \<Rightarrow> ('s, 'a) prog \<Rightarrow> ('s, 'a) prog \<Rightarrow> ('s, 'a) prog" where
  "wait_ok st wKey timeout fail k =
     call2 (Get_string st wKey [] timeout) (\<lambda>ret getVal.
     if ret \<noteq> SM_OK then fail
     else if getVal \<noteq> SMEM_GROUP_SET_STR then fail
     else k)"

definition release_and_wait ::
    "'s store_ops \<Rightarrow> bool \<Rightarrow> bytes \<Rightarrow> u64 \<Rightarrow> ('s, 'a) prog \<Rightarrow> ('s, 'a) prog \<Rightarrow> ('s, 'a) prog" where
  "release_and_wait st last_guy wKey timeout fail k =
     (if last_guy then
        call1 (st_set st wKey SMEM_GROUP_SET_STR) (\<lambda>ret.
        if ret \<noteq> SM_OK then fail else wait_ok st wKey timeout fail k)
      else wait_ok st wKey timeout fail k)"

definition GroupBarrier :: "'s store_ops \<Rightarrow> SmemNetGroupEngine \<Rightarrow> ('s, result \<times> SmemNetGroupEngine) prog" where
  "GroupBarrier st g =
     (let sz = rankSize (opt g);
          sn = barrierGroupSn g + 1;
          g = g\<lparr>barrierGroupSn := sn\<rparr>;
          ver = to_string (groupVersion g);
          wKey = sn_key ver sn ''_BW'';
          fail = Ret (SM_ERROR, g)
      in call2 (st_add st (sn_key ver sn ''_BA'') 1 0) (\<lambda>ret val.
         if ret \<noteq> SM_OK then fail
         else
           let k = release_and_wait st (val = uint sz) wKey (opTimeoutMs (opt g)) fail (Ret (SM_OK, g));
               rm = sn - REMOVE_INTERVAL
           in if val = 1 \<and> sn > REMOVE_INTERVAL
              then remove_keys st (sn_key ver rm ''_BA'') (sn_key ver rm ''_BW'') k
              else k))"

definition user_sn :: "bytes \<Rightarrow> (bytes \<times> u32) list \<Rightarrow> u32" where
  "user_sn key m = (case map_of m key of None \<Rightarrow> 0 | Some sn \<Rightarrow> sn)"

text \<open>The checks of the overloads with a key; the key is a C string, \<open>None\<close> the null pointer.\<close>

definition user_params_ok :: "bytes option \<Rightarrow> u32 \<Rightarrow> u32 \<Rightarrow> SmemNetGroupEngine \<Rightarrow> bool" where
  "user_params_ok key rankSz rankNo g \<longleftrightarrow>
     (case key of None \<Rightarrow> False
      | Some k \<Rightarrow> length k < USER_GROUP_KEY_LEN_MAX \<and> rankSz \<le> rankSize (opt g) \<and> rankNo < rankSz)"

definition GroupBarrier_key ::
    "'s store_ops \<Rightarrow> bytes option \<Rightarrow> u32 \<Rightarrow> u32 \<Rightarrow> SmemNetGroupEngine \<Rightarrow> ('s, result \<times> SmemNetGroupEngine) prog" where
  "GroupBarrier_key st key rankSz rankNo g =
     (if \<not> user_params_ok key rankSz rankNo g then Ret (SM_INVALID_PARAM, g)
      else let
          userKey = the key;
          localSn = user_sn userKey (userGroupBarrierSn g) + 1;
          g = g\<lparr>userGroupBarrierSn := um_set userKey localSn (userGroupBarrierSn g)\<rparr>;
          wKey = sn_key userKey localSn ''_BW'';
          fail = Ret (SM_ERROR, g)
      in call2 (st_add st (sn_key userKey localSn ''_BA'') 1 0) (\<lambda>ret val.
         if ret \<noteq> SM_OK then fail
         else
           let k = release_and_wait st (val = uint rankSz) wKey (opTimeoutMs (opt g)) fail (Ret (SM_OK, g));
               rm = localSn - REMOVE_INTERVAL
           in if val = 1 \<and> localSn > REMOVE_INTERVAL
              then remove_keys st (sn_key userKey rm ''_BA'') (sn_key userKey rm ''_BW'') k
              else k))"

text \<open>
  Buffers. The input of a rank is its number in four bytes and its data; \<open>GatherFillRank\<close> writes the
  first four bytes. A copy outside a buffer is undefined.
\<close>

definition read_u32 :: "bytes \<Rightarrow> u32 \<Rightarrow> u32 cpp" where
  "read_u32 vec idx =
     (if unat idx + 4 \<le> length vec then Some (word_le (take 4 (drop (unat idx) vec))) else None)"

definition copy_out :: "bytes \<Rightarrow> u32 \<Rightarrow> u32 \<Rightarrow> bytes cpp" where
  "copy_out vec start n =
     (if unat start + unat n \<le> length vec then Some (take (unat n) (drop (unat start) vec)) else None)"

definition copy_in :: "bytes \<Rightarrow> u32 \<Rightarrow> bytes \<Rightarrow> bytes cpp" where
  "copy_in buf start d =
     (if unat start + length d \<le> length buf
      then Some (take (unat start) buf @ d @ drop (unat start + length d) buf) else None)"

definition GatherFillRank :: "bytes \<Rightarrow> u32 \<Rightarrow> bytes cpp" where
  "GatherFillRank vec rankNo = copy_in vec 0 (le_word rankNo)"

definition gather_input :: "bytes \<Rightarrow> u32 \<Rightarrow> u32 \<Rightarrow> bytes cpp" where
  "gather_input sendBuf sendSize rankNo = do {
     input \<leftarrow> GatherFillRank (replicate (unat (sendSize + 4)) 0) rankNo;
     d \<leftarrow> copy_out sendBuf 0 sendSize;
     copy_in input 4 d
   }"

fun gather_offsets :: "bytes \<Rightarrow> u32 \<Rightarrow> nat \<Rightarrow> u32 \<Rightarrow> (u32 \<times> u32) list cpp" where
  "gather_offsets vec unitSize 0 i = Some []"
| "gather_offsets vec unitSize (Suc n) i = do {
     let idx = i * unitSize;
     r \<leftarrow> read_u32 vec idx;
     rest \<leftarrow> gather_offsets vec unitSize n (i + 1);
     Some ((r, idx + 4) # rest)
   }"

fun gather_copy :: "bytes \<Rightarrow> u32 \<Rightarrow> (u32 \<times> u32) list \<Rightarrow> u32 \<Rightarrow> bytes \<Rightarrow> bytes cpp" where
  "gather_copy vec preSize [] i recvBuf = Some recvBuf"
| "gather_copy vec preSize ((r, start) # rest) i recvBuf = do {
     d \<leftarrow> copy_out vec start preSize;
     recvBuf \<leftarrow> copy_in recvBuf (preSize * i) d;
     gather_copy vec preSize rest (i + 1) recvBuf
   }"

definition SortGatherRecv :: "bytes \<Rightarrow> u32 \<Rightarrow> u32 \<Rightarrow> bytes \<Rightarrow> bytes cpp" where
  "SortGatherRecv vec preSize rankSz recvBuf = do {
     offs \<leftarrow> gather_offsets vec (preSize + 4) (unat rankSz) 0;
     gather_copy vec preSize (sort offs) 0 recvBuf
   }"

text \<open>The end of both all-gathers: read everything, check the length, sort by rank.\<close>

definition gather_finish ::
    "'s store_ops \<Rightarrow> bytes \<Rightarrow> nat \<Rightarrow> u32 \<Rightarrow> u32 \<Rightarrow> bytes \<Rightarrow> SmemNetGroupEngine \<Rightarrow>
       ('s, result \<times> bytes \<times> SmemNetGroupEngine) prog" where
  "gather_finish st addKey inputLen sendSize sz recvBuf g =
     call2 (st_get st addKey [] (opTimeoutMs (opt g))) (\<lambda>ret output.
     if ret \<noteq> SM_OK \<or> (of_nat (length output) :: u64) \<noteq> of_nat inputLen * ucast sz then Ret (SM_ERROR, recvBuf, g)
     else case SortGatherRecv output sendSize sz recvBuf of
       None \<Rightarrow> abort
     | Some recvBuf \<Rightarrow> Ret (SM_OK, recvBuf, g))"

definition GroupAllGather ::
    "'s store_ops \<Rightarrow> bytes \<Rightarrow> u32 \<Rightarrow> bytes \<Rightarrow> u32 \<Rightarrow> SmemNetGroupEngine \<Rightarrow>
       ('s, result \<times> bytes \<times> SmemNetGroupEngine) prog" where
  "GroupAllGather st sendBuf sendSize recvBuf recvSize g =
     (let sz = rankSize (opt g) in
      if sendSize * sz \<noteq> recvSize then Ret (SM_INVALID_PARAM, recvBuf, g)
      else let
          sn = allGatherGroupSn g + 1;
          g = g\<lparr>allGatherGroupSn := sn\<rparr>;
          ver = to_string (groupVersion g);
          addKey = sn_key ver sn ''_GA'';
          wKey = sn_key ver sn ''_GW'';
          fail = Ret (SM_ERROR, recvBuf, g)
      in case gather_input sendBuf sendSize (rank (opt g)) of
        None \<Rightarrow> abort
      | Some input \<Rightarrow>
          call2 (st_append st addKey input 0) (\<lambda>ret val.
          if ret \<noteq> SM_OK then fail
          else
            let k = release_and_wait st (val = of_nat (length input) * ucast sz) wKey (opTimeoutMs (opt g)) fail
                  (gather_finish st addKey (length input) sendSize sz recvBuf g);
                rm = sn - REMOVE_INTERVAL
            in if val = of_nat (length input) \<and> sn > REMOVE_INTERVAL
               then remove_keys st (sn_key ver rm ''_GA'') (sn_key ver rm ''_GW'') k
               else k))"

text \<open>The overload with a key cleans up by the counter of the group without key.\<close>

definition GroupAllGather_key ::
    "'s store_ops \<Rightarrow> bytes option \<Rightarrow> u32 \<Rightarrow> u32 \<Rightarrow> bytes \<Rightarrow> u32 \<Rightarrow> bytes \<Rightarrow> u32 \<Rightarrow> SmemNetGroupEngine \<Rightarrow>
       ('s, result \<times> bytes \<times> SmemNetGroupEngine) prog" where
  "GroupAllGather_key st key rankSz rankNo sendBuf sendSize recvBuf recvSize g =
     (if \<not> user_params_ok key rankSz rankNo g then Ret (SM_INVALID_PARAM, recvBuf, g)
      else if sendSize * rankSz \<noteq> recvSize then Ret (SM_INVALID_PARAM, recvBuf, g)
      else let
          userKey = the key;
          localSn = user_sn userKey (userGroupGatherSn g) + 1;
          g = g\<lparr>userGroupGatherSn := um_set userKey localSn (userGroupGatherSn g)\<rparr>;
          addKey = sn_key userKey localSn ''_GA'';
          wKey = sn_key userKey localSn ''_GW'';
          fail = Ret (SM_ERROR, recvBuf, g)
      in case gather_input sendBuf sendSize rankNo of
        None \<Rightarrow> abort
      | Some input \<Rightarrow>
          call2 (st_append st addKey input 0) (\<lambda>ret val.
          if ret \<noteq> SM_OK then fail
          else
            let k = release_and_wait st (val = of_nat (length input) * ucast rankSz) wKey (opTimeoutMs (opt g)) fail
                  (gather_finish st addKey (length input) sendSize rankSz recvBuf g);
                ver = to_string (groupVersion g);
                rm = allGatherGroupSn g - REMOVE_INTERVAL
            in if val = of_nat (length input) \<and> allGatherGroupSn g > REMOVE_INTERVAL
               then remove_keys st (sn_key ver rm ''_GA'') (sn_key ver rm ''_GW'') k
               else k))"

section \<open>Exit\<close>

text \<open>Watching, as the engine uses it: on a key, on broken links, and ending a watch.\<close>

record 's watch_ops =
  w_key :: "bytes \<Rightarrow> 's \<Rightarrow> (result \<times> u32 \<times> 's) cpp"
  w_link_down :: "'s \<Rightarrow> (result \<times> u32 \<times> 's) cpp"
  w_unwatch :: "u32 \<Rightarrow> 's \<Rightarrow> (result \<times> 's) cpp"

definition GroupBroadcastExit :: "'s store_ops \<Rightarrow> int \<Rightarrow> 's \<Rightarrow> (result \<times> 's) cpp" where
  "GroupBroadcastExit st status s = do {
     (ret, s) \<leftarrow> st_set st SMEM_GROUP_EXIT_KEY (to_string status) s;
     Some (if ret \<noteq> SM_OK then SM_ERROR else ret, s)
   }"

definition RegisterExit ::
    "'s watch_ops \<Rightarrow> bool \<Rightarrow> SmemNetGroupEngine \<Rightarrow> 's \<Rightarrow> (result \<times> SmemNetGroupEngine \<times> 's) cpp" where
  "RegisterExit w exit_given g s =
     (if globalExitHandler g then Some (SM_INVALID_PARAM, g, s)
      else if \<not> exit_given then Some (SM_INVALID_PARAM, g, s)
      else do {
        (ret, _, s) \<leftarrow> w_key w SMEM_GROUP_EXIT_KEY s;
        Some (if ret \<noteq> SM_OK then (ret, g\<lparr>globalExitHandler := False\<rparr>, s) else (SM_OK, g\<lparr>globalExitHandler := True\<rparr>, s))
      })"

text \<open>The call of the handler, with its argument: \<open>std::stol\<close> throws where nothing converts or the range is left.\<close>

definition RankExit :: "int \<Rightarrow> bytes \<Rightarrow> SmemNetGroupEngine \<Rightarrow> int option" where
  "RankExit result value g =
     (if result = 0 \<and> globalExitHandler g then
        (if value = [] then None
         else case strtoll (c_str value) of
           None \<Rightarrow> None
         | Some (v, erange, _) \<Rightarrow>
             if erange \<or> v < - 2147483648 \<or> v > 2147483647 then None else Some v)
      else None)"

section \<open>Numbers\<close>

text \<open>The search for a clear bit; an index outside the vector is undefined.\<close>

fun find_clear :: "bytes \<Rightarrow> nat \<Rightarrow> nat \<Rightarrow> nat option cpp" where
  "find_clear value i 0 = Some None"
| "find_clear value i (Suc n) =
     (if i div 8 \<ge> length value then None
      else if value ! (i div 8) AND push_bit (i mod 8) 1 = 0 then Some (Some i)
      else find_clear value (Suc i) n)"

definition flip_at :: "bytes \<Rightarrow> nat \<Rightarrow> bytes" where
  "flip_at value i = value[i div 8 := value ! (i div 8) XOR push_bit (i mod 8) 1]"

partial_function (option) alloc_loop ::
    "'s store_ops \<Rightarrow> bytes \<Rightarrow> bytes \<Rightarrow> bytes \<Rightarrow> 's \<Rightarrow> (int \<times> 's) cpp" where
  "alloc_loop st expect old value s =
     (let (expect, old) = (old, expect);
          value = (if expect \<noteq> [] then expect else value)
      in Option.bind (find_clear value 0 SMEM_ALLOC_NUM_SIZE) (\<lambda>num.
         case num of
           None \<Rightarrow> Some (SM_ERROR, s)
         | Some i \<Rightarrow>
             let value = flip_at value i in
             Option.bind (st_cas st SMEM_GROUP_CAS_ALLOC_NUM_KEY expect value old s) (\<lambda>(ret, old, s).
             if ret \<noteq> 0 \<or> old \<noteq> expect then alloc_loop st expect old value s
             else Some (int i, s))))"

definition AllocNumber :: "'s store_ops \<Rightarrow> SmemNetGroupEngine \<Rightarrow> 's \<Rightarrow> (int \<times> SmemNetGroupEngine \<times> 's) cpp" where
  "AllocNumber st g s = do {
     (num, s) \<leftarrow> alloc_loop st [] [] (replicate SMEM_ALLOC_NUM_BUF_LEN 0) s;
     Some (if num = SM_ERROR then (SM_ERROR, g, s) else (num, g\<lparr>allocedSet := us_insert num (allocedSet g)\<rparr>, s))
   }"

partial_function (option) release_loop ::
    "'s store_ops \<Rightarrow> nat \<Rightarrow> bytes \<Rightarrow> bytes \<Rightarrow> bytes \<Rightarrow> 's \<Rightarrow> (result \<times> 's) cpp" where
  "release_loop st val expect old value s =
     (let (expect, old) = (old, expect);
          value = (if expect \<noteq> [] then expect else value)
      in if val div 8 \<ge> length value then None
         else if drop_bit (val mod 8) (value ! (val div 8)) AND 1 \<noteq> 0 then
           (let value = flip_at value val in
            Option.bind (st_cas st SMEM_GROUP_CAS_ALLOC_NUM_KEY expect value old s) (\<lambda>(ret, old, s).
            if ret = 0 \<and> old = expect then release_loop st val expect old value s
            else Some (SM_OK, s)))
         else Some (SM_OK, s))"

text \<open>A number in \<open>allocedSet_\<close> is one that \<open>AllocNumber\<close> returned: it is inside the vector.\<close>

definition ReleaseNumber ::
    "'s store_ops \<Rightarrow> int \<Rightarrow> SmemNetGroupEngine \<Rightarrow> 's \<Rightarrow> (result \<times> SmemNetGroupEngine \<times> 's) cpp" where
  "ReleaseNumber st val g s =
     (if val \<notin> set (allocedSet g) then Some (SM_OBJECT_NOT_EXISTS, g, s)
      else if val < 0 \<or> 1024 \<le> val then None
      else let g = g\<lparr>allocedSet := us_erase val (allocedSet g)\<rparr>;
               value = flip_at (replicate SMEM_ALLOC_NUM_BUF_LEN 0) (nat val)
      in do {
        (ret, s) \<leftarrow> release_loop st (nat val) [] [] value s;
        Some (ret, g, s)
      })"

section \<open>Size and version, events\<close>

definition SplitSizeAndVersion :: "int \<Rightarrow> int \<times> int" where
  "SplitSizeAndVersion val =
     (let u = val mod 2 ^ 64
      in (signed_cast 32 (drop_bit GROUP_DYNAMIC_SIZE_BIT_LEN u), signed_cast 32 (u AND GROUP_DYNAMIC_SIZE_BIT_MASK)))"

definition MergeSizeAndVersion :: "int \<Rightarrow> int \<Rightarrow> int" where
  "MergeSizeAndVersion ver sz =
     push_bit GROUP_DYNAMIC_SIZE_BIT_LEN (ver mod 2 ^ 32) OR (sz mod 2 ^ 32)"

text \<open>A signed increment that overflows is undefined.\<close>

definition next_version :: "int \<Rightarrow> int cpp" where
  "next_version v = (if v < 2147483647 then Some (v + 1) else None)"

record JoinLeaveEventValue =
  evJoin :: bool
  evChar :: byte
  evRank :: u32

definition new_event :: "bool \<Rightarrow> u32 \<Rightarrow> JoinLeaveEventValue" where
  "new_event j r = \<lparr>evJoin = j, evChar = (if j then of_char CHR ''J'' else of_char CHR ''L''), evRank = r\<rparr>"

definition event_string :: "JoinLeaveEventValue \<Rightarrow> bytes" where
  "event_string e = (if evJoin e then of_char CHR ''J'' else of_char CHR ''L'') # to_string (uint (evRank e))"

text \<open>
  Extraction from a stream: a character after white space, and a number, which leaves the variable alone
  at the end of the stream, is 0 where nothing converts and the largest value on overflow.
\<close>

definition extract_u32 :: "bytes \<Rightarrow> u32 \<Rightarrow> u32" where
  "extract_u32 s old =
     (if dropWhile isspace s = [] then old
      else let (neg, ds, _) = scan_number s
      in if ds = [] then 0
         else if digits_value ds > 4294967295 then UINT32_MAX
         else if neg then - of_nat (digits_value ds) else of_nat (digits_value ds))"

definition event_parse :: "JoinLeaveEventValue \<Rightarrow> bytes \<Rightarrow> result \<times> JoinLeaveEventValue" where
  "event_parse e text =
     (let e = (case dropWhile isspace text of
                 [] \<Rightarrow> e
               | c # rest \<Rightarrow> e\<lparr>evChar := c, evRank := extract_u32 rest (evRank e)\<rparr>);
          e = e\<lparr>evJoin := (evChar e = of_char CHR ''J'')\<rparr>
      in (if event_string e \<noteq> text then SM_ERROR else SM_OK, e))"

definition UpdateGroupVersion :: "int \<Rightarrow> SmemNetGroupEngine \<Rightarrow> SmemNetGroupEngine" where
  "UpdateGroupVersion ver g = g\<lparr>groupVersion := ver, allGatherGroupSn := 0, barrierGroupSn := 0\<rparr>"

definition set_rankSize :: "u32 \<Rightarrow> SmemNetGroupEngine \<Rightarrow> SmemNetGroupEngine" where
  "set_rankSize n g = g\<lparr>opt := (opt g)\<lparr>rankSize := n\<rparr>\<rparr>"

section \<open>The bitmap of joined ranks\<close>

definition ClearBitmapForRank :: "u32 \<Rightarrow> SmemNetGroupEngine \<Rightarrow> SmemNetGroupEngine" where
  "ClearBitmapForRank rankNo g =
     (if rankNo \<ge> MAX_RANK_COUNT then g
      else let index = unat (rankNo div 64); shift = unat (rankNo mod 64); m = joinedRanksBitmap g
      in g\<lparr>joinedRanksBitmap := m[index := m ! index AND NOT (push_bit shift 1)]\<rparr>)"

definition TestBitmapForRank :: "u32 \<Rightarrow> SmemNetGroupEngine \<Rightarrow> bool" where
  "TestBitmapForRank rankNo g =
     (if rankNo \<ge> MAX_RANK_COUNT then False
      else joinedRanksBitmap g ! unat (rankNo div 64) AND push_bit (unat (rankNo mod 64)) 1 \<noteq> 0)"

fun bitmap_of :: "u32 list \<Rightarrow> u64 list \<Rightarrow> u64 list" where
  "bitmap_of [] m = m"
| "bitmap_of (rankNo # ranks) m =
     (if rankNo \<ge> MAX_RANK_COUNT then bitmap_of ranks m
      else let index = unat (rankNo div 64); shift = unat (rankNo mod 64)
      in bitmap_of ranks (m[index := m ! index OR push_bit shift 1]))"

definition SetBitmapFromRanks :: "u32 list \<Rightarrow> SmemNetGroupEngine \<Rightarrow> SmemNetGroupEngine" where
  "SetBitmapFromRanks rankIds g =
     g\<lparr>joinedRanksBitmap := bitmap_of rankIds (replicate RANK_BITS_U64_COUNT 0)\<rparr>"

section \<open>Dynamic groups\<close>

fun sn_clean :: "'s store_ops \<Rightarrow> bytes \<Rightarrow> u32 \<Rightarrow> string \<Rightarrow> string \<Rightarrow> nat \<Rightarrow> u32 \<Rightarrow> 's \<Rightarrow> 's cpp" where
  "sn_clean st ver sn add wait 0 i s = Some s"
| "sn_clean st ver sn add wait (Suc n) i s =
     (if sn < i then Some s
      else do {
        (_, s) \<leftarrow> st_remove st (sn_key ver (sn - i) add) s;
        (_, s) \<leftarrow> st_remove st (sn_key ver (sn - i) wait) s;
        sn_clean st ver sn add wait n (i + 1) s
      })"

definition GroupSnClean :: "'s store_ops \<Rightarrow> SmemNetGroupEngine \<Rightarrow> 's \<Rightarrow> 's cpp" where
  "GroupSnClean st g s = do {
     let ver = to_string (groupVersion g);
     s \<leftarrow> sn_clean st ver (allGatherGroupSn g) ''_GA'' ''_GW'' (unat REMOVE_INTERVAL) 0 s;
     sn_clean st ver (barrierGroupSn g) ''_BA'' ''_BW'' (unat REMOVE_INTERVAL) 0 s
   }"

text \<open>
  The loop that takes the event key as a lock, with the tries that are left. It also ends when no try is
  left, and nobody looks at how it ended.
\<close>

fun event_lock :: "'s store_ops \<Rightarrow> bytes \<Rightarrow> nat \<Rightarrow> bytes \<Rightarrow> 's \<Rightarrow> 's cpp" where
  "event_lock st val 0 old s = Some s"
| "event_lock st val (Suc tries) old s = do {
     (ret, old, s) \<leftarrow> Cas_string st SMEM_GROUP_LISTEN_EVENT_KEY [] val old s;
     if ret = SM_OK \<and> (old = [] \<or> old = val) then Some s else event_lock st val tries old s
   }"

text \<open>A callback, where there is one: its result and the record of the call.\<close>

definition call_cb :: "bool \<Rightarrow> (u32 \<Rightarrow> result) option \<Rightarrow> u32 \<Rightarrow> SmemNetGroupEngine \<Rightarrow> result \<times> SmemNetGroupEngine" where
  "call_cb j cb r g =
     (case cb of None \<Rightarrow> (SM_OK, g) | Some f \<Rightarrow> (f r, g\<lparr>notified := notified g @ [(j, r)]\<rparr>))"

text \<open>
  \<open>GroupJoin\<close> up to the label \<open>join_exit\<close>, and the whole. \<open>tmp\<close> is the content of the variable that
  is not initialised.
\<close>

definition join_body ::
    "'s store_ops \<Rightarrow> int \<Rightarrow> SmemNetGroupEngine \<Rightarrow> 's \<Rightarrow> (result \<times> SmemNetGroupEngine \<times> 's) cpp" where
  "join_body st tmp g s = do {
     (ret, tmp, s) \<leftarrow> st_add st SMEM_GROUP_DYNAMIC_SIZE_KEY 0 tmp s;
     if ret \<noteq> SM_OK then Some (ret, g, s)
     else do {
       s \<leftarrow> GroupSnClean st g s;
       ver \<leftarrow> next_version (fst (SplitSizeAndVersion tmp));
       let g = set_rankSize (of_int (snd (SplitSizeAndVersion tmp) + 1)) (UpdateGroupVersion ver g);
       let (ret, g) = call_cb True (joinCb (opt g)) (rank (opt g)) g;
       if ret \<noteq> SM_OK then Some (ret, g, s)
       else do {
         (ret, _, s) \<leftarrow> st_add st SMEM_GROUP_DYNAMIC_SIZE_KEY (push_bit GROUP_DYNAMIC_SIZE_BIT_LEN 1 OR 1) tmp s;
         Some (ret, g, s)
       }
     }
   }"

definition GroupJoin ::
    "'s store_ops \<Rightarrow> int \<Rightarrow> SmemNetGroupEngine \<Rightarrow> 's \<Rightarrow> (result \<times> SmemNetGroupEngine \<times> 's) cpp" where
  "GroupJoin st tmp g s =
     (if \<not> dynamic (opt g) then Some (SM_INVALID_PARAM, g, s)
      else if joined g then Some (SM_OK, g, s)
      else do {
        s \<leftarrow> event_lock st (str ''J'' @ to_string (uint (rank (opt g)))) MAX_RETRY [] s;
        (ret, g, s) \<leftarrow> join_body st tmp g s;
        (ret2, s) \<leftarrow> st_remove st SMEM_GROUP_LISTEN_EVENT_KEY s;
        Some (if ret OR ret2 = SM_OK then (SM_OK, g\<lparr>joined := True\<rparr>, s) else (SM_ERROR, g, s))
      })"

definition leave_body ::
    "'s store_ops \<Rightarrow> int \<Rightarrow> SmemNetGroupEngine \<Rightarrow> 's \<Rightarrow> (result \<times> SmemNetGroupEngine \<times> 's) cpp" where
  "leave_body st tmpVal g s = do {
     let (ret, g) = call_cb False (leaveCb (opt g)) (rank (opt g)) g;
     if ret \<noteq> SM_OK then Some (ret, g, s)
     else do {
       (ret, tmpVal, s) \<leftarrow> st_add st SMEM_GROUP_DYNAMIC_SIZE_KEY GROUP_DYNAMIC_SIZE_BIT_MASK tmpVal s;
       s \<leftarrow> GroupSnClean st g s;
       ver \<leftarrow> next_version (fst (SplitSizeAndVersion tmpVal));
       Some (ret, UpdateGroupVersion ver g, s)
     }
   }"

definition GroupLeave ::
    "'s store_ops \<Rightarrow> 's watch_ops \<Rightarrow> int \<Rightarrow> SmemNetGroupEngine \<Rightarrow> 's \<Rightarrow> (result \<times> SmemNetGroupEngine \<times> 's) cpp" where
  "GroupLeave st w tmpVal g s =
     (if \<not> dynamic (opt g) then Some (SM_INVALID_PARAM, g, s)
      else if \<not> joined g then Some (SM_NOT_STARTED, g, s)
      else do {
        let g = g\<lparr>groupStoped := True\<rparr>;
        (_, s) \<leftarrow> w_unwatch w (listenWatchId g) s;
        s \<leftarrow> event_lock st (str ''L'' @ to_string (uint (rank (opt g)))) MAX_RETRY [] s;
        (ret, g, s) \<leftarrow> leave_body st tmpVal g s;
        (ret2, s) \<leftarrow> st_remove st SMEM_GROUP_LISTEN_EVENT_KEY s;
        let g = g\<lparr>joined := False\<rparr>;
        Some (if ret OR ret2 = SM_OK then (SM_OK, g, s) else (SM_ERROR, g, s))
      })"

section \<open>The listening thread\<close>

definition JoinLeaveEventProcess ::
    "'s store_ops \<Rightarrow> bytes \<Rightarrow> bytes \<Rightarrow> SmemNetGroupEngine \<Rightarrow> 's \<Rightarrow> (bytes \<times> SmemNetGroupEngine \<times> 's) cpp" where
  "JoinLeaveEventProcess st value prevEventValue g s =
     (let g = g\<lparr>listenWatchId := UINT32_MAX\<rparr>;
          (ok, eVal) = event_parse (new_event True 0) value
      in if ok \<noteq> SM_OK then Some (prevEventValue, g, s)
         else if value = prevEventValue then Some (prevEventValue, g, s)
         else do {
           (ret, tmpVal, s) \<leftarrow> st_add st SMEM_GROUP_DYNAMIC_SIZE_KEY 0 0 s;
           if ret \<noteq> SM_OK then Some (value, g, s)
           else do {
             let (version, sz) = SplitSizeAndVersion tmpVal;
             ver \<leftarrow> next_version version;
             let g = UpdateGroupVersion ver g;
             Some (value,
               if evJoin eVal then
                 snd (call_cb True (joinCb (opt g)) (evRank eVal) (set_rankSize (of_int (sz + 1)) g))
               else
                 ClearBitmapForRank (evRank eVal)
                   (snd (call_cb False (leaveCb (opt g)) (evRank eVal) (set_rankSize (of_int (sz - 1)) g))),
               s)
           }
         })"

text \<open>The call of \<open>leaveCb\<close> at the end is not guarded: without a callback it throws, in a thread.\<close>

definition LinkDownUpdateMeta ::
    "'s store_ops \<Rightarrow> u32 \<Rightarrow> SmemNetGroupEngine \<Rightarrow> 's \<Rightarrow> (SmemNetGroupEngine \<times> 's) cpp" where
  "LinkDownUpdateMeta st rankNo g s = do {
     (ret, tmpVal, s) \<leftarrow> st_add st SMEM_GROUP_DYNAMIC_SIZE_KEY 0 0 s;
     if ret \<noteq> SM_OK then Some (g, s)
     else do {
       let version = fst (SplitSizeAndVersion tmpVal);
       let sz = rankSize (opt g) - 1;
       (g, s) \<leftarrow> (if version \<noteq> groupVersion g then do {
           ver \<leftarrow> next_version (groupVersion g);
           Some (set_rankSize sz (UpdateGroupVersion ver g), s)
         }
         else do {
           ver \<leftarrow> next_version version;
           let newVal = MergeSizeAndVersion ver (uint sz);
           (_, _, s) \<leftarrow> Cas_string st SMEM_GROUP_DYNAMIC_SIZE_KEY (to_string tmpVal) (to_string newVal) [] s;
           Some (UpdateGroupVersion ver (set_rankSize sz g), s)
         });
       (if leaveCb (opt g) = None then None
        else Some (snd (call_cb False (leaveCb (opt g)) rankNo g), s))
     }
   }"

definition RankLinkDownEventProcess ::
    "'s store_ops \<Rightarrow> u32 \<Rightarrow> SmemNetGroupEngine \<Rightarrow> 's \<Rightarrow> (bytes \<times> SmemNetGroupEngine \<times> 's) cpp" where
  "RankLinkDownEventProcess st rankNo g s = do {
     let prev = to_string (uint (rank (opt g))) @ str ''L'' @ to_string (uint rankNo);
     (ret, cur, s) \<leftarrow> Get_string st SMEM_GROUP_LISTEN_EVENT_KEY [] 0 s;
     if ret \<noteq> store_code SUCCESS \<and> ret \<noteq> store_code NOT_EXIST then Some (prev, g, s)
     else if \<not> TestBitmapForRank rankNo g then Some (prev, g, s)
     else if cur \<noteq> [] then
       let (ok, e) = event_parse (new_event True 0) cur in
       if ok \<noteq> SM_OK then Some (prev, g, s)
       else if rankNo \<noteq> evRank e then
         Some (prev, g\<lparr>listenEvents := listenEvents g @ [LUNCH_JOIN_LEAVE_EVENT cur]\<rparr>, s)
       else do {
         (ret, existValue, s) \<leftarrow> Cas_string st SMEM_GROUP_LISTEN_EVENT_KEY cur (str ''unlinked'') [] s;
         if ret \<noteq> store_code SUCCESS then Some (prev, g, s)
         else do {
           (g, s) \<leftarrow> LinkDownUpdateMeta st rankNo g s;
           s \<leftarrow> (if existValue = cur then map_option snd (st_remove st SMEM_GROUP_LISTEN_EVENT_KEY s) else Some s);
           Some (prev, ClearBitmapForRank rankNo g, s)
         }
       }
     else do {
       (g, s) \<leftarrow> LinkDownUpdateMeta st rankNo g s;
       Some (prev, ClearBitmapForRank rankNo g, s)
     }
   }"

definition GroupWatchCb :: "int \<Rightarrow> bytes \<Rightarrow> bytes \<Rightarrow> SmemNetGroupEngine \<Rightarrow> SmemNetGroupEngine" where
  "GroupWatchCb result key value g =
     (if result \<noteq> SM_OK \<or> key \<noteq> SMEM_GROUP_LISTEN_EVENT_KEY then g\<lparr>listenRet := SM_ERROR\<rparr>
      else g\<lparr>listenRet := SM_OK, listenEvents := listenEvents g @ [LUNCH_JOIN_LEAVE_EVENT value]\<rparr>)"

definition RemoteRankLinkDownCb :: "u32 \<Rightarrow> SmemNetGroupEngine \<Rightarrow> SmemNetGroupEngine" where
  "RemoteRankLinkDownCb remoteRankId g =
     g\<lparr>listenRet := SM_OK, listenEvents := listenEvents g @ [REMOTE_DOWN_EVENT remoteRankId]\<rparr>"

definition ReWatch :: "'s watch_ops \<Rightarrow> SmemNetGroupEngine \<Rightarrow> 's \<Rightarrow> (bool \<times> SmemNetGroupEngine \<times> 's) cpp" where
  "ReWatch w g s = do {
     (ret, wid, s) \<leftarrow> w_key w SMEM_GROUP_LISTEN_EVENT_KEY s;
     if ret \<noteq> SM_OK then
       (if listenLinkStatusWatchId g > 0 then do {
          (_, s) \<leftarrow> w_unwatch w (listenLinkStatusWatchId g) s;
          Some (True, g\<lparr>listenLinkStatusWatchId := UINT32_MAX\<rparr>, s)
        }
        else Some (True, g, s))
     else
       let g = g\<lparr>listenWatchId := wid, listenRet := SM_OK\<rparr> in
       if listenLinkStatusWatchId g = UINT32_MAX then do {
         (ret, wid, s) \<leftarrow> w_link_down w s;
         if ret \<noteq> SM_OK then do {
           (_, s) \<leftarrow> w_unwatch w (listenWatchId g) s;
           Some (True, g\<lparr>listenWatchId := UINT32_MAX\<rparr>, s)
         }
         else Some (False, g\<lparr>listenLinkStatusWatchId := wid\<rparr>, s)
       }
       else Some (False, g, s)
   }"

fun process_events ::
    "'s store_ops \<Rightarrow> GroupEvent list \<Rightarrow> bytes \<Rightarrow> SmemNetGroupEngine \<Rightarrow> 's \<Rightarrow> (bytes \<times> SmemNetGroupEngine \<times> 's) cpp" where
  "process_events st [] prev g s = Some (prev, g, s)"
| "process_events st (LUNCH_JOIN_LEAVE_EVENT value # evs) prev g s = do {
     (prev, g, s) \<leftarrow> JoinLeaveEventProcess st value prev g s;
     process_events st evs prev g s
   }"
| "process_events st (REMOTE_DOWN_EVENT r # evs) prev g s = do {
     (prev, g, s) \<leftarrow> RankLinkDownEventProcess st r g s;
     process_events st evs prev g s
   }"

text \<open>
  One iteration of \<open>GroupListenEvent\<close>: what happens before the wait, \<open>Inl\<close> where the loop goes on without
  waiting, and what happens after it. Callbacks run between the two.
\<close>

definition listen_before :: "'s watch_ops \<Rightarrow> SmemNetGroupEngine \<Rightarrow> 's \<Rightarrow> ((unit + unit) \<times> SmemNetGroupEngine \<times> 's) cpp" where
  "listen_before w g s =
     (if \<not> joined g then Some (Inl (), g, s)
      else if listenWatchId g = UINT32_MAX then do {
        (again, g, s) \<leftarrow> ReWatch w g s;
        Some (if again then Inl () else Inr (), g, s)
      }
      else Some (Inr (), g, s))"

definition listen_after ::
    "'s store_ops \<Rightarrow> 's watch_ops \<Rightarrow> result \<Rightarrow> bytes \<Rightarrow> SmemNetGroupEngine \<Rightarrow> 's \<Rightarrow> (bytes \<times> SmemNetGroupEngine \<times> 's) cpp" where
  "listen_after st w waitRet prev g s =
     (let currentEvents = listenEvents g; g = g\<lparr>listenEvents := []\<rparr>
      in if groupStoped g then Some (prev, g, s)
         else if waitRet \<noteq> SM_OK then Some (prev, g, s)
         else if listenRet g \<noteq> SM_OK then do {
           (_, s) \<leftarrow> w_unwatch w (listenWatchId g) s;
           (_, s) \<leftarrow> w_unwatch w (listenLinkStatusWatchId g) s;
           Some (prev, g\<lparr>listenWatchId := UINT32_MAX, listenLinkStatusWatchId := UINT32_MAX\<rparr>, s)
         }
         else if \<not> joined g then Some (prev, g, s)
         else process_events st currentEvents prev g s)"

definition StartListenEvent ::
    "'s watch_ops \<Rightarrow> bool \<Rightarrow> SmemNetGroupEngine \<Rightarrow> 's \<Rightarrow> (result \<times> SmemNetGroupEngine \<times> 's) cpp" where
  "StartListenEvent w signal_ok g s =
     (if \<not> signal_ok then Some (SM_ERROR, g, s)
      else do {
        (ret, wid, s) \<leftarrow> w_link_down w s;
        Some (if ret \<noteq> SM_OK then (ret, g, s) else (SM_OK, g\<lparr>listenLinkStatusWatchId := wid\<rparr>, s))
      })"

definition Create ::
    "'s watch_ops \<Rightarrow> bool \<Rightarrow> SmemGroupOption \<Rightarrow> 's \<Rightarrow> (SmemNetGroupEngine option \<times> 's) cpp" where
  "Create w signal_ok option s =
     (let g = new_engine option in
      if dynamic option then do {
        (ret, g, s) \<leftarrow> StartListenEvent w signal_ok g s;
        Some (if ret = SM_OK then Some g else None, s)
      }
      else Some (Some g, s))"

definition destroy_engine :: "'s watch_ops \<Rightarrow> SmemNetGroupEngine \<Rightarrow> 's \<Rightarrow> (SmemNetGroupEngine \<times> 's) cpp" where
  "destroy_engine w g s = do {
     let g = g\<lparr>groupStoped := True\<rparr>;
     (_, s) \<leftarrow> (if listenWatchId g \<noteq> UINT32_MAX then w_unwatch w (listenWatchId g) s else Some (SM_OK, s));
     if listenLinkStatusWatchId g \<noteq> UINT32_MAX then do {
       (_, s) \<leftarrow> w_unwatch w (listenLinkStatusWatchId g) s;
       Some (g\<lparr>listenLinkStatusWatchId := UINT32_MAX\<rparr>, s)
     }
     else Some (g, s)
   }"

definition LinkReconnectHandler ::
    "'s store_ops \<Rightarrow> 's watch_ops \<Rightarrow> SmemNetGroupEngine \<Rightarrow> 's \<Rightarrow> (result \<times> SmemNetGroupEngine \<times> 's) cpp" where
  "LinkReconnectHandler st w g s = do {
     (ret, wid, s) \<leftarrow> w_link_down w s;
     let g = (if ret \<noteq> SM_OK then g else g\<lparr>listenLinkStatusWatchId := wid\<rparr>);
     (ret, tmpVal, s) \<leftarrow> st_add st SMEM_GROUP_DYNAMIC_SIZE_KEY 0 0 s;
     if ret \<noteq> SM_OK then Some (ret, g, s)
     else do {
       let newVal = MergeSizeAndVersion (groupVersion g) (uint (rankSize (opt g)));
       (_, _, s) \<leftarrow> Cas_string st SMEM_GROUP_DYNAMIC_SIZE_KEY (to_string tmpVal) (to_string newVal) [] s;
       Some (SM_OK, g, s)
     }
   }"

end
