(* ===== verification/Group_Rendezvous.thy ===== *)
theory Group_Rendezvous
  imports Group_Engine
begin

text \<open>
  The protocol behind barrier and all-gather of the group engine, with the store calls of all ranks
  interleaved in any order: arrive at a key of the round, the first one removes the keys of the
  round before the last, the last one sets the key the others wait for, and everybody waits.

  The locale \<open>rendezvous\<close> states what the protocol needs of the store and of the operation that
  counts arrivals. Its lemmas hold for any number of rounds: nobody leaves a round that somebody has not
  entered, the number of steps is bounded, and only the end of all rounds stops the system. They
  rest on an invariant: ranks are at most one round apart, so the keys that are removed
  are those of rounds nobody is in.
\<close>

section \<open>Interleaved calls\<close>

text \<open>
  A state of the system: for every rank the number of calls it has started and what is left of the
  current one, and the shared state. \<open>again\<close> gives the next call of a rank from the result of the last one; every
  rank makes \<open>N\<close> calls. A call that is not answered blocks its rank.
\<close>

inductive sys_step :: "(nat \<Rightarrow> 'a \<Rightarrow> ('s, 'a) prog) \<Rightarrow> nat \<Rightarrow> (nat \<times> ('s, 'a) prog) list \<times> 's \<Rightarrow>
    (nat \<times> ('s, 'a) prog) list \<times> 's \<Rightarrow> bool" for again N where
  start: "i < length ps \<Longrightarrow> ps ! i = (k, Ret a) \<Longrightarrow> k < N \<Longrightarrow>
    sys_step again N (ps, s) (ps[i := (Suc k, again i a)], s)"
| call: "i < length ps \<Longrightarrow> ps ! i = (k, Call f) \<Longrightarrow> f s = Some (p, t) \<Longrightarrow>
    sys_step again N (ps, s) (ps[i := (k, p)], t)"

inductive sys_run :: "(nat \<Rightarrow> 'a \<Rightarrow> ('s, 'a) prog) \<Rightarrow> nat \<Rightarrow> (nat \<times> ('s, 'a) prog) list \<times> 's \<Rightarrow> nat \<Rightarrow>
    (nat \<times> ('s, 'a) prog) list \<times> 's \<Rightarrow> bool" for again N x where
  none: "sys_run again N x 0 x"
| more: "sys_run again N x m y \<Longrightarrow> sys_step again N y z \<Longrightarrow> sys_run again N x (Suc m) z"

section \<open>Where a rank is\<close>

text \<open>
  \<open>Idle\<close>: not in a call. \<open>Arr\<close>: about to arrive. \<open>Rm1\<close>, \<open>Rm2\<close>: about to remove the two old keys, with
  whether the rank was the last one. \<open>SetOk\<close>: about to release the others. \<open>Wait\<close>: waiting. \<open>Tail\<close>: released,
  with something left to do. The weights count the steps to the end of the call.
\<close>

datatype pc = Idle | Arr | Rm1 bool | Rm2 bool | SetOk | Wait | Tail

fun pc_weight :: "pc \<Rightarrow> nat" where
  "pc_weight Idle = 0"
| "pc_weight Tail = 1"
| "pc_weight Wait = 2"
| "pc_weight SetOk = 3"
| "pc_weight (Rm2 b) = 4"
| "pc_weight (Rm1 b) = 5"
| "pc_weight Arr = 6"

text \<open>\<open>rd\<close> is the round of every rank, counted by the calls it has started.\<close>

definition arrived :: "(nat \<Rightarrow> nat) \<Rightarrow> (nat \<Rightarrow> pc) \<Rightarrow> nat \<Rightarrow> nat \<Rightarrow> bool" where
  "arrived rd pc r i \<longleftrightarrow> r < rd i \<or> (r = rd i \<and> pc i \<noteq> Arr)"

definition passed :: "(nat \<Rightarrow> nat) \<Rightarrow> (nat \<Rightarrow> pc) \<Rightarrow> nat \<Rightarrow> nat" where
  "passed rd pc i = (if pc i = Idle \<or> pc i = Tail then rd i else rd i - 1)"

definition releasing :: "pc \<Rightarrow> bool" where
  "releasing c \<longleftrightarrow> c = Rm1 True \<or> c = Rm2 True \<or> c = SetOk"

text \<open>A round whose keys nobody removes yet.\<close>

definition live :: "nat \<Rightarrow> (nat \<Rightarrow> nat) \<Rightarrow> nat \<Rightarrow> bool" where
  "live n rd r \<longleftrightarrow> (\<forall>i < n. rd i \<le> Suc r)"

section \<open>The protocol\<close>

locale rendezvous =
  fixes st :: "nat \<Rightarrow> 's store_ops" and view :: "'s \<Rightarrow> bytes \<rightharpoonup> bytes" and ok :: "'s \<Rightarrow> bool" and good :: "bytes \<Rightarrow> bool"
    and n N :: nat
    and again :: "nat \<Rightarrow> 'a \<Rightarrow> ('s, 'a) prog" and result_of :: "nat \<Rightarrow> nat \<Rightarrow> 'a"
    and aKey wKey :: "nat \<Rightarrow> bytes"
    and stored :: "nat \<Rightarrow> nat list \<Rightarrow> bytes option"
    and arrive :: "nat \<Rightarrow> nat \<Rightarrow> 's \<Rightarrow> (result \<times> 'v \<times> 's) cpp" and first_guy last_guy :: "nat \<Rightarrow> 'v \<Rightarrow> bool"
    and timeout :: "nat \<Rightarrow> u64" and failing tail :: "nat \<Rightarrow> nat \<Rightarrow> ('s, 'a) prog"
  assumes kv: "kv_store (st i) view ok good"
    and keys_good: "r \<in> {1..N} \<Longrightarrow> good (aKey r) \<and> good (wKey r)"
    and keys_apart: "r \<in> {1..N} \<Longrightarrow> r' \<in> {1..N} \<Longrightarrow> aKey r \<noteq> wKey r'"
      "r \<in> {1..N} \<Longrightarrow> r' \<in> {1..N} \<Longrightarrow> aKey r = aKey r' \<longleftrightarrow> r = r'"
      "r \<in> {1..N} \<Longrightarrow> r' \<in> {1..N} \<Longrightarrow> wKey r = wKey r' \<longleftrightarrow> r = r'"
    and again_prog: "i < n \<Longrightarrow> r < N \<Longrightarrow> again i (result_of i r) = call2 (arrive i (Suc r)) (\<lambda>ret v.
        if ret \<noteq> SM_OK then failing i (Suc r)
        else
          let k = release_and_wait (st i) (last_guy (Suc r) v) (wKey (Suc r)) (timeout i) (failing i (Suc r)) (tail i (Suc r))
          in if first_guy (Suc r) v \<and> 2 < Suc r then remove_keys (st i) (aKey (Suc r - 2)) (wKey (Suc r - 2)) k else k)"
    and timeout_set: "i < n \<Longrightarrow> timeout i \<noteq> 0"
    and stored_nil: "stored r [] = None"
    and arrive_law: "ok s \<Longrightarrow> i < n \<Longrightarrow> r \<in> {1..N} \<Longrightarrow> view s (aKey r) = stored r xs \<Longrightarrow>
        distinct (xs @ [i]) \<Longrightarrow> set xs \<subseteq> {..<n} \<Longrightarrow>
      \<exists>v t. arrive i r s = Some (SM_OK, v, t) \<and> ok t \<and> view t = (view s)(aKey r := stored r (xs @ [i])) \<and>
        (first_guy r v \<longleftrightarrow> xs = []) \<and> (last_guy r v \<longleftrightarrow> Suc (length xs) = n)"
    and tail_law: "i < n \<Longrightarrow> r \<in> {1..N} \<Longrightarrow> tail i r = Ret (result_of i r) \<or>
        (\<exists>f. tail i r = Call f \<and> (\<forall>s xs. ok s \<longrightarrow> view s (aKey r) = stored r xs \<longrightarrow> distinct xs \<longrightarrow> set xs = {..<n} \<longrightarrow>
           f s = Some (Ret (result_of i r), s)))"
begin

definition rest :: "nat \<Rightarrow> nat \<Rightarrow> bool \<Rightarrow> ('s, 'a) prog" where
  "rest i r b = release_and_wait (st i) b (wKey r) (timeout i) (failing i r) (tail i r)"

fun prog_at :: "nat \<Rightarrow> nat \<Rightarrow> pc \<Rightarrow> ('s, 'a) prog" where
  "prog_at i r Idle = Ret (result_of i r)"
| "prog_at i r Arr = again i (result_of i (r - 1))"
| "prog_at i r (Rm1 b) = remove_keys (st i) (aKey (r - 2)) (wKey (r - 2)) (rest i r b)"
| "prog_at i r (Rm2 b) = call1 (st_remove (st i) (wKey (r - 2))) (\<lambda>_. rest i r b)"
| "prog_at i r SetOk = rest i r True"
| "prog_at i r Wait = rest i r False"
| "prog_at i r Tail = tail i r"

definition rounds_ok :: "(nat \<Rightarrow> nat) \<Rightarrow> (nat \<Rightarrow> pc) \<Rightarrow> bool" where
  "rounds_ok rd pc \<longleftrightarrow>
     (\<forall>i < n. rd i \<le> N \<and> (pc i \<noteq> Idle \<longrightarrow> 1 \<le> rd i) \<and> (\<forall>b. pc i = Rm1 b \<or> pc i = Rm2 b \<longrightarrow> 2 < rd i) \<and>
       (pc i = Tail \<longrightarrow> (\<exists>f. tail i (rd i) = Call f)))"

definition behind_ok :: "(nat \<Rightarrow> nat) \<Rightarrow> (nat \<Rightarrow> pc) \<Rightarrow> bool" where
  "behind_ok rd pc \<longleftrightarrow>
     (\<forall>i < n. \<forall>r. 1 \<le> r \<longrightarrow> r \<le> passed rd pc i \<or> (r = rd i \<and> releasing (pc i)) \<longrightarrow> (\<forall>j < n. arrived rd pc r j))"

definition order_ok :: "(nat \<Rightarrow> nat) \<Rightarrow> (nat \<Rightarrow> pc) \<Rightarrow> (nat \<Rightarrow> nat list) \<Rightarrow> bool" where
  "order_ok rd pc ord \<longleftrightarrow> (\<forall>r. distinct (ord r) \<and> set (ord r) = {i. i < n \<and> arrived rd pc r i})"

definition arrivals_ok :: "(nat \<Rightarrow> nat) \<Rightarrow> (nat \<Rightarrow> nat list) \<Rightarrow> (bytes \<rightharpoonup> bytes) \<Rightarrow> bool" where
  "arrivals_ok rd ord V \<longleftrightarrow> (\<forall>r \<in> {1..N}. live n rd r \<longrightarrow> V (aKey r) = stored r (ord r))"

definition release_ok :: "(nat \<Rightarrow> nat) \<Rightarrow> (nat \<Rightarrow> pc) \<Rightarrow> (bytes \<rightharpoonup> bytes) \<Rightarrow> bool" where
  "release_ok rd pc V \<longleftrightarrow> (\<forall>r \<in> {1..N}. live n rd r \<longrightarrow>
     (case V (wKey r) of
        Some w \<Rightarrow> w = SMEM_GROUP_SET_STR \<and> (\<forall>j < n. arrived rd pc r j)
      | None \<Rightarrow> (\<forall>j < n. arrived rd pc r j) \<longrightarrow> (\<exists>i < n. rd i = r \<and> releasing (pc i))))"

definition inv :: "(nat \<Rightarrow> nat) \<Rightarrow> (nat \<Rightarrow> pc) \<Rightarrow> (nat \<Rightarrow> nat list) \<Rightarrow> (bytes \<rightharpoonup> bytes) \<Rightarrow> bool" where
  "inv rd pc ord V \<longleftrightarrow>
     rounds_ok rd pc \<and> behind_ok rd pc \<and> order_ok rd pc ord \<and> arrivals_ok rd ord V \<and> release_ok rd pc V"

lemma rounds_okD:
  assumes "rounds_ok rd pc" and "i < n"
  shows "rd i \<le> N" and "pc i \<noteq> Idle \<Longrightarrow> 1 \<le> rd i" and "pc i = Rm1 b \<or> pc i = Rm2 b \<Longrightarrow> 2 < rd i"
    and "pc i = Tail \<Longrightarrow> \<exists>f. tail i (rd i) = Call f"
  using assms by (auto simp: rounds_ok_def)

lemma behind_okD:
  assumes "behind_ok rd pc" and "i < n" and "j < n"
  shows "1 \<le> r \<Longrightarrow> r \<le> passed rd pc i \<Longrightarrow> arrived rd pc r j"
    and "1 \<le> rd i \<Longrightarrow> releasing (pc i) \<Longrightarrow> arrived rd pc (rd i) j"
  using assms by (auto simp: behind_ok_def)

text \<open>The keys of the round a rank is in are live: nobody is two rounds ahead.\<close>

lemma live_round:
  assumes "inv rd pc ord V" and "i < n"
  shows "live n rd (rd i)"
  unfolding live_def
proof (intro allI impI, rule ccontr)
  fix j
  assume j: "j < n" "\<not> rd j \<le> Suc (rd i)"
  then have "Suc (rd i) \<le> passed rd pc j"
    by (auto simp: passed_def)
  from behind_okD(1) [OF _ j(1) assms(2) _ this] assms(1) show False
    by (simp add: arrived_def inv_def)
qed

lemma arrived_same: "pc i \<noteq> Arr \<Longrightarrow> c \<noteq> Arr \<Longrightarrow> arrived rd (pc(i := c)) = arrived rd pc"
  by (auto simp: arrived_def fun_eq_iff)

lemma release_same:
  assumes "release_ok rd pc V" and "pc i \<noteq> Arr" and "c \<noteq> Arr" and "releasing c = releasing (pc i)"
    and "\<And>r. r \<in> {1..N} \<Longrightarrow> live n rd r \<Longrightarrow> V' (wKey r) = V (wKey r)"
  shows "release_ok rd (pc(i := c)) V'"
proof -
  have rel: "releasing ((pc(i := c)) j) = releasing (pc j)" for j
    using assms(4) by simp
  show ?thesis
    using assms(1,5) unfolding release_ok_def rel arrived_same [of pc i c, OF assms(2,3)] by simp
qed

text \<open>A move of rank \<open>i\<close> that is neither an arrival nor the start of a call.\<close>

lemma inv_move:
  assumes "inv rd pc ord V" and "i < n" and "pc i \<noteq> Arr" and "pc i \<noteq> Idle" and "c \<noteq> Arr"
    and "\<And>b. c = Rm1 b \<or> c = Rm2 b \<Longrightarrow> 2 < rd i" and "c = Tail \<Longrightarrow> \<exists>f. tail i (rd i) = Call f"
    and "\<And>j. c = Idle \<or> c = Tail \<or> releasing c \<Longrightarrow> j < n \<Longrightarrow> arrived rd pc (rd i) j"
    and "\<And>r. r \<in> {1..N} \<Longrightarrow> live n rd r \<Longrightarrow> V' (aKey r) = V (aKey r)"
    and "release_ok rd (pc(i := c)) V'"
  shows "inv rd (pc(i := c)) ord V'"
proof -
  note same = arrived_same [of pc i c, OF assms(3,5)]
  have old: "rounds_ok rd pc" "behind_ok rd pc" "order_ok rd pc ord" "arrivals_ok rd ord V"
    using assms(1) by (simp_all add: inv_def)
  have "rounds_ok rd (pc(i := c))"
    using old(1) assms(2,4,6,7) by (auto simp: rounds_ok_def)
  moreover have "behind_ok rd (pc(i := c))"
    unfolding behind_ok_def same
  proof (intro allI impI)
    fix k r j
    assume a: "k < n" "1 \<le> r" "r \<le> passed rd (pc(i := c)) k \<or> r = rd k \<and> releasing ((pc(i := c)) k)" "j < n"
    show "arrived rd pc r j"
    proof (cases "k = i \<and> r = rd i \<and> (c = Idle \<or> c = Tail \<or> releasing c)")
      case True
      then show ?thesis
        using assms(8) a(4) by simp
    next
      case False
      then have "r \<le> passed rd pc k \<or> r = rd k \<and> releasing (pc k)"
        using a(3) by (auto simp: passed_def split: if_splits)
      then show ?thesis
        using old(2) a(1,2,4) by (auto simp: behind_ok_def)
    qed
  qed
  moreover have "order_ok rd (pc(i := c)) ord"
    using old(3) unfolding order_ok_def same .
  moreover have "arrivals_ok rd ord V'"
    using old(4) assms(9) by (simp add: arrivals_ok_def)
  ultimately show ?thesis
    using assms(10) by (simp add: inv_def)
qed

lemma not_live: "i < n \<Longrightarrow> 2 < rd i \<Longrightarrow> \<not> live n rd (rd i - 2)"
  by (auto simp: live_def intro!: exI [of _ i])

lemma exec_Rm1:
  assumes "inv rd pc ord (view s)" and "i < n" and "pc i = Rm1 b" and "ok s"
  shows "\<exists>f t. prog_at i (rd i) (Rm1 b) = Call f \<and> f s = Some (prog_at i (rd i) (Rm2 b), t) \<and> ok t \<and>
    inv rd (pc(i := Rm2 b)) ord (view t)"
proof -
  have r: "rounds_ok rd pc" "2 < rd i" "rd i \<le> N" and rel: "release_ok rd pc (view s)"
    using assms(1-3) rounds_okD by (auto simp: inv_def)
  then have g: "rd i - 2 \<in> {1..N}"
    by auto
  obtain ret t where t: "st_remove (st i) (aKey (rd i - 2)) s = Some (ret, t)" "ok t"
      "view t = (view s)(aKey (rd i - 2) := None)"
    using kv_store.remove_law [OF kv assms(4)] keys_good [OF g] by blast
  have V: "view t (aKey r') = view s (aKey r')" "view t (wKey r') = view s (wKey r')"
    if "r' \<in> {1..N}" "live n rd r'" for r'
    using t(3) keys_apart(1,2) [OF g that(1)] not_live [of i rd, OF assms(2) r(2)] that(2) by auto
  have "inv rd (pc(i := Rm2 b)) ord (view t)"
    using assms(1-3) r(2) V
    by (intro inv_move [OF assms(1)] release_same [OF rel]) (auto simp: releasing_def behind_okD inv_def)
  with t(1,2) show ?thesis
    by (simp add: remove_keys_def call1_def)
qed

lemma exec_Rm2:
  assumes "inv rd pc ord (view s)" and "i < n" and "pc i = Rm2 b" and "ok s"
  shows "\<exists>f t. prog_at i (rd i) (Rm2 b) = Call f \<and> f s = Some (prog_at i (rd i) (if b then SetOk else Wait), t) \<and> ok t \<and>
    inv rd (pc(i := if b then SetOk else Wait)) ord (view t)"
proof -
  have r: "rounds_ok rd pc" "2 < rd i" "rd i \<le> N" and rel: "release_ok rd pc (view s)"
    using assms(1-3) rounds_okD by (auto simp: inv_def)
  then have g: "rd i - 2 \<in> {1..N}"
    by auto
  obtain ret t where t: "st_remove (st i) (wKey (rd i - 2)) s = Some (ret, t)" "ok t"
      "view t = (view s)(wKey (rd i - 2) := None)"
    using kv_store.remove_law [OF kv assms(4)] keys_good [OF g] by blast
  have V: "view t (aKey r') = view s (aKey r')" "view t (wKey r') = view s (wKey r')"
    if "r' \<in> {1..N}" "live n rd r'" for r'
    using t(3) keys_apart(1) [OF that(1) g] keys_apart(3) [OF that(1) g] not_live [of i rd, OF assms(2) r(2)] that(2) by auto
  have "inv rd (pc(i := if b then SetOk else Wait)) ord (view t)"
    using assms(1-3) r(2) V
    by (intro inv_move [OF assms(1)] release_same [OF rel]) (auto simp: releasing_def behind_okD inv_def split: if_splits)
  with t(1,2) show ?thesis
    by (simp add: call1_def)
qed

lemma exec_SetOk:
  assumes "inv rd pc ord (view s)" and "i < n" and "pc i = SetOk" and "ok s"
  shows "\<exists>f t. prog_at i (rd i) SetOk = Call f \<and> f s = Some (prog_at i (rd i) Wait, t) \<and> ok t \<and>
    inv rd (pc(i := Wait)) ord (view t)"
proof -
  have r: "rounds_ok rd pc" "1 \<le> rd i" "rd i \<le> N" and rel: "release_ok rd pc (view s)" and b: "behind_ok rd pc"
    using assms(1-3) rounds_okD [of rd pc i] by (auto simp: inv_def)
  then have g: "rd i \<in> {1..N}"
    by simp
  have all: "arrived rd pc (rd i) j" if "j < n" for j
    using behind_okD(2) [OF b assms(2) that r(2)] assms(3) by (simp add: releasing_def)
  obtain t where t: "st_set (st i) (wKey (rd i)) SMEM_GROUP_SET_STR s = Some (0, t)" "ok t"
      "view t = (view s)(wKey (rd i) \<mapsto> SMEM_GROUP_SET_STR)"
    using kv_store.set_law [OF kv assms(4), of "wKey (rd i)" SMEM_GROUP_SET_STR] keys_good [OF g]
    by (auto simp: SMEM_GROUP_SET_STR_def)
  have same: "arrived rd (pc(i := Wait)) = arrived rd pc"
    using assms(3) by (simp add: arrived_same)
  have "release_ok rd (pc(i := Wait)) (view t)"
    unfolding release_ok_def same
  proof (intro ballI impI)
    fix r'
    assume r': "r' \<in> {1..N}" "live n rd r'"
    show "case view t (wKey r') of
        None \<Rightarrow> (\<forall>j < n. arrived rd pc r' j) \<longrightarrow> (\<exists>k < n. rd k = r' \<and> releasing ((pc(i := Wait)) k))
      | Some w \<Rightarrow> w = SMEM_GROUP_SET_STR \<and> (\<forall>j < n. arrived rd pc r' j)"
    proof (cases "r' = rd i")
      case True
      then show ?thesis
        using t(3) all by simp
    next
      case False
      then have "view t (wKey r') = view s (wKey r')"
        using t(3) keys_apart(3) [OF r'(1) g] by simp
      with False rel r' show ?thesis
        by (auto simp: release_ok_def split: option.splits)
    qed
  qed
  moreover have "view t (aKey r') = view s (aKey r')" if "r' \<in> {1..N}" for r'
    using t(3) keys_apart(1) [OF that g] by simp
  ultimately have "inv rd (pc(i := Wait)) ord (view t)"
    using assms(2,3) by (intro inv_move [OF assms(1)]) (auto simp: releasing_def)
  with t(1,2) show ?thesis
    by (simp add: rest_def release_and_wait_def call1_def)
qed

lemma exec_Wait:
  assumes "inv rd pc ord (view s)" and "i < n" and "pc i = Wait" and "ok s"
  shows "\<exists>f. prog_at i (rd i) Wait = Call f \<and> (view s (wKey (rd i)) = None \<longrightarrow> f s = None) \<and>
    (view s (wKey (rd i)) \<noteq> None \<longrightarrow> (\<exists>c. (c = Idle \<or> c = Tail) \<and> f s = Some (prog_at i (rd i) c, s) \<and>
       inv rd (pc(i := c)) ord (view s)))"
proof -
  have r: "rounds_ok rd pc" "1 \<le> rd i" "rd i \<le> N" and rel: "release_ok rd pc (view s)"
    using assms(1-3) rounds_okD [of rd pc i] by (auto simp: inv_def)
  then have g: "rd i \<in> {1..N}"
    by simp
  let ?f = "\<lambda>s. map_option (\<lambda>(ret, v, t). (if ret \<noteq> SM_OK then failing i (rd i)
      else if v \<noteq> SMEM_GROUP_SET_STR then failing i (rd i) else tail i (rd i), t))
    (Get_string (st i) (wKey (rd i)) [] (timeout i) s)"
  have f: "prog_at i (rd i) Wait = Call ?f"
    by (simp add: rest_def release_and_wait_def wait_ok_def call2_def)
  have none: "?f s = None" if "view s (wKey (rd i)) = None"
    using kv_store.block_law [OF kv assms(4) _ that timeout_set] keys_good [OF g] assms(2)
    by (simp add: Get_string_def)
  have some: "\<exists>c. (c = Idle \<or> c = Tail) \<and> ?f s = Some (prog_at i (rd i) c, s) \<and> inv rd (pc(i := c)) ord (view s)"
    if v: "view s (wKey (rd i)) \<noteq> None"
  proof -
    obtain w where w: "view s (wKey (rd i)) = Some w"
      using v by blast
    then have ok: "view s (wKey (rd i)) = Some SMEM_GROUP_SET_STR" and all: "\<forall>j < n. arrived rd pc (rd i) j"
      using bspec [OF rel [unfolded release_ok_def] g] live_round [OF assms(1,2)] by simp_all
    have "st_get (st i) (wKey (rd i)) [] (timeout i) s = Some (0, SMEM_GROUP_SET_STR, s)"
      using kv_store.get_law [OF kv assms(4) _ ok] keys_good [OF g] by (simp add: SMEM_GROUP_SET_STR_def)
    then have next_prog: "?f s = Some (tail i (rd i), s)"
      by (simp add: Get_string_def)
    have inv: "inv rd (pc(i := c)) ord (view s)" if "c = Idle \<or> c = Tail" "c = Tail \<longrightarrow> (\<exists>f. tail i (rd i) = Call f)" for c
      using that assms(2,3) all
      by (intro inv_move [OF assms(1)] release_same [OF rel]) (auto simp: releasing_def)
    show ?thesis
    proof (cases "tail i (rd i) = Ret (result_of i (rd i))")
      case True
      with next_prog inv [of Idle] show ?thesis
        by (intro exI [of _ Idle]) simp
    next
      case False
      then have "\<exists>f. tail i (rd i) = Call f"
        using tail_law [OF assms(2) g] by blast
      with next_prog inv [of Tail] show ?thesis
        by (intro exI [of _ Tail]) simp
    qed
  qed
  show ?thesis
    by (intro exI [of _ ?f] conjI impI f none some)
qed

lemma exec_Tail:
  assumes "inv rd pc ord (view s)" and "i < n" and "pc i = Tail" and "ok s"
  shows "\<exists>f. prog_at i (rd i) Tail = Call f \<and> f s = Some (prog_at i (rd i) Idle, s) \<and>
    inv rd (pc(i := Idle)) ord (view s)"
proof -
  have r: "rounds_ok rd pc" "1 \<le> rd i" "rd i \<le> N" and rel: "release_ok rd pc (view s)" and b: "behind_ok rd pc"
    and o: "order_ok rd pc ord" and a: "arrivals_ok rd ord (view s)"
    using assms(1-3) rounds_okD [of rd pc i] by (auto simp: inv_def)
  then have g: "rd i \<in> {1..N}"
    by simp
  have all: "arrived rd pc (rd i) j" if "j < n" for j
    using behind_okD(1) [OF b assms(2) that r(2)] assms(3) by (simp add: passed_def)
  then have "set (ord (rd i)) = {..<n}" "distinct (ord (rd i))"
    using o by (auto simp: order_ok_def)
  moreover have "view s (aKey (rd i)) = stored (rd i) (ord (rd i))"
    using a g live_round [OF assms(1,2)] by (simp add: arrivals_ok_def)
  moreover obtain f where "tail i (rd i) = Call f"
    using rounds_okD(4) [OF r(1) assms(2,3)] by blast
  ultimately have "tail i (rd i) = Call f \<and> f s = Some (Ret (result_of i (rd i)), s)"
    using tail_law [OF assms(2) g] assms(4) by auto
  moreover have "inv rd (pc(i := Idle)) ord (view s)"
    using assms(2,3) all by (intro inv_move [OF assms(1)] release_same [OF rel]) (auto simp: releasing_def)
  ultimately show ?thesis
    by auto
qed

lemma inv_start:
  assumes "inv rd pc ord V" and "i < n" and "pc i = Idle" and "rd i < N"
  shows "inv (rd(i := Suc (rd i))) (pc(i := Arr)) ord V"
proof -
  let ?rd = "rd(i := Suc (rd i))" and ?pc = "pc(i := Arr)"
  have same: "arrived ?rd ?pc = arrived rd pc"
    using assms(3) by (auto simp: arrived_def fun_eq_iff)
  have pass: "passed ?rd ?pc = passed rd pc"
    using assms(3) by (auto simp: passed_def fun_eq_iff)
  have live: "live n ?rd r \<Longrightarrow> live n rd r" for r
    unfolding live_def
  proof (intro allI impI)
    fix j assume "\<forall>j < n. ?rd j \<le> Suc r" and "j < n"
    then have "?rd j \<le> Suc r"
      by blast
    then show "rd j \<le> Suc r"
      by (cases "j = i") simp_all
  qed
  have rel: "releasing (?pc j) = releasing (pc j)" for j
    using assms(3) by (simp add: releasing_def)
  have at: "?rd j = r \<and> releasing (pc j) \<longleftrightarrow> rd j = r \<and> releasing (pc j)" for j r
    using assms(3) by (auto simp: releasing_def)
  have at': "r = ?rd j \<and> releasing (pc j) \<longleftrightarrow> r = rd j \<and> releasing (pc j)" for j r
    using assms(3) by (auto simp: releasing_def)
  have old: "rounds_ok rd pc" "behind_ok rd pc" "order_ok rd pc ord" "arrivals_ok rd ord V" "release_ok rd pc V"
    using assms(1) by (simp_all add: inv_def)
  have "rounds_ok ?rd ?pc"
    using old(1) assms(4) by (auto simp: rounds_ok_def)
  moreover have "behind_ok ?rd ?pc"
    using old(2) unfolding behind_ok_def same pass rel at' .
  moreover have "order_ok ?rd ?pc ord"
    using old(3) unfolding order_ok_def same .
  moreover have "arrivals_ok ?rd ord V"
    using old(4) live unfolding arrivals_ok_def by blast
  moreover have "release_ok ?rd ?pc V"
    unfolding release_ok_def same rel at
  proof (intro ballI impI)
    fix r assume r: "r \<in> {1..N}" "live n ?rd r"
    show "case V (wKey r) of
        None \<Rightarrow> (\<forall>j < n. arrived rd pc r j) \<longrightarrow> (\<exists>k < n. rd k = r \<and> releasing (pc k))
      | Some w \<Rightarrow> w = SMEM_GROUP_SET_STR \<and> (\<forall>j < n. arrived rd pc r j)"
      by (rule mp [OF bspec [OF old(5) [unfolded release_ok_def] r(1)] live [OF r(2)]])
  qed
  ultimately show ?thesis
    by (simp add: inv_def)
qed

lemma prog_Rm1: "prog_at i r (Rm1 b) = remove_keys (st i) (aKey (r - 2)) (wKey (r - 2)) (rest i r b)"
  by simp

text \<open>An arrival: the place of \<open>i\<close> in the order decides what it does next.\<close>

lemma inv_arrive:
  assumes "inv rd pc ord V" and "i < n" and "pc i = Arr" and "V' = V(aKey (rd i) := stored (rd i) (ord (rd i) @ [i]))"
    and "b = (Suc (length (ord (rd i))) = n)"
    and "c = (if ord (rd i) = [] \<and> 2 < rd i then Rm1 b else if b then SetOk else Wait)"
  shows "inv rd (pc(i := c)) (ord(rd i := ord (rd i) @ [i])) V'"
proof -
  let ?r = "rd i" and ?pc = "pc(i := c)" and ?ord = "ord(rd i := ord (rd i) @ [i])"
  have old: "rounds_ok rd pc" "behind_ok rd pc" "order_ok rd pc ord" "arrivals_ok rd ord V" "release_ok rd pc V"
    using assms(1) by (simp_all add: inv_def)
  have g: "?r \<in> {1..N}"
    using rounds_okD(1,2) [OF old(1) assms(2)] assms(3) by simp
  have c: "c \<noteq> Arr" "c \<noteq> Idle" "c \<noteq> Tail" "releasing c = b"
    using assms(6) by (auto simp: releasing_def split: if_splits)
  have arr: "arrived rd ?pc r j \<longleftrightarrow> arrived rd pc r j \<or> (j = i \<and> r = ?r)" for r j
    using c(1) assms(3) by (auto simp: arrived_def)
  have pass: "passed rd ?pc = passed rd pc"
    using c(2,3) assms(3) by (auto simp: passed_def fun_eq_iff)
  have here: "distinct (ord ?r @ [i])" "set (ord ?r @ [i]) = {j. j < n \<and> arrived rd ?pc ?r j}"
    using old(3) assms(2,3) by (auto simp: order_ok_def arr) (auto simp: arrived_def)
  have all: "b \<longleftrightarrow> (\<forall>j < n. arrived rd ?pc ?r j)"
  proof -
    have "card {j. j < n \<and> arrived rd ?pc ?r j} = Suc (length (ord ?r))"
      using distinct_card [OF here(1)] here(2) by simp
    moreover have "(\<forall>j < n. arrived rd ?pc ?r j) \<longleftrightarrow> {j. j < n \<and> arrived rd ?pc ?r j} = {..<n}"
      by auto
    moreover have "S = {..<n} \<longleftrightarrow> card S = n" if "S \<subseteq> {..<n}" for S
      using card_subset_eq [of "{..<n}" S] that by (metis card_lessThan finite_lessThan)
    then have "{j. j < n \<and> arrived rd ?pc ?r j} = {..<n} \<longleftrightarrow> card {j. j < n \<and> arrived rd ?pc ?r j} = n"
      by (rule meta_mp) auto
    ultimately show ?thesis
      using assms(5) by simp
  qed
  have "rounds_ok rd ?pc"
    using old(1) assms(2,3,6) by (auto simp: rounds_ok_def split: if_splits)
  moreover have "behind_ok rd ?pc"
    unfolding behind_ok_def pass
  proof (intro allI impI)
    fix k r j
    assume a: "k < n" "1 \<le> r" "r \<le> passed rd pc k \<or> r = rd k \<and> releasing (?pc k)" "j < n"
    show "arrived rd ?pc r j"
    proof (cases "k = i \<and> r = ?r \<and> b")
      case True
      then show ?thesis
        using all a(4) by simp
    next
      case False
      moreover have "\<not> releasing (pc i)"
        using assms(3) by (simp add: releasing_def)
      ultimately have "r \<le> passed rd pc k \<or> r = rd k \<and> releasing (pc k)"
        using a(3) c(4) by (auto split: if_splits)
      then show ?thesis
        using old(2) a(1,2,4) unfolding behind_ok_def arr by blast
    qed
  qed
  moreover have "order_ok rd ?pc ?ord"
    unfolding order_ok_def
  proof
    fix r
    show "distinct (?ord r) \<and> set (?ord r) = {j. j < n \<and> arrived rd ?pc r j}"
    proof (cases "r = ?r")
      case True
      then show ?thesis
        using here by simp
    next
      case False
      then show ?thesis
        using old(3) by (simp add: order_ok_def arr)
    qed
  qed
  moreover have "arrivals_ok rd ?ord V'"
    unfolding arrivals_ok_def
  proof (intro ballI impI)
    fix r assume r: "r \<in> {1..N}" "live n rd r"
    then show "V' (aKey r) = stored r (?ord r)"
      using assms(4) old(4) keys_apart(2) [OF r(1) g] by (auto simp: arrivals_ok_def)
  qed
  moreover have "release_ok rd ?pc V'"
    unfolding release_ok_def
  proof (intro ballI impI)
    fix r assume r: "r \<in> {1..N}" "live n rd r"
    have V: "V' (wKey r) = V (wKey r)"
      using assms(4) keys_apart(1) [OF g r(1)] by simp
    have old': "case V (wKey r) of
        None \<Rightarrow> (\<forall>j < n. arrived rd pc r j) \<longrightarrow> (\<exists>k < n. rd k = r \<and> releasing (pc k))
      | Some w \<Rightarrow> w = SMEM_GROUP_SET_STR \<and> (\<forall>j < n. arrived rd pc r j)"
      using old(5) r by (simp add: release_ok_def)
    show "case V' (wKey r) of
        None \<Rightarrow> (\<forall>j < n. arrived rd ?pc r j) \<longrightarrow> (\<exists>k < n. rd k = r \<and> releasing (?pc k))
      | Some w \<Rightarrow> w = SMEM_GROUP_SET_STR \<and> (\<forall>j < n. arrived rd ?pc r j)"
    proof (cases "V (wKey r)")
      case (Some w)
      then show ?thesis
        using old' by (simp add: V arr)
    next
      case None
      have "\<exists>k < n. rd k = r \<and> releasing (?pc k)" if every: "\<forall>j < n. arrived rd ?pc r j"
      proof (cases "r = ?r")
        case True
        then show ?thesis
          using every all c(4) assms(2) by auto
      next
        case False
        then have "\<forall>j < n. arrived rd pc r j"
          using every by (simp add: arr)
        then obtain k where k: "k < n" "rd k = r" "releasing (pc k)"
          using old' None by auto
        then have "k \<noteq> i"
          using assms(3) by (auto simp: releasing_def)
        then show ?thesis
          using k by auto
      qed
      then show ?thesis
        using None by (simp add: V)
    qed
  qed
  ultimately show ?thesis
    by (simp add: inv_def)
qed

lemma exec_Arr:
  assumes "inv rd pc ord (view s)" and "i < n" and "pc i = Arr" and "ok s"
  shows "\<exists>f t c ord'. prog_at i (rd i) Arr = Call f \<and> f s = Some (prog_at i (rd i) c, t) \<and> ok t \<and>
    pc_weight c < 6 \<and> inv rd (pc(i := c)) ord' (view t)"
proof -
  have old: "rounds_ok rd pc" "order_ok rd pc ord" "arrivals_ok rd ord (view s)"
    using assms(1) by (simp_all add: inv_def)
  have g: "rd i \<in> {1..N}"
    using rounds_okD(1,2) [OF old(1) assms(2)] assms(3) by simp
  then obtain r where r: "rd i = Suc r" "r < N"
    by (cases "rd i") auto
  have "view s (aKey (rd i)) = stored (rd i) (ord (rd i))"
    using old(3) g live_round [OF assms(1,2)] by (simp add: arrivals_ok_def)
  moreover have "distinct (ord (rd i) @ [i])" "set (ord (rd i)) \<subseteq> {..<n}"
    using old(2) assms(3) by (auto simp: order_ok_def arrived_def)
  ultimately obtain v t where t: "arrive i (rd i) s = Some (SM_OK, v, t)" "ok t"
      "view t = (view s)(aKey (rd i) := stored (rd i) (ord (rd i) @ [i]))"
      "first_guy (rd i) v \<longleftrightarrow> ord (rd i) = []" "last_guy (rd i) v \<longleftrightarrow> Suc (length (ord (rd i))) = n"
    using arrive_law [OF assms(4,2) g] by blast
  define b where "b = (Suc (length (ord (rd i))) = n)"
  define c where "c = (if ord (rd i) = [] \<and> 2 < rd i then Rm1 b else if b then SetOk else Wait)"
  have inv: "inv rd (pc(i := c)) (ord(rd i := ord (rd i) @ [i])) (view t)"
    by (rule inv_arrive [OF assms(1-3) t(3) b_def c_def])
  have lg: "last_guy (Suc r) v = b" and fg: "first_guy (Suc r) v = (ord (Suc r) = [])"
    using t(4,5) r(1) b_def by simp_all
  let ?f = "\<lambda>s. map_option (\<lambda>(ret, v, t). (if ret \<noteq> SM_OK then failing i (Suc r)
      else let k = rest i (Suc r) (last_guy (Suc r) v)
        in if first_guy (Suc r) v \<and> 2 < Suc r then remove_keys (st i) (aKey (Suc r - 2)) (wKey (Suc r - 2)) k else k, t))
    (arrive i (Suc r) s)"
  have "prog_at i (rd i) Arr = Call ?f"
    using again_prog [OF assms(2) r(2)] unfolding r(1) call2_def rest_def by simp
  moreover have "?f s = Some (prog_at i (rd i) c, t)"
    using t(1) unfolding c_def r(1) by (simp add: lg fg Let_def)
  moreover have "pc_weight c < 6"
    by (simp add: c_def)
  ultimately show ?thesis
    using inv t(2) by blast
qed

text \<open>The relation between the programs of the ranks and what they are doing, with a bound on what is left.\<close>

definition left :: "(nat \<Rightarrow> nat) \<Rightarrow> (nat \<Rightarrow> pc) \<Rightarrow> nat" where
  "left rd pc = (\<Sum>i < n. 7 * (N - rd i) + pc_weight (pc i))"

definition sys_rel :: "(nat \<times> ('s, 'a) prog) list \<Rightarrow> 's \<Rightarrow> (nat \<Rightarrow> nat) \<Rightarrow> (nat \<Rightarrow> pc) \<Rightarrow> (nat \<Rightarrow> nat list) \<Rightarrow> bool" where
  "sys_rel ps s rd pc ord \<longleftrightarrow> length ps = n \<and> (\<forall>i < n. ps ! i = (rd i, prog_at i (rd i) (pc i))) \<and> ok s \<and>
     inv rd pc ord (view s)"

lemma left_decreases:
  assumes "i < n" and "7 * (N - r) + pc_weight c < 7 * (N - rd i) + pc_weight (pc i)"
  shows "left (rd(i := r)) (pc(i := c)) < left rd pc"
  unfolding left_def using assms by (intro sum_strict_mono_ex1) auto

lemma sys_rel_update:
  assumes "sys_rel ps s rd pc ord" and "i < n" and "ok t" and "inv (rd(i := r)) (pc(i := c)) ord' (view t)"
  shows "sys_rel (ps[i := (r, prog_at i r c)]) t (rd(i := r)) (pc(i := c)) ord'"
  using assms by (auto simp: sys_rel_def nth_list_update)

lemma prog_at_Ret:
  assumes "prog_at i (rd i) (pc i) = Ret a" and "inv rd pc ord V" and "i < n"
  shows "pc i = Idle"
proof (cases "pc i")
  case Arr
  have "1 \<le> rd i" "rd i \<le> N"
    using rounds_okD(1,2) [of rd pc i] assms(2,3) Arr by (simp_all add: inv_def)
  then have "rd i - 1 < N"
    by simp
  from again_prog [OF assms(3) this] assms(1) Arr show ?thesis
    by (simp add: call2_def)
next
  case Tail
  then show ?thesis
    using assms rounds_okD(4) [of rd pc i] by (auto simp: inv_def)
qed (use assms(1) in \<open>simp_all add: remove_keys_def call1_def rest_def release_and_wait_def wait_ok_def call2_def\<close>)

lemma exec:
  assumes "inv rd pc ord (view s)" and "i < n" and "pc i \<noteq> Idle" and "ok s"
  shows "\<exists>f. prog_at i (rd i) (pc i) = Call f \<and>
    (f s = None \<and> pc i = Wait \<and> view s (wKey (rd i)) = None \<or>
     (\<exists>c t ord'. f s = Some (prog_at i (rd i) c, t) \<and> ok t \<and> pc_weight c < pc_weight (pc i) \<and>
        inv rd (pc(i := c)) ord' (view t)))"
proof -
  have move: ?thesis if "prog_at i (rd i) (pc i) = Call f" "f s = Some (prog_at i (rd i) c, t)" "ok t"
    "pc_weight c < pc_weight (pc i)" "inv rd (pc(i := c)) ord' (view t)" for f t c ord'
    using that by (intro exI [of _ f] conjI disjI2 exI [of _ c] exI [of _ t] exI [of _ ord'])
  show ?thesis
  proof (cases "pc i")
    case Idle
    then show ?thesis
      using assms(3) by simp
  next
    case Arr
    obtain f t c ord' where "prog_at i (rd i) Arr = Call f" "f s = Some (prog_at i (rd i) c, t)" "ok t" "pc_weight c < 6"
      "inv rd (pc(i := c)) ord' (view t)"
      using exec_Arr [OF assms(1,2) Arr assms(4)] by blast
    then show ?thesis
      by (intro move [of f c t ord']) (simp_all only: Arr pc_weight.simps)
  next
    case (Rm1 b)
    obtain f t where "prog_at i (rd i) (Rm1 b) = Call f" "f s = Some (prog_at i (rd i) (Rm2 b), t)" "ok t"
      "inv rd (pc(i := Rm2 b)) ord (view t)"
      using exec_Rm1 [OF assms(1,2) Rm1 assms(4)] by blast
    then show ?thesis
      by (intro move [of f "Rm2 b" t ord]) (simp_all only: Rm1 pc_weight.simps, simp?)
  next
    case (Rm2 b)
    obtain f t where "prog_at i (rd i) (Rm2 b) = Call f" "f s = Some (prog_at i (rd i) (if b then SetOk else Wait), t)"
      "ok t" "inv rd (pc(i := if b then SetOk else Wait)) ord (view t)"
      using exec_Rm2 [OF assms(1,2) Rm2 assms(4)] by blast
    then show ?thesis
      by (intro move [of f "if b then SetOk else Wait" t ord]) (simp_all only: Rm2 pc_weight.simps, simp?)
  next
    case SetOk
    obtain f t where "prog_at i (rd i) SetOk = Call f" "f s = Some (prog_at i (rd i) Wait, t)" "ok t"
      "inv rd (pc(i := Wait)) ord (view t)"
      using exec_SetOk [OF assms(1,2) SetOk assms(4)] by blast
    then show ?thesis
      by (intro move [of f Wait t ord]) (simp_all only: SetOk pc_weight.simps, simp?)
  next
    case Wait
    obtain f where f: "prog_at i (rd i) Wait = Call f" "view s (wKey (rd i)) = None \<longrightarrow> f s = None"
      "view s (wKey (rd i)) \<noteq> None \<longrightarrow> (\<exists>c. (c = Idle \<or> c = Tail) \<and> f s = Some (prog_at i (rd i) c, s) \<and>
         inv rd (pc(i := c)) ord (view s))"
      using exec_Wait [OF assms(1,2) Wait assms(4)] by (elim exE conjE)
    show ?thesis
    proof (cases "view s (wKey (rd i)) = None")
      case True
      with f Wait show ?thesis
        by simp
    next
      case False
      then obtain c where c: "c = Idle \<or> c = Tail" "f s = Some (prog_at i (rd i) c, s)"
        "inv rd (pc(i := c)) ord (view s)"
        using f(3) by blast
      then have "pc_weight c < pc_weight Wait"
        by auto
      with f(1) c assms(4) show ?thesis
        by (intro move [of f c s ord]) (simp_all only: Wait)
    qed
  next
    case Tail
    obtain f where "prog_at i (rd i) Tail = Call f" "f s = Some (prog_at i (rd i) Idle, s)"
      "inv rd (pc(i := Idle)) ord (view s)"
      using exec_Tail [OF assms(1,2) Tail assms(4)] by blast
    with assms(4) show ?thesis
      by (intro move [of f Idle s ord]) (simp_all only: Tail pc_weight.simps, simp?)
  qed
qed

lemma sys_step_rel:
  assumes "sys_step again N (ps, s) (qs, t)" and "sys_rel ps s rd pc ord"
  shows "\<exists>rd' pc' ord'. sys_rel qs t rd' pc' ord' \<and> left rd' pc' < left rd pc"
  using assms(1)
proof cases
  case (start i k a)
  have i: "i < n" "prog_at i (rd i) (pc i) = Ret a" "rd i = k" and inv: "inv rd pc ord (view s)" "ok s"
    using assms(2) start by (auto simp: sys_rel_def)
  have idle: "pc i = Idle"
    using prog_at_Ret [OF i(2) inv(1) i(1)] .
  then have a: "a = result_of i k"
    using i by simp
  have "inv (rd(i := Suc k)) (pc(i := Arr)) ord (view s)"
    using inv_start [OF inv(1) i(1) idle] i(3) start(5) by simp
  from sys_rel_update [OF assms(2) i(1) inv(2) this] have "sys_rel qs t (rd(i := Suc k)) (pc(i := Arr)) ord"
    using start a by simp
  moreover have "left (rd(i := Suc k)) (pc(i := Arr)) < left rd pc"
    using i(3) start(5) by (intro left_decreases [OF i(1)]) (simp add: idle)
  ultimately show ?thesis
    by blast
next
  case (call i k f p)
  have i: "i < n" "prog_at i (rd i) (pc i) = Call f" "rd i = k" and inv: "inv rd pc ord (view s)" "ok s"
    using assms(2) call by (auto simp: sys_rel_def)
  then have "pc i \<noteq> Idle"
    by auto
  from exec [OF inv(1) i(1) this inv(2)] i(2) call(4) obtain c ord' where
    c: "p = prog_at i (rd i) c" "ok t" "pc_weight c < pc_weight (pc i)" "inv rd (pc(i := c)) ord' (view t)"
    by auto
  have rd: "rd(i := rd i) = rd"
    by simp
  have "sys_rel qs t rd (pc(i := c)) ord'"
    using sys_rel_update [OF assms(2) i(1) c(2), of "rd i" c ord'] c(1,4) call(1) i(3) unfolding rd by simp
  moreover have "left rd (pc(i := c)) < left rd pc"
    using left_decreases [OF i(1), of "rd i" c rd pc] c(3) unfolding rd by simp
  ultimately show ?thesis
    by blast
qed

definition fresh :: "(nat \<times> ('s, 'a) prog) list \<Rightarrow> 's \<Rightarrow> bool" where
  "fresh ps s \<longleftrightarrow> ps = map (\<lambda>i. (0, Ret (result_of i 0))) [0..<n] \<and> ok s \<and>
     (\<forall>r \<in> {1..N}. view s (aKey r) = None \<and> view s (wKey r) = None)"

lemma fresh_rel:
  assumes "fresh ps s" and "0 < n"
  shows "sys_rel ps s (\<lambda>_. 0) (\<lambda>_. Idle) (\<lambda>r. if r = 0 then [0..<n] else [])"
proof -
  have "\<not> arrived (\<lambda>_. 0) (\<lambda>_. Idle) r j" if "1 \<le> r" for r j
    using that by (simp add: arrived_def)
  then have "release_ok (\<lambda>_. 0) (\<lambda>_. Idle) (view s)"
    using assms by (auto simp: release_ok_def fresh_def)
  then show ?thesis
    using assms
    by (auto simp: sys_rel_def inv_def fresh_def rounds_ok_def behind_ok_def passed_def releasing_def order_ok_def
        arrived_def arrivals_ok_def stored_nil)
qed

lemma sys_run_rel:
  assumes "sys_run again N (ps, s) m y" and "fresh ps s" and "0 < n"
  shows "\<exists>rd pc ord. sys_rel (fst y) (snd y) rd pc ord \<and> m + left rd pc \<le> 7 * N * n"
  using assms(1)
proof induction
  case none
  have "left (\<lambda>_. 0) (\<lambda>_. Idle) = 7 * N * n"
    by (simp add: left_def)
  with fresh_rel [OF assms(2,3)] show ?case
    by fastforce
next
  case (more m y z)
  then obtain rd pc ord where "sys_rel (fst y) (snd y) rd pc ord" "m + left rd pc \<le> 7 * N * n"
    by blast
  with sys_step_rel [of "fst y" "snd y" "fst z" "snd z" rd pc ord] more(2) obtain rd' pc' ord' where
    "sys_rel (fst z) (snd z) rd' pc' ord'" "left rd' pc' < left rd pc"
    by auto
  with \<open>m + left rd pc \<le> 7 * N * n\<close> show ?case
    by (intro exI [of _ rd'] exI [of _ pc'] exI [of _ ord']) simp
qed

text \<open>Nobody leaves a round that somebody has not entered, and whoever returns has the expected result.\<close>

lemma synchronised:
  assumes "sys_run again N (ps, s) m (qs, t)" and "fresh ps s" and "i < n" and "qs ! i = (k, Ret a)"
  shows "a = result_of i k" and "j < n \<Longrightarrow> k \<le> fst (qs ! j)"
proof -
  from assms(3) have "0 < n"
    by simp
  from sys_run_rel [OF assms(1,2) this] obtain rd pc ord where rel: "sys_rel qs t rd pc ord"
    by auto
  then have i: "prog_at i (rd i) (pc i) = Ret a" "rd i = k" and inv: "inv rd pc ord (view t)"
    and j: "\<And>j. j < n \<Longrightarrow> fst (qs ! j) = rd j"
    using assms(3,4) by (auto simp: sys_rel_def)
  have idle: "pc i = Idle"
    by (rule prog_at_Ret [OF i(1) inv assms(3)])
  then show "a = result_of i k"
    using i by simp
  show "k \<le> fst (qs ! j)" if "j < n"
  proof (cases "k = 0")
    case False
    then have "arrived rd pc k j"
      using behind_okD(1) [of rd pc i j k] inv idle i(2) assms(3) that by (simp add: inv_def passed_def)
    then show ?thesis
      using j [OF that] by (auto simp: arrived_def)
  qed simp
qed

lemma bounded_run:
  assumes "sys_run again N (ps, s) m (qs, t)" and "fresh ps s" and "0 < n"
  shows "m \<le> 7 * N * n"
  using sys_run_rel [OF assms] by fastforce

text \<open>A rank in the oldest round can move, or another one releases it.\<close>

lemma progress:
  assumes "sys_rel ps s rd pc ord" and "i < n" and "ps ! i \<noteq> (N, Ret (result_of i N))"
  shows "\<exists>y. sys_step again N (ps, s) y"
proof (rule ccontr)
  assume stuck: "\<nexists>y. sys_step again N (ps, s) y"
  have rel: "length ps = n" "\<And>j. j < n \<Longrightarrow> ps ! j = (rd j, prog_at j (rd j) (pc j))" "ok s" "inv rd pc ord (view s)"
    using assms(1) by (auto simp: sys_rel_def)
  have idle: "rd j = N" if "j < n" "pc j = Idle" for j
  proof (rule ccontr)
    assume "rd j \<noteq> N"
    then have "rd j < N"
      using rounds_okD(1) [of rd pc j] rel(4) that(1) by (simp add: inv_def)
    then show False
      using stuck sys_step.start [of j ps "rd j" "result_of j (rd j)"] rel(1,2) that by fastforce
  qed
  have wait: "pc j = Wait \<and> view s (wKey (rd j)) = None" if "j < n" "pc j \<noteq> Idle" for j
  proof -
    note e = exec [OF rel(4) that rel(3)]
    obtain f where f: "prog_at j (rd j) (pc j) = Call f"
      "f s = None \<and> pc j = Wait \<and> view s (wKey (rd j)) = None \<or> (\<exists>p t. f s = Some (p, t))"
      using e by blast
    show ?thesis
    proof (rule ccontr)
      assume "\<not> ?thesis"
      then obtain p t where "f s = Some (p, t)"
        using f(2) by blast
      with f(1) show False
        using stuck sys_step.call [of j ps "rd j" f s p t again N] rel(1,2) that(1) by auto
    qed
  qed
  have "\<exists>k < n. pc k \<noteq> Idle"
    using assms(2,3) idle [OF assms(2)] rel(2) [OF assms(2)] by auto
  then obtain k where k: "k < n" "pc k \<noteq> Idle" "\<And>j. j < n \<Longrightarrow> pc j \<noteq> Idle \<Longrightarrow> rd k \<le> rd j"
    using ex_has_least_nat [of "\<lambda>k. k < n \<and> pc k \<noteq> Idle" _ rd] by blast
  have parts: "rounds_ok rd pc" "release_ok rd pc (view s)"
    using rel(4) by (simp_all add: inv_def)
  have g: "rd k \<in> {1..N}"
    using rounds_okD(1,2) [OF parts(1) k(1)] k(2) by simp
  have "arrived rd pc (rd k) j" if "j < n" for j
    using that k idle [OF that] wait [OF that] g by (cases "pc j = Idle") (auto simp: arrived_def le_less)
  then obtain l where "l < n" "releasing (pc l)"
    using bspec [OF parts(2) [unfolded release_ok_def] g] live_round [OF rel(4) k(1)] wait [OF k(1,2)] by auto
  then show False
    using wait [of l] by (auto simp: releasing_def)
qed

lemma stuck_means_done:
  assumes "sys_run again N (ps, s) m (qs, t)" and "fresh ps s" and "\<nexists>y. sys_step again N (qs, t) y" and "i < n"
  shows "qs ! i = (N, Ret (result_of i N))"
proof -
  from assms(4) have "0 < n"
    by simp
  from sys_run_rel [OF assms(1,2) this] obtain rd pc ord where rel: "sys_rel qs t rd pc ord"
    by auto
  show ?thesis
    using progress [OF rel assms(4)] assms(3) by blast
qed

lemma runs_to_end:
  assumes "fresh ps s" and "0 < n"
  shows "\<exists>m qs t. sys_run again N (ps, s) m (qs, t) \<and> (\<nexists>y. sys_step again N (qs, t) y)"
proof -
  let ?P = "\<lambda>m. \<exists>y. sys_run again N (ps, s) m y"
  have "?P 0"
    by (blast intro: sys_run.none)
  moreover have "\<forall>k. ?P k \<longrightarrow> k \<le> 7 * N * n"
    using bounded_run [OF _ assms] by auto
  ultimately have "\<exists>m. ?P m \<and> (\<forall>k. ?P k \<longrightarrow> k \<le> m)"
    by (rule Nat.ex_has_greatest_nat)
  then obtain m y where "sys_run again N (ps, s) m y" "\<And>k z. sys_run again N (ps, s) k z \<Longrightarrow> k \<le> m"
    by blast
  then show ?thesis
    using sys_run.more [of again N "(ps, s)" m y] by (metis not_less_eq_eq le_refl surj_pair)
qed

end

end
