(* ===== verification/Group_Barrier.thy ===== *)
theory Group_Barrier
  imports Group_Rendezvous
begin

text \<open>
  The barrier of the group engine, end to end: every rank has its own connection to one configuration
  server, through the prefix of the group, the client and the packer, and the calls of all ranks
  interleave. \<open>GroupBarrier\<close> over these stores is an instance of the protocol of \<open>Group_Rendezvous\<close>.
\<close>

section \<open>Keys\<close>

lemma to_string_uint: "to_string (uint w) = dec_digits (unat w)"
  by (simp add: to_string_def)

lemma dec_digits_isdigit: "c \<in> set (dec_digits n) \<Longrightarrow> isdigit c"
  using dec_digits_correct by blast

lemma dec_digits_inject: "dec_digits m = dec_digits n \<longleftrightarrow> m = n"
  by (metis digits_value_dec_digits)

lemma dec_digits_append_inject:
  assumes "\<not> isdigit x" and "\<not> isdigit y"
  shows "dec_digits m @ x # xs = dec_digits n @ y # ys \<longleftrightarrow> m = n \<and> x # xs = y # ys"
proof
  assume eq: "dec_digits m @ x # xs = dec_digits n @ y # ys"
  have "takeWhile isdigit (dec_digits k @ z # zs) = dec_digits k" if "\<not> isdigit z" for k z zs
    using that dec_digits_isdigit by (simp add: takeWhile_append2)
  then have "dec_digits m = dec_digits n"
    using eq assms by metis
  then show "m = n \<and> x # xs = y # ys"
    using eq by (simp add: dec_digits_inject)
qed simp

lemma sn_key_inject:
  assumes "sfx = CHR ''_'' # a" and "sfx' = CHR ''_'' # b"
  shows "sn_key owner sn sfx = sn_key owner sn' sfx' \<longleftrightarrow> sn = sn' \<and> str sfx = str sfx'"
proof -
  have d: "\<not> isdigit (of_char CHR ''_'')"
    by (simp add: isdigit_def)
  show ?thesis
    unfolding sn_key_def to_string_uint assms str_def list.map
    using dec_digits_append_inject [OF d d] by (simp add: word_unat_eq_iff)
qed

lemma length_sn_key:
  "length (sn_key owner sn sfx) \<le> length owner + length sfx + 11"
  using length_to_string_uint [of sn] by (simp add: sn_key_def)

lemma length_to_string_sint: "length (to_string (sint (v :: 32 word))) \<le> 11"
proof -
  have "- (2 ^ 31) \<le> sint v" "sint v < 2 ^ 31"
    using sint_range_size [of v] by (simp_all add: word_size)
  then have "nat (- sint v) < 10 ^ 10" "nat (sint v) < 10 ^ 10"
    by simp_all
  then show ?thesis
    using length_dec_digits [of "nat (- sint v)" 10] length_dec_digits [of "nat (sint v)" 10]
    by (simp add: to_string_def)
qed

lemma group_key_okI: "length k \<le> 1000 \<Longrightarrow> key_ok (group_prefix dyn @ k)"
  by (simp add: key_ok_def group_prefix_def AutoRankingStr_def str_def)

lemma sn_key_ok: "length sfx \<le> 10 \<Longrightarrow> key_ok (group_prefix dyn @ sn_key (to_string (sint (v :: 32 word))) sn sfx)"
  using length_sn_key [of "to_string (sint v)" sn sfx] length_to_string_sint [of v]
  by (intro group_key_okI) simp

section \<open>The store of a rank\<close>

type_synonym 'x server = "(LocalBackend, 'x) AccStoreServer"

record conn =
  cStale :: bool
  cUp :: "link \<Rightarrow> bool"
  cNow :: int
  cSeq :: u32
  cLink :: link

definition member_store :: "conn \<Rightarrow> bool \<Rightarrow> 'x server store_ops" where
  "member_store c dyn = group_store (tcp_store (cStale c)
     (server_exchange local_ops (cUp c) (cNow c) \<lparr>seqNo = cSeq c, ctxLink = Some (cLink c)\<rparr>)) dyn"

abbreviation group_view :: "bool \<Rightarrow> 'x server \<Rightarrow> bytes \<rightharpoonup> bytes" where
  "group_view dyn s k \<equiv> server_view s (group_prefix dyn @ k)"

lemma member_store_kv: "kv_store (member_store c dyn) (group_view dyn) server_ok (\<lambda>k. key_ok (group_prefix dyn @ k))"
  unfolding member_store_def group_store_def PrefixConfigStore_tcp by (rule kv_store_prefix [OF tcp.kv_store_axioms])

section \<open>Barrier\<close>

text \<open>The member of a group: rank count, version, timeout and counter are those of the group.\<close>

definition member :: "u32 \<Rightarrow> 32 word \<Rightarrow> SmemNetGroupEngine \<Rightarrow> nat \<Rightarrow> SmemNetGroupEngine" where
  "member sz v g r = g\<lparr>opt := (opt g)\<lparr>rankSize := sz, opTimeoutMs := max 1 (opTimeoutMs (opt g))\<rparr>,
     groupVersion := sint v, barrierGroupSn := of_nat r\<rparr>"

lemma barrier_prog:
  assumes "Suc r < 2 ^ 32"
  shows "GroupBarrier st (member sz v g r) =
    call2 (st_add st (sn_key (to_string (sint v)) (of_nat (Suc r)) ''_BA'') 1 0) (\<lambda>ret val.
      if ret \<noteq> SM_OK then Ret (SM_ERROR, member sz v g (Suc r))
      else let k = release_and_wait st (val = uint sz) (sn_key (to_string (sint v)) (of_nat (Suc r)) ''_BW'')
          (max 1 (opTimeoutMs (opt g))) (Ret (SM_ERROR, member sz v g (Suc r))) (Ret (SM_OK, member sz v g (Suc r)))
        in if val = 1 \<and> 2 < Suc r
           then remove_keys st (sn_key (to_string (sint v)) (of_nat (Suc r - 2)) ''_BA'')
             (sn_key (to_string (sint v)) (of_nat (Suc r - 2)) ''_BW'') k
           else k)"
proof -
  have sn: "of_nat r + 1 = (of_nat (Suc r) :: u32)"
    by simp
  have gt: "(of_nat (Suc r) :: u32) > 2 \<longleftrightarrow> 2 < Suc r"
    using assms by (simp add: word_less_nat_alt unsigned_of_nat take_bit_nat_eq_self del: of_nat_Suc)
  have rm: "(of_nat (Suc r) :: u32) - 2 = of_nat (Suc r - 2)" if "2 < Suc r"
    using that by (simp add: of_nat_diff)
  have m: "(member sz v g r)\<lparr>barrierGroupSn := of_nat (Suc r)\<rparr> = member sz v g (Suc r)"
    by (simp add: member_def)
  have f: "rankSize (opt (member sz v g r)) = sz" "barrierGroupSn (member sz v g r) = of_nat r"
    "groupVersion (member sz v g (Suc r)) = sint v"
    "opTimeoutMs (opt (member sz v g (Suc r))) = max 1 (opTimeoutMs (opt g))"
    by (simp_all add: member_def)
  show ?thesis
    unfolding GroupBarrier_def f sn m Let_def gt
    by (intro arg_cong2 [of _ _ _ _ call2] ext refl) (simp only: rm cong: if_cong conj_cong)
qed

lemma keys_apart_of_nat:
  assumes "r \<in> {1..unat (rounds :: u32)}" and "r' \<in> {1..unat rounds}"
  shows "(of_nat r :: u32) = of_nat r' \<longleftrightarrow> r = r'"
proof -
  have "unat rounds < 2 ^ 32"
    using unsigned_less [of rounds, where 'a = nat] by simp
  then show ?thesis
    using assms by (simp add: word_of_nat_eq_iff take_bit_nat_eq_self)
qed

definition count_of :: "nat list \<Rightarrow> bytes option" where
  "count_of xs = (if xs = [] then None else Some (to_string (int (length xs))))"

lemma count_arrive:
  assumes "server_ok s" and "key_ok (group_prefix dyn @ k)" and "group_view dyn s k = count_of xs" and "length xs < 2 ^ 32"
  shows "\<exists>t. st_add (member_store c dyn) k 1 0 s = Some (SM_OK, int (length xs) + 1, t) \<and> server_ok t \<and>
    group_view dyn t = (group_view dyn s)(k := count_of (xs @ [i]))"
proof -
  define old where "old = (if xs = [] then None else Some (int (length xs)))"
  have "group_view dyn s k = map_option to_string old"
    using assms(3) by (simp add: count_of_def old_def)
  moreover have "\<forall>m. old = Some m \<longrightarrow> long_range m \<and> long_range (m + 1)"
    using assms(4) by (simp add: old_def long_range_def)
  moreover have "case_option 0 id old + 1 = int (length xs) + 1"
    by (simp add: old_def)
  moreover have "count_of (xs @ [i]) = Some (to_string (int (length xs) + 1))"
    by (simp add: count_of_def add.commute)
  ultimately show ?thesis
    using kv_store.add_law [OF member_store_kv [of c] assms(1,2), of old 1 0] by (simp add: long_range_def)
qed

lemma max_1_neq_0: "max 1 x \<noteq> (0 :: 'a::len word)"
  by (auto simp: max_def)

lemma count_is_size: "int n + 1 = uint w \<longleftrightarrow> Suc n = unat w"
  by (metis nat_int of_nat_Suc add.commute unat_eq_nat_uint uint_nat)

lemma length_below: "distinct xs \<Longrightarrow> set xs \<subseteq> {..<n} \<Longrightarrow> length xs \<le> n"
  by (metis card_lessThan card_mono distinct_card finite_lessThan)

interpretation barrier: rendezvous
  "\<lambda>i. member_store (conn i) dyn" "group_view dyn" server_ok "\<lambda>k. key_ok (group_prefix dyn @ k)" "unat sz" "unat rounds"
  "\<lambda>i (ret, g). GroupBarrier (member_store (conn i) dyn) g" "\<lambda>i r. (SM_OK, member sz v (gs i) r)"
  "\<lambda>r. sn_key (to_string (sint v)) (of_nat r) ''_BA''" "\<lambda>r. sn_key (to_string (sint v)) (of_nat r) ''_BW''"
  "\<lambda>r. count_of"
  "\<lambda>i r. st_add (member_store (conn i) dyn) (sn_key (to_string (sint v)) (of_nat r) ''_BA'') 1 0"
  "\<lambda>r val. val = 1" "\<lambda>r val. val = uint sz" "\<lambda>i. max 1 (opTimeoutMs (opt (gs i)))"
  "\<lambda>i r. Ret (SM_ERROR, member sz v (gs i) r)" "\<lambda>i r. Ret (SM_OK, member sz v (gs i) r)"
  for conn :: "nat \<Rightarrow> conn" and dyn :: bool and sz rounds :: u32 and v :: "32 word" and gs :: "nat \<Rightarrow> SmemNetGroupEngine"
proof (rule rendezvous.intro)
  fix i r :: nat
  assume "i < unat sz" and "r < unat rounds"
  then have "Suc r < 2 ^ 32"
    using unsigned_less [of rounds, where 'a = nat] by simp
  from barrier_prog [OF this]
  show "(case (SM_OK, member sz v (gs i) r) of (ret, g) \<Rightarrow> GroupBarrier (member_store (conn i) dyn) g) =
    call2 (st_add (member_store (conn i) dyn) (sn_key (to_string (sint v)) (of_nat (Suc r)) ''_BA'') 1 0) (\<lambda>ret val.
      if ret \<noteq> SM_OK then Ret (SM_ERROR, member sz v (gs i) (Suc r))
      else let k = release_and_wait (member_store (conn i) dyn) (val = uint sz)
          (sn_key (to_string (sint v)) (of_nat (Suc r)) ''_BW'') (max 1 (opTimeoutMs (opt (gs i))))
          (Ret (SM_ERROR, member sz v (gs i) (Suc r))) (Ret (SM_OK, member sz v (gs i) (Suc r)))
        in if val = 1 \<and> 2 < Suc r
           then remove_keys (member_store (conn i) dyn) (sn_key (to_string (sint v)) (of_nat (Suc r - 2)) ''_BA'')
             (sn_key (to_string (sint v)) (of_nat (Suc r - 2)) ''_BW'') k
           else k)"
    by simp
next
  fix s :: "'a server" and i r :: nat and xs
  let ?k = "sn_key (to_string (sint v)) (of_nat r) ''_BA''"
  assume a: "server_ok s" "i < unat sz" "r \<in> {1..unat rounds}" "group_view dyn s ?k = count_of xs"
    "distinct (xs @ [i])" "set xs \<subseteq> {..<unat sz}"
  have "length xs < 2 ^ 32"
    using length_below [of xs "unat sz"] a(5,6) unsigned_less [of sz, where 'a = nat] by simp
  from count_arrive [OF a(1) _ a(4) this, of "conn i" i] obtain t where
    t: "st_add (member_store (conn i) dyn) ?k 1 0 s = Some (SM_OK, int (length xs) + 1, t)" "server_ok t"
      "group_view dyn t = (group_view dyn s)(?k := count_of (xs @ [i]))"
    by (auto simp: sn_key_ok)
  have "int (length xs) + 1 = uint sz \<longleftrightarrow> Suc (length xs) = unat sz"
    by (rule count_is_size)
  with t show "\<exists>val t. st_add (member_store (conn i) dyn) ?k 1 0 s = Some (SM_OK, val, t) \<and> server_ok t \<and>
      group_view dyn t = (group_view dyn s)(?k := count_of (xs @ [i])) \<and> (val = 1 \<longleftrightarrow> xs = []) \<and>
      (val = uint sz \<longleftrightarrow> Suc (length xs) = unat sz)"
    by auto
next
  fix r r' :: nat
  assume r: "r \<in> {1..unat rounds}" "r' \<in> {1..unat rounds}"
  note keys = sn_key_inject [OF refl refl] keys_apart_of_nat [OF r]
  show "sn_key (to_string (sint v)) (of_nat r) ''_BA'' \<noteq> sn_key (to_string (sint v)) (of_nat r') ''_BW''"
    "sn_key (to_string (sint v)) (of_nat r) ''_BA'' = sn_key (to_string (sint v)) (of_nat r') ''_BA'' \<longleftrightarrow> r = r'"
    "sn_key (to_string (sint v)) (of_nat r) ''_BW'' = sn_key (to_string (sint v)) (of_nat r') ''_BW'' \<longleftrightarrow> r = r'"
    by (simp_all add: keys str_def)
qed (simp_all add: member_store_kv sn_key_ok count_of_def max_1_neq_0)

section \<open>Properties\<close>

text \<open>Every rank makes its next call with the engine the last call returned.\<close>

definition barrier_calls ::
    "(nat \<Rightarrow> conn) \<Rightarrow> bool \<Rightarrow> nat \<Rightarrow> result \<times> SmemNetGroupEngine \<Rightarrow> ('x server, result \<times> SmemNetGroupEngine) prog" where
  "barrier_calls conn dyn i = (\<lambda>(ret, g). GroupBarrier (member_store (conn i) dyn) g)"

text \<open>A group at the start: the engines agree on size and version, and no key of the coming \<open>N\<close> rounds exists.\<close>

definition barrier_group :: "bool \<Rightarrow> nat \<Rightarrow> SmemNetGroupEngine list \<Rightarrow> 'x server \<Rightarrow> bool" where
  "barrier_group dyn N gs s \<longleftrightarrow> gs \<noteq> [] \<and> length gs < 2 ^ 32 \<and> N < 2 ^ 32 \<and> server_ok s \<and>
     (\<exists>ver. - (2 ^ 31) \<le> ver \<and> ver < 2 ^ 31 \<and>
       (\<forall>g \<in> set gs. rankSize (opt g) = of_nat (length gs) \<and> opTimeoutMs (opt g) \<noteq> 0 \<and> groupVersion g = ver \<and>
          barrierGroupSn g = 0) \<and>
       (\<forall>r \<in> {1..N}. group_view dyn s (sn_key (to_string ver) (of_nat r) ''_BA'') = None \<and>
          group_view dyn s (sn_key (to_string ver) (of_nat r) ''_BW'') = None))"

lemma sint_of_int_range: "- (2 ^ 31) \<le> i \<Longrightarrow> i < 2 ^ 31 \<Longrightarrow> sint (of_int i :: 32 word) = i"
  by (simp add: sint_sbintrunc' signed_take_bit_int_eq_self)

lemma max_1_id: "x \<noteq> 0 \<Longrightarrow> max 1 x = (x :: 'a::len word)"
  by (auto simp: max_def word_less_1 not_le)

lemma barrier_group_fresh:
  assumes "barrier_group dyn N gs s"
  obtains sz rounds v where "unat sz = length gs" "unat rounds = N" "0 < length gs"
    "\<And>i r. i < length gs \<Longrightarrow> member sz v (gs ! i) r = (gs ! i)\<lparr>barrierGroupSn := of_nat r\<rparr>"
    "barrier.fresh dyn sz rounds v ((!) gs) (map (\<lambda>g. (0, Ret (SM_OK, g))) gs) s"
proof -
  obtain ver where g: "gs \<noteq> []" "length gs < 2 ^ 32" "N < 2 ^ 32" "server_ok s" "- (2 ^ 31) \<le> ver" "ver < 2 ^ 31"
    "\<And>g. g \<in> set gs \<Longrightarrow> rankSize (opt g) = of_nat (length gs) \<and> opTimeoutMs (opt g) \<noteq> 0 \<and> groupVersion g = ver \<and>
       barrierGroupSn g = 0"
    "\<forall>r \<in> {1..N}. group_view dyn s (sn_key (to_string ver) (of_nat r) ''_BA'') = None \<and>
       group_view dyn s (sn_key (to_string ver) (of_nat r) ''_BW'') = None"
    using assms unfolding barrier_group_def by blast
  define sz rounds :: u32 and v :: "32 word" where "sz = of_nat (length gs)" and "rounds = of_nat N" and "v = of_int ver"
  have w: "unat sz = length gs" "unat rounds = N" "sint v = ver"
    using g(2,3,5,6) by (simp_all add: sz_def rounds_def v_def unsigned_of_nat take_bit_nat_eq_self sint_of_int_range)
  have m: "member sz v g r = g\<lparr>barrierGroupSn := of_nat r\<rparr>" if "g \<in> set gs" for g r
    using g(7) [OF that] by (simp add: member_def w(3) sz_def max_1_id)
  moreover have "g\<lparr>barrierGroupSn := 0\<rparr> = g" if "g \<in> set gs" for g
    using g(7) [OF that] by simp
  ultimately have "map (\<lambda>g. (0, Ret (SM_OK, g))) gs = map (\<lambda>i. (0, Ret (SM_OK, member sz v (gs ! i) 0))) [0..<unat sz]"
    by (intro nth_equalityI) (simp_all add: w(1))
  then have "barrier.fresh dyn sz rounds v ((!) gs) (map (\<lambda>g. (0, Ret (SM_OK, g))) gs) s"
    using g(4,8) unfolding barrier.fresh_def unfolding w by blast
  then show ?thesis
    by (intro that [OF w(1,2)]) (use g(1) m in simp_all)
qed

text \<open>The facts of the protocol for such a group, in the terms of the properties.\<close>

lemma barrier_group_facts:
  fixes conn :: "nat \<Rightarrow> conn"
  assumes "barrier_group dyn N gs s"
  defines "runs \<equiv> sys_run (barrier_calls conn dyn) N (map (\<lambda>g. (0, Ret (SM_OK, g))) gs, s)"
  shows "runs m (qs, t) \<Longrightarrow> i < length gs \<Longrightarrow> qs ! i = (k, Ret (ret, g)) \<Longrightarrow>
      ret = SM_OK \<and> g = (gs ! i)\<lparr>barrierGroupSn := of_nat k\<rparr> \<and> (\<forall>j < length gs. k \<le> fst (qs ! j))"
    and "runs m (qs, t) \<Longrightarrow> m \<le> 7 * N * length gs"
    and "runs m (qs, t) \<Longrightarrow> \<nexists>z. sys_step (barrier_calls conn dyn) N (qs, t) z \<Longrightarrow> i < length gs \<Longrightarrow>
      qs ! i = (N, Ret (SM_OK, (gs ! i)\<lparr>barrierGroupSn := of_nat N\<rparr>))"
    and "\<exists>m qs t. runs m (qs, t) \<and> (\<nexists>z. sys_step (barrier_calls conn dyn) N (qs, t) z)"
proof -
  obtain sz rounds v where f: "unat sz = length gs" "unat rounds = N" "0 < length gs"
    "\<And>i r. i < length gs \<Longrightarrow> member sz v (gs ! i) r = (gs ! i)\<lparr>barrierGroupSn := of_nat r\<rparr>"
    "barrier.fresh dyn sz rounds v ((!) gs) (map (\<lambda>g. (0, Ret (SM_OK, g))) gs) s"
    by (rule barrier_group_fresh [OF assms(1)]) (rule that)
  have calls: "(\<lambda>i (ret, g). GroupBarrier (member_store (conn i) dyn) g) = barrier_calls conn dyn"
    by (simp add: barrier_calls_def [abs_def])
  have pos: "0 < unat sz"
    using f(1,3) by simp
  note fresh = f(5)
  show "ret = SM_OK \<and> g = (gs ! i)\<lparr>barrierGroupSn := of_nat k\<rparr> \<and> (\<forall>j < length gs. k \<le> fst (qs ! j))"
    if "runs m (qs, t)" "i < length gs" "qs ! i = (k, Ret (ret, g))"
    using barrier.synchronised [OF _ fresh, of conn, unfolded calls f(1,2), OF that [unfolded runs_def]] f(4) [OF that(2)] by auto
  show "m \<le> 7 * N * length gs" if "runs m (qs, t)"
    using barrier.bounded_run [OF _ fresh pos, of conn, unfolded calls f(1,2), OF that [unfolded runs_def]] .
  show "qs ! i = (N, Ret (SM_OK, (gs ! i)\<lparr>barrierGroupSn := of_nat N\<rparr>))"
    if "runs m (qs, t)" "\<nexists>z. sys_step (barrier_calls conn dyn) N (qs, t) z" "i < length gs"
    using barrier.stuck_means_done [OF _ fresh, of conn, unfolded calls f(1,2), OF that [unfolded runs_def]] f(4) [OF that(3)]
    by simp
  show "\<exists>m qs t. runs m (qs, t) \<and> (\<nexists>z. sys_step (barrier_calls conn dyn) N (qs, t) z)"
    using barrier.runs_to_end [OF fresh pos, of conn, unfolded calls f(1,2)] by (simp add: runs_def)
qed

text \<open>A group of two on an empty server.\<close>

definition example_engine :: "u32 \<Rightarrow> SmemNetGroupEngine" where
  "example_engine r = new_engine \<lparr>rankSize = 2, rank = r, opTimeoutMs = 1000, dynamic = False, joinCb = None, leaveCb = None\<rparr>"

definition empty_server :: "unit server" where
  "empty_server = new_server 8 \<lparr>kvStore = []\<rparr> ()"

definition example_conn :: "nat \<Rightarrow> conn" where
  "example_conn i = \<lparr>cStale = False, cUp = \<lambda>_. True, cNow = 0, cSeq = 1, cLink = of_nat i\<rparr>"

lemma empty_server_ok: "server_ok empty_server"
  by (simp add: server_ok_def no_handlers_def empty_server_def) (simp add: new_server_def)

lemma empty_server_empty: "server_view empty_server k = None"
  by (simp add: server_view_def new_server_def local_lookup_def empty_server_def)

lemma example_barrier_group: "barrier_group False 3 [example_engine 0, example_engine 1] empty_server"
  unfolding barrier_group_def
  by (auto simp: empty_server_ok empty_server_empty example_engine_def new_engine_def intro!: exI [of _ 0])

text \<open>
  C2. No rank leaves a barrier before every rank has entered it. The ranks of a group call \<open>GroupBarrier\<close>
  again and again over their own connections to one server, up to \<open>N\<close> times, and their store calls interleave in any
  way, including the removal of old keys: whenever a rank has returned from its \<open>k\<close>-th call, with
  success, every rank has started at least \<open>k\<close> calls.
\<close>

theorem barrier_synchronises:
  assumes "barrier_group dyn N gs s"
    and "sys_run (barrier_calls conn dyn) N (map (\<lambda>g. (0, Ret (SM_OK, g))) gs, s) m (qs, t)"
    and "i < length gs" and "qs ! i = (k, Ret (ret, g))"
  shows "ret = SM_OK \<and> g = (gs ! i)\<lparr>barrierGroupSn := of_nat k\<rparr> \<and> (\<forall>j < length gs. k \<le> fst (qs ! j))"
  using barrier_group_facts(1) [OF assms] .

theorem barrier_synchronises_witness:
  "\<exists>m qs t g. sys_run (barrier_calls example_conn False) 3
      (map (\<lambda>g. (0, Ret (SM_OK, g))) [example_engine 0, example_engine 1], empty_server) m (qs, t) \<and>
    qs ! 0 = (3, Ret (SM_OK, g)) \<and> 3 \<le> fst (qs ! 1)"
proof -
  let ?gs = "[example_engine 0, example_engine 1]"
  obtain m qs t where run: "sys_run (barrier_calls example_conn False) 3 (map (\<lambda>g. (0, Ret (SM_OK, g))) ?gs, empty_server) m (qs, t)"
    "\<nexists>z. sys_step (barrier_calls example_conn False) 3 (qs, t) z"
    using barrier_group_facts(4) [OF example_barrier_group] by blast
  have "qs ! 0 = (3, Ret (SM_OK, (?gs ! 0)\<lparr>barrierGroupSn := of_nat 3\<rparr>))"
    by (rule barrier_group_facts(3) [OF example_barrier_group run]) simp
  with barrier_synchronises [OF example_barrier_group run(1), of 0 3 SM_OK] run(1) show ?thesis
    by auto
qed



end
