(* ===== verification/Group_Gather.thy ===== *)
theory Group_Gather
  imports Group_Barrier "HOL-Library.Multiset"
begin

text \<open>
  The all-gather of the group engine: \<open>SortGatherRecv\<close> undoes the order of arrival, and \<open>GroupAllGather\<close> over
  the stores of the ranks is the second instance of the protocol of \<open>Group_Rendezvous\<close>, with data
  appended to the key that counts arrivals.
\<close>

section \<open>Sorting what was gathered\<close>

lemma drop_chunks:
  "(\<And>x. x \<in> set xs \<Longrightarrow> length (c x) = u) \<Longrightarrow> k \<le> length xs \<Longrightarrow> drop (k * u) (concat (map c xs)) = concat (map c (drop k xs))"
proof (induction xs arbitrary: k)
  case (Cons x xs)
  show ?case
  proof (cases k)
    case (Suc m)
    with Cons.prems Cons.IH [of m] show ?thesis
      by simp
  qed simp
qed simp

lemma length_chunks: "(\<And>x. x \<in> set xs \<Longrightarrow> length (c x) = u) \<Longrightarrow> length (concat (map c xs)) = length xs * u"
  by (induction xs) auto

lemma take_drop_chunk:
  assumes "\<And>x. x \<in> set xs \<Longrightarrow> length (c x) = u" and "k < length xs" and "m + l \<le> u"
  shows "take l (drop (k * u + m) (concat (map c xs))) = take l (drop m (c (xs ! k)))"
    and "k * u + m + l \<le> length (concat (map c xs))"
proof -
  have "drop (k * u + m) (concat (map c xs)) = drop m (concat (map c (drop k xs)))"
    using drop_chunks [of xs c u k, OF assms(1)] assms(2) by (metis add.commute drop_drop less_imp_le)
  also have "drop k xs = xs ! k # drop (Suc k) xs"
    using assms(2) by (simp add: Cons_nth_drop_Suc)
  finally show "take l (drop (k * u + m) (concat (map c xs))) = take l (drop m (c (xs ! k)))"
    using assms by simp
  have "Suc k * u \<le> length xs * u"
    using assms(2) by (intro mult_le_mono1) simp
  then show "k * u + m + l \<le> length (concat (map c xs))"
    using assms(3) by (simp add: length_chunks [OF assms(1)])
qed

definition position :: "nat list \<Rightarrow> nat \<Rightarrow> nat" where
  "position xs j = length (takeWhile (\<lambda>x. x \<noteq> j) xs)"

lemma nth_position: "j \<in> set xs \<Longrightarrow> position xs j < length xs \<and> xs ! position xs j = j"
  unfolding position_def by (induction xs) auto

lemma position_nth: "distinct xs \<Longrightarrow> k < length xs \<Longrightarrow> position xs (xs ! k) = k"
  using nth_position [of "xs ! k" xs] nth_eq_iff_index_eq [of xs "position xs (xs ! k)" k] by simp

lemma distinct_below:
  assumes "distinct xs" and "set xs = {..<n}"
  shows "length xs = n" and "mset xs = mset [0..<n]"
proof -
  show "length xs = n"
    using assms distinct_card [of xs] by simp
  show "mset xs = mset [0..<n]"
    using assms by (intro set_eq_iff_mset_eq_distinct [THEN iffD1]) (simp_all add: atLeast0LessThan)
qed

text \<open>What rank \<open>j\<close> contributes, and the entry of rank \<open>j\<close> in the table of offsets.\<close>

definition gather_chunk :: "(nat \<Rightarrow> bytes) \<Rightarrow> nat \<Rightarrow> bytes" where
  "gather_chunk f j = le_word (of_nat j :: u32) @ f j"

definition gather_entry :: "nat list \<Rightarrow> nat \<Rightarrow> nat \<Rightarrow> u32 \<times> u32" where
  "gather_entry xs d j = (of_nat j, of_nat (position xs j * (d + 4) + 4))"

lemma length_gather_chunk: "length (f j) = d \<Longrightarrow> length (gather_chunk f j) = d + 4"
  by (simp add: gather_chunk_def)

lemma unat_of_nat_small: "k < 2 ^ 32 \<Longrightarrow> unat (of_nat k :: u32) = k"
  by (simp add: unsigned_of_nat take_bit_nat_eq_self)

lemma gather_offsets_chunks:
  assumes "distinct xs" and "\<And>j. length (f j) = d" and "length xs * (d + 4) < 2 ^ 32" and "k + m = length xs"
  shows "gather_offsets (concat (map (gather_chunk f) xs)) (of_nat (d + 4)) m (of_nat k) = Some (map (gather_entry xs d) (drop k xs))"
  using assms(4)
proof (induction m arbitrary: k)
  case (Suc m)
  let ?v = "concat (map (gather_chunk f) xs)"
  have k: "k < length xs"
    using Suc.prems by simp
  note chunk = take_drop_chunk [of xs "gather_chunk f" "d + 4" k 0 4, OF length_gather_chunk [OF assms(2)] k]
  have "k * (d + 4) \<le> length xs * (d + 4)"
    using k by (intro mult_le_mono1) simp
  then have small: "k * (d + 4) < 2 ^ 32"
    using assms(3) by (rule le_less_trans)
  have idx: "of_nat k * of_nat (d + 4) = (of_nat (k * (d + 4)) :: u32)"
    by simp
  have "read_u32 ?v (of_nat (k * (d + 4))) = Some (of_nat (xs ! k))"
    unfolding read_u32_def unat_of_nat_small [OF small]
    using chunk by (simp add: gather_chunk_def word_le_le_word)
  moreover have "drop k xs = xs ! k # drop (Suc k) xs"
    using k by (simp add: Cons_nth_drop_Suc)
  moreover have "gather_entry xs d (xs ! k) = (of_nat (xs ! k), of_nat (k * (d + 4)) + 4)"
    by (simp add: gather_entry_def position_nth [OF assms(1) k])
  moreover have "gather_offsets ?v (of_nat (d + 4)) m (of_nat k + 1) = Some (map (gather_entry xs d) (drop (Suc k) xs))"
    using Suc.IH [of "Suc k"] Suc.prems by (simp add: add.commute)
  ultimately show ?case
    unfolding gather_offsets.simps Let_def idx by simp
qed simp

lemma sort_entries:
  assumes "distinct xs" and "set xs = {..<n}" and "n < 2 ^ 32"
  shows "sort (map (gather_entry xs d) xs) = map (gather_entry xs d) [0..<n]"
proof (rule properties_for_sort)
  show "mset (map (gather_entry xs d) [0..<n]) = mset (map (gather_entry xs d) xs)"
    using distinct_below(2) [OF assms(1,2)] by (metis mset_map)
  have "gather_entry xs d i \<le> gather_entry xs d j" if "i < j" "j < n" for i j
    using that assms(3) by (simp add: gather_entry_def less_eq_prod_def word_less_nat_alt unat_of_nat_small)
  then show "sorted (map (gather_entry xs d) [0..<n])"
    by (auto simp: sorted_wrt_map sorted_wrt_upt intro: sorted_wrt_mono_rel [OF _ sorted_wrt_upt])
qed

lemma gather_copy_chunks:
  assumes "distinct xs" and "set xs = {..<n}" and "\<And>j. length (f j) = d" and "n * (d + 4) < 2 ^ 32"
    and "i + m = n" and "length rest = m * d"
  shows "gather_copy (concat (map (gather_chunk f) xs)) (of_nat d) (map (gather_entry xs d) [i..<n]) (of_nat i)
    (concat (map f [0..<i]) @ rest) = Some (concat (map f [0..<n]))"
  using assms(5,6)
proof (induction m arbitrary: i rest)
  case 0
  then show ?case
    by simp
next
  case (Suc m)
  let ?v = "concat (map (gather_chunk f) xs)" and ?p = "position xs i"
  have len: "length xs = n"
    by (rule distinct_below(1) [OF assms(1,2)])
  have i: "i < n" "i \<in> set xs"
    using Suc.prems(1) assms(2) by simp_all
  then have p: "?p < length xs" "xs ! ?p = i"
    using nth_position by blast+
  note chunk = take_drop_chunk [of xs "gather_chunk f" "d + 4" ?p 4 d, OF length_gather_chunk [OF assms(3)] p(1)]
  have v: "length ?v = n * (d + 4)"
    using length_chunks [of xs "gather_chunk f" "d + 4", OF length_gather_chunk [OF assms(3)]] len by simp
  have small: "?p * (d + 4) + 4 < 2 ^ 32" "d < 2 ^ 32" "i * d < 2 ^ 32"
  proof -
    show "?p * (d + 4) + 4 < 2 ^ 32"
      using chunk(2) v assms(4) by simp
    have "d \<le> 1 * (d + 4)" "1 * (d + 4) \<le> n * (d + 4)" "i * d \<le> n * (d + 4)"
      using i(1) by (simp, (intro mult_le_mono; simp)+)
    then show "d < 2 ^ 32" "i * d < 2 ^ 32"
      using assms(4) by (blast intro: le_less_trans)+
  qed
  have out: "copy_out ?v (of_nat (?p * (d + 4) + 4)) (of_nat d) = Some (f i)"
    unfolding copy_out_def unat_of_nat_small [OF small(1)] unat_of_nat_small [OF small(2)]
    using chunk p(2) assms(3) by (simp add: gather_chunk_def)
  have full: "length (concat (map f [0..<i])) = i * d"
    using length_chunks [of "[0..<i]" f d] assms(3) by simp
  have start: "(of_nat d :: u32) * of_nat i = of_nat (i * d)"
    by (simp add: mult.commute)
  have "copy_in (concat (map f [0..<i]) @ rest) (of_nat (i * d)) (f i) =
      Some (concat (map f [0..<Suc i]) @ drop d rest)"
    unfolding copy_in_def unat_of_nat_small [OF small(3)] using full Suc.prems(2) assms(3) by simp
  moreover have "gather_copy ?v (of_nat d) (map (gather_entry xs d) [Suc i..<n]) (of_nat i + 1)
      (concat (map f [0..<Suc i]) @ drop d rest) = Some (concat (map f [0..<n]))"
    using Suc.IH [of "Suc i" "drop d rest"] Suc.prems by (simp add: add.commute)
  moreover have "[i..<n] = i # [Suc i..<n]"
    using i(1) by (rule upt_conv_Cons)
  ultimately show ?case
    using out by (simp only: list.map gather_entry_def [of xs d i] gather_copy.simps start bind.bind_lunit)
qed

lemma SortGatherRecv_sorts:
  assumes "distinct xs" and "set xs = {..<n}" and "\<And>j. length (f j) = d" and "n * (d + 4) < 2 ^ 32"
    and "length recvBuf = n * d"
  shows "SortGatherRecv (concat (map (gather_chunk f) xs)) (of_nat d) (of_nat n) recvBuf = Some (concat (map f [0..<n]))"
proof -
  have len: "length xs = n"
    by (rule distinct_below(1) [OF assms(1,2)])
  have n: "n < 2 ^ 32"
    using assms(4) by (metis add_gr_0 le_less_trans mult_le_mono2 nat_mult_1_right not_less_eq_eq One_nat_def Suc_leI zero_less_numeral)
  have "gather_offsets (concat (map (gather_chunk f) xs)) (of_nat (d + 4)) n 0 = Some (map (gather_entry xs d) xs)"
    using gather_offsets_chunks [OF assms(1,3), of 0 n] assms(4) len by simp
  moreover have "gather_copy (concat (map (gather_chunk f) xs)) (of_nat d) (map (gather_entry xs d) [0..<n]) 0 recvBuf =
      Some (concat (map f [0..<n]))"
    using gather_copy_chunks [OF assms(1-4), of 0 n recvBuf] assms(5) by simp
  ultimately show ?thesis
    unfolding SortGatherRecv_def unat_of_nat_small [OF n] by (simp add: sort_entries [OF assms(1,2) n])
qed

text \<open>
  C16. \<open>SortGatherRecv\<close> computes the concatenation of the ranks' data in the order of the ranks, whatever the
  order in which the ranks appended their parts: it agrees with the reference on every permutation.
\<close>

theorem gathered_in_rank_order:
  assumes "distinct xs" and "set xs = {..<n}" and "\<forall>j. length (f j) = d" and "n * (d + 4) < 2 ^ 32"
    and "length recvBuf = n * d"
  shows "SortGatherRecv (concat (map (\<lambda>j. le_word (of_nat j :: u32) @ f j) xs)) (of_nat d) (of_nat n) recvBuf =
    Some (concat (map f [0..<n]))"
  using SortGatherRecv_sorts [OF assms(1,2), of f d recvBuf] assms(3-5) by (simp add: gather_chunk_def [abs_def])

theorem gathered_in_rank_order_witness:
  "SortGatherRecv ([2, 0, 0, 0, 7] @ [0, 0, 0, 0, 5] @ [1, 0, 0, 0, 6]) 1 3 [0, 0, 0] = Some [5, 6, 7]"
proof -
  let ?f = "\<lambda>j. [5 + of_nat j] :: bytes"
  have "distinct [2, 0, 1 :: nat]" and "set [2, 0, 1] = {..<3 :: nat}" and "\<forall>j. length (?f j) = 1"
    and "3 * (1 + 4) < (2 :: nat) ^ 32" and "length [0, 0, 0 :: byte] = 3 * 1"
    by auto
  note sorts = gathered_in_rank_order [OF this]
  have parts: "concat (map (\<lambda>j. le_word (of_nat j :: u32) @ ?f j) [2, 0, 1]) = [2, 0, 0, 0, 7] @ [0, 0, 0, 0, 5] @ [1, 0, 0, 0, 6]"
    and "concat (map ?f [0..<3]) = [5, 6, 7]"
    by code_simp+
  with sorts show ?thesis
    unfolding parts by simp
qed

section \<open>All-gather\<close>

definition fix_length :: "nat \<Rightarrow> bytes \<Rightarrow> bytes" where
  "fix_length d xs = take d (xs @ replicate d 0)"

lemma length_fix_length [simp]: "length (fix_length d xs) = d"
  by (simp add: fix_length_def)

lemma fix_length_id: "length xs = d \<Longrightarrow> fix_length d xs = xs"
  by (simp add: fix_length_def)

definition gather_member :: "u32 \<Rightarrow> 32 word \<Rightarrow> SmemNetGroupEngine \<Rightarrow> nat \<Rightarrow> nat \<Rightarrow> SmemNetGroupEngine" where
  "gather_member sz v g i r = g\<lparr>opt := (opt g)\<lparr>rankSize := sz, rank := of_nat i,
     opTimeoutMs := max 1 (opTimeoutMs (opt g))\<rparr>, groupVersion := sint v, allGatherGroupSn := of_nat r\<rparr>"

lemma gather_input_chunk:
  assumes "length buf = d" and "d + 4 < 2 ^ 32"
  shows "gather_input buf (of_nat d) rk = Some (le_word rk @ buf)"
proof -
  have l: "unat ((of_nat d :: u32) + 4) = d + 4"
    using unat_of_nat_small [OF assms(2)] by simp
  have d: "unat (of_nat d :: u32) = d"
    using assms(2) by (intro unat_of_nat_small) simp
  have "GatherFillRank (replicate (d + 4) 0) rk = Some (le_word rk @ replicate d 0)"
    by (simp add: GatherFillRank_def copy_in_def)
  moreover have "copy_out buf 0 (of_nat d) = Some buf"
    using assms(1) by (simp add: copy_out_def d)
  moreover have "copy_in (le_word rk @ replicate d 0) 4 buf = Some (le_word rk @ buf)"
    using assms(1) by (simp add: copy_in_def)
  ultimately show ?thesis
    by (simp add: gather_input_def l)
qed

lemma gather_prog:
  assumes "Suc r < 2 ^ 32" and "length buf = d" and "d + 4 < 2 ^ 32"
  shows "GroupAllGather st buf (of_nat d) recvBuf (of_nat d * sz) (gather_member sz v g i r) =
    call2 (st_append st (sn_key (to_string (sint v)) (of_nat (Suc r)) ''_GA'') (le_word (of_nat i :: u32) @ buf) 0) (\<lambda>ret val.
      if ret \<noteq> SM_OK then Ret (SM_ERROR, recvBuf, gather_member sz v g i (Suc r))
      else let k = release_and_wait st (val = of_nat (d + 4) * ucast sz) (sn_key (to_string (sint v)) (of_nat (Suc r)) ''_GW'')
          (max 1 (opTimeoutMs (opt g))) (Ret (SM_ERROR, recvBuf, gather_member sz v g i (Suc r)))
          (gather_finish st (sn_key (to_string (sint v)) (of_nat (Suc r)) ''_GA'') (d + 4) (of_nat d) sz recvBuf
            (gather_member sz v g i (Suc r)))
        in if val = of_nat (d + 4) \<and> 2 < Suc r
           then remove_keys st (sn_key (to_string (sint v)) (of_nat (Suc r - 2)) ''_GA'')
             (sn_key (to_string (sint v)) (of_nat (Suc r - 2)) ''_GW'') k
           else k)"
proof -
  have sn: "of_nat r + 1 = (of_nat (Suc r) :: u32)"
    by simp
  have gt: "(of_nat (Suc r) :: u32) > 2 \<longleftrightarrow> 2 < Suc r"
    using assms(1) by (simp add: word_less_nat_alt unsigned_of_nat take_bit_nat_eq_self del: of_nat_Suc)
  have rm: "(of_nat (Suc r) :: u32) - 2 = of_nat (Suc r - 2)" if "2 < Suc r"
    using that by (simp add: of_nat_diff)
  have m: "(gather_member sz v g i r)\<lparr>allGatherGroupSn := of_nat (Suc r)\<rparr> = gather_member sz v g i (Suc r)"
    by (simp add: gather_member_def)
  have f: "rankSize (opt (gather_member sz v g i r)) = sz" "allGatherGroupSn (gather_member sz v g i r) = of_nat r"
    "groupVersion (gather_member sz v g i (Suc r)) = sint v" "rank (opt (gather_member sz v g i (Suc r))) = of_nat i"
    "opTimeoutMs (opt (gather_member sz v g i (Suc r))) = max 1 (opTimeoutMs (opt g))"
    by (simp_all add: gather_member_def)
  have len: "length (le_word (of_nat i :: u32) @ buf) = d + 4"
    using assms(2) by simp
  show ?thesis
    unfolding GroupAllGather_def f sn m Let_def gt gather_input_chunk [OF assms(2,3)] option.case len if_not_P [OF not_not [THEN iffD2, OF refl]]
    by (intro arg_cong2 [of _ _ _ _ call2] ext refl) (simp only: rm cong: if_cong conj_cong)
qed

text \<open>Sizes: everything that is gathered is one value of the store, at most 64 MiB.\<close>

definition piece_size :: "nat \<Rightarrow> nat \<Rightarrow> nat" where
  "piece_size n d = (if n * (d + 4) \<le> 67108864 then d else 0)"

definition piece :: "nat \<Rightarrow> nat \<Rightarrow> (nat \<Rightarrow> nat \<Rightarrow> bytes) \<Rightarrow> nat \<Rightarrow> nat \<Rightarrow> bytes" where
  "piece n d data r i = fix_length (piece_size n d) (data i r)"

definition pieces_of :: "nat \<Rightarrow> nat \<Rightarrow> (nat \<Rightarrow> nat \<Rightarrow> bytes) \<Rightarrow> nat \<Rightarrow> nat list \<Rightarrow> bytes option" where
  "pieces_of n d data r xs = (if xs = [] then None else Some (concat (map (gather_chunk (piece n d data r)) xs)))"

definition gathered :: "nat \<Rightarrow> nat \<Rightarrow> (nat \<Rightarrow> nat \<Rightarrow> bytes) \<Rightarrow> bytes \<Rightarrow> nat \<Rightarrow> bytes" where
  "gathered n d data buf r =
     (if r = 0 then fix_length (n * piece_size n d) buf else concat (map (piece n d data r) [0..<n]))"

lemma length_piece [simp]: "length (piece n d data r i) = piece_size n d"
  by (simp add: piece_def)

lemma length_pieces: "length (concat (map (gather_chunk (piece n d data r)) xs)) = length xs * (piece_size n d + 4)"
  by (rule length_chunks) (simp add: length_gather_chunk)

lemma length_gathered: "length (gathered n d data buf r) = n * piece_size n d"
  using length_chunks [of "[0..<n]" "piece n d data r" "piece_size n d"] by (simp add: gathered_def)

lemma piece_size_total: "n \<le> 65535 \<Longrightarrow> n * (piece_size n d + 4) \<le> 67108864"
  by (simp add: piece_size_def)

lemma of_nat_u64_eq: "a < 2 ^ 64 \<Longrightarrow> b < 2 ^ 64 \<Longrightarrow> (of_nat a :: u64) = of_nat b \<longleftrightarrow> a = b"
  by (simp add: word_of_nat_eq_iff take_bit_nat_eq_self)

lemma ucast_of_nat_small: "n \<le> 65535 \<Longrightarrow> (ucast (of_nat n :: u32) :: u64) = of_nat n"
  by (simp add: unsigned_of_nat take_bit_nat_eq_self)

lemma pieces_arrive:
  assumes "server_ok s" and "key_ok (group_prefix dyn @ k)" and "group_view dyn s k = pieces_of n d data r xs"
    and "n \<le> 65535" and "i < n" and "distinct (xs @ [i])" and "set xs \<subseteq> {..<n}"
  shows "\<exists>t. st_append (member_store c dyn) k (gather_chunk (piece n d data r) i) 0 s =
      Some (SM_OK, of_nat (Suc (length xs) * (piece_size n d + 4)), t) \<and> server_ok t \<and>
    group_view dyn t = (group_view dyn s)(k := pieces_of n d data r (xs @ [i]))"
    and "Suc (length xs) * (piece_size n d + 4) < 2 ^ 64"
proof -
  let ?c = "gather_chunk (piece n d data r)" and ?u = "piece_size n d + 4"
  let ?new = "case_option [] id (group_view dyn s k) @ ?c i"
  have new: "?new = concat (map ?c (xs @ [i]))"
    using assms(3) by (simp add: pieces_of_def)
  have "Suc (length xs) \<le> n"
    using length_below [OF assms(6), of n] assms(5,7) by simp
  then have "Suc (length xs) * ?u \<le> n * ?u"
    by (rule mult_le_mono1)
  also note piece_size_total [OF assms(4)]
  finally have total: "Suc (length xs) * ?u \<le> 67108864" .
  then show "Suc (length xs) * ?u < 2 ^ 64"
    by simp
  have len: "length ?new = Suc (length xs) * ?u"
    unfolding new length_pieces by simp
  have "length (?c i) \<le> 67108864" and "length ?new < 2 ^ 63"
    using total unfolding len by (simp_all add: length_gather_chunk)
  from kv_store.append_law [OF member_store_kv [of c] assms(1,2) this(1) refl this(2), of 0]
  show "\<exists>t. st_append (member_store c dyn) k (?c i) 0 s = Some (SM_OK, of_nat (Suc (length xs) * ?u), t) \<and> server_ok t \<and>
      group_view dyn t = (group_view dyn s)(k := pieces_of n d data r (xs @ [i]))"
    unfolding len unfolding new by (simp add: pieces_of_def)
qed

lemma gather_finish_sorts:
  assumes "server_ok s" and "key_ok (group_prefix dyn @ k)" and "group_view dyn s k = pieces_of n d data r xs"
    and "distinct xs" and "set xs = {..<n}" and "0 < n" and "n \<le> 65535" and "length recvBuf = n * piece_size n d" and "r \<noteq> 0"
  shows "\<exists>f. gather_finish (member_store c dyn) k (piece_size n d + 4) (of_nat (piece_size n d)) (of_nat n) recvBuf g = Call f \<and>
    f s = Some (Ret (SM_OK, gathered n d data buf r, g), s)"
proof -
  let ?v = "concat (map (gather_chunk (piece n d data r)) xs)" and ?u = "piece_size n d + 4"
  have len: "length xs = n"
    by (rule distinct_below(1) [OF assms(4,5)])
  have v: "length ?v = n * ?u"
    unfolding length_pieces len ..
  have total: "n * ?u \<le> 67108864"
    by (rule piece_size_total [OF assms(7)])
  have get: "st_get (member_store c dyn) k [] (opTimeoutMs (opt g)) s = Some (0, ?v, s)"
    using kv_store.get_law [OF member_store_kv [of c] assms(1,2), of ?v] assms(3,6) len v total by (auto simp: pieces_of_def)
  have "of_nat ?u * (ucast (of_nat n :: u32) :: u64) = of_nat (n * ?u)"
    unfolding ucast_of_nat_small [OF assms(7)] by (simp add: mult.commute)
  moreover have "SortGatherRecv ?v (of_nat (piece_size n d)) (of_nat n) recvBuf = Some (gathered n d data buf r)"
    using SortGatherRecv_sorts [OF assms(4,5), of "piece n d data r" "piece_size n d" recvBuf] total assms(8,9)
    by (simp add: gathered_def)
  ultimately show ?thesis
    using get v by (simp add: gather_finish_def call2_def)
qed

lemma gather_finish_law:
  assumes "key_ok (group_prefix dyn @ k)" and "0 < n" and "n \<le> 65535" and "length recvBuf = n * piece_size n d" and "r \<noteq> 0"
  shows "\<exists>f. gather_finish (member_store c dyn) k (piece_size n d + 4) (of_nat (piece_size n d)) (of_nat n) recvBuf g = Call f \<and>
    (\<forall>s xs. server_ok s \<longrightarrow> group_view dyn s k = pieces_of n d data r xs \<longrightarrow> distinct xs \<longrightarrow> set xs = {..<n} \<longrightarrow>
       f s = Some (Ret (SM_OK, gathered n d data buf r, g), s))"
proof -
  obtain f where f: "gather_finish (member_store c dyn :: 'a server store_ops) k (piece_size n d + 4)
      (of_nat (piece_size n d)) (of_nat n) recvBuf g = Call f"
    by (simp add: gather_finish_def call2_def)
  have "f s = Some (Ret (SM_OK, gathered n d data buf r, g), s)"
    if a: "server_ok s" "group_view dyn s k = pieces_of n d data r xs" "distinct xs" "set xs = {..<n}" for s xs
    using gather_finish_sorts [OF a(1) assms(1) a(2-4) assms(2-5), of c g buf] f by auto
  then show ?thesis
    by (intro exI [of _ f] conjI f allI impI)
qed

interpretation gather: rendezvous
  "\<lambda>i. member_store (conn i) dyn" "group_view dyn" server_ok "\<lambda>k. key_ok (group_prefix dyn @ k)" "unat sz" "unat rounds"
  "\<lambda>i (ret, recvBuf, g). GroupAllGather (member_store (conn i) dyn)
     (piece (unat sz) d data (Suc (unat (allGatherGroupSn g))) i) (of_nat (piece_size (unat sz) d)) recvBuf
     (of_nat (piece_size (unat sz) d) * of_nat (unat sz)) g"
  "\<lambda>i r. (SM_OK, gathered (unat sz) d data (bufs i) r, gather_member (of_nat (unat sz)) v (gs i) i r)"
  "\<lambda>r. sn_key (to_string (sint v)) (of_nat r) ''_GA''" "\<lambda>r. sn_key (to_string (sint v)) (of_nat r) ''_GW''"
  "pieces_of (unat sz) d data"
  "\<lambda>i r. st_append (member_store (conn i) dyn) (sn_key (to_string (sint v)) (of_nat r) ''_GA'')
     (gather_chunk (piece (unat sz) d data r) i) 0"
  "\<lambda>r val. val = of_nat (piece_size (unat sz) d + 4)"
  "\<lambda>r val. val = of_nat (piece_size (unat sz) d + 4) * ucast (of_nat (unat sz) :: u32)"
  "\<lambda>i. max 1 (opTimeoutMs (opt (gs i)))"
  "\<lambda>i r. Ret (SM_ERROR, gathered (unat sz) d data (bufs i) (r - 1), gather_member (of_nat (unat sz)) v (gs i) i r)"
  "\<lambda>i r. gather_finish (member_store (conn i) dyn) (sn_key (to_string (sint v)) (of_nat r) ''_GA'')
     (piece_size (unat sz) d + 4) (of_nat (piece_size (unat sz) d)) (of_nat (unat sz))
     (gathered (unat sz) d data (bufs i) (r - 1)) (gather_member (of_nat (unat sz)) v (gs i) i r)"
  for conn :: "nat \<Rightarrow> conn" and dyn :: bool and sz :: u16 and rounds :: u32 and v :: "32 word"
    and gs :: "nat \<Rightarrow> SmemNetGroupEngine" and d :: nat and data :: "nat \<Rightarrow> nat \<Rightarrow> bytes" and bufs :: "nat \<Rightarrow> bytes"
proof (rule rendezvous.intro)
  have n: "unat sz \<le> 65535"
    using unsigned_less [of sz, where 'a = nat] by simp
  let ?n = "unat sz" and ?d = "piece_size (unat sz) d"
  let ?ver = "to_string (sint v)" and ?g = "\<lambda>i. gather_member (of_nat ?n) v (gs i) i" and ?b = "\<lambda>i. gathered ?n d data (bufs i)"
  show "(case (SM_OK, ?b i r, ?g i r) of (ret, recvBuf, g) \<Rightarrow> GroupAllGather (member_store (conn i) dyn)
      (piece ?n d data (Suc (unat (allGatherGroupSn g))) i) (of_nat ?d) recvBuf (of_nat ?d * of_nat ?n) g) =
    call2 (st_append (member_store (conn i) dyn) (sn_key ?ver (of_nat (Suc r)) ''_GA'')
      (gather_chunk (piece ?n d data (Suc r)) i) 0) (\<lambda>ret val.
      if ret \<noteq> SM_OK then Ret (SM_ERROR, ?b i (Suc r - 1), ?g i (Suc r))
      else let k = release_and_wait (member_store (conn i) dyn) (val = of_nat (?d + 4) * ucast (of_nat ?n :: u32))
          (sn_key ?ver (of_nat (Suc r)) ''_GW'') (max 1 (opTimeoutMs (opt (gs i))))
          (Ret (SM_ERROR, ?b i (Suc r - 1), ?g i (Suc r)))
          (gather_finish (member_store (conn i) dyn) (sn_key ?ver (of_nat (Suc r)) ''_GA'') (?d + 4) (of_nat ?d) (of_nat ?n)
             (?b i (Suc r - 1)) (?g i (Suc r)))
        in if val = of_nat (?d + 4) \<and> 2 < Suc r
           then remove_keys (member_store (conn i) dyn) (sn_key ?ver (of_nat (Suc r - 2)) ''_GA'')
             (sn_key ?ver (of_nat (Suc r - 2)) ''_GW'') k
           else k)" if "i < ?n" "r < unat rounds" for i r
  proof -
    have r: "Suc r < 2 ^ 32"
      using that(2) unsigned_less [of rounds, where 'a = nat] by simp
    have "1 * (?d + 4) \<le> ?n * (?d + 4)"
      using that(1) by (intro mult_le_mono1) simp
    then have "?d + 4 \<le> 67108864"
      using piece_size_total [OF n, of d] by (simp only: mult_1 le_trans)
    then have fits: "?d + 4 < 2 ^ 32"
      by simp
    have "unat (of_nat r :: u32) = r"
      using r by (intro unat_of_nat_small) simp
    then have "Suc (unat (allGatherGroupSn (?g i r))) = Suc r"
      by (simp add: gather_member_def)
    then show ?thesis
      using gather_prog [OF r length_piece fits, of "member_store (conn i) dyn" data "Suc r" i "?b i r" "of_nat ?n" v "gs i" i]
      by (simp only: prod.case gather_chunk_def diff_Suc_1)
  qed
  show "\<exists>val t. st_append (member_store (conn i) dyn) (sn_key ?ver (of_nat r) ''_GA'') (gather_chunk (piece ?n d data r) i) 0 s =
        Some (SM_OK, val, t) \<and> server_ok t \<and>
      group_view dyn t = (group_view dyn s)(sn_key ?ver (of_nat r) ''_GA'' := pieces_of ?n d data r (xs @ [i])) \<and>
      (val = of_nat (?d + 4) \<longleftrightarrow> xs = []) \<and> (val = of_nat (?d + 4) * ucast (of_nat ?n :: u32) \<longleftrightarrow> Suc (length xs) = ?n)"
    if "server_ok s" "i < ?n" "r \<in> {1..unat rounds}"
      "group_view dyn s (sn_key ?ver (of_nat r) ''_GA'') = pieces_of ?n d data r xs" "distinct (xs @ [i])" "set xs \<subseteq> {..<?n}"
    for s :: "'a server" and i r xs
  proof -
    have k: "key_ok (group_prefix dyn @ sn_key ?ver (of_nat r) ''_GA'')"
      by (simp add: sn_key_ok)
    note app = pieces_arrive [OF that(1) k that(4) n that(2,5,6)]
    have total: "?n * (?d + 4) < 2 ^ 64"
      using piece_size_total [OF n, of d] by simp
    have last: "of_nat (?d + 4) * (ucast (of_nat ?n :: u32) :: u64) = of_nat (?n * (?d + 4))"
      unfolding ucast_of_nat_small [OF n] by (simp only: of_nat_mult mult.commute)
    have u: "?d + 4 < 2 ^ 64"
      using app(2) by simp
    have "(of_nat (Suc (length xs) * (?d + 4)) :: u64) = of_nat (?d + 4) \<longleftrightarrow> xs = []"
      unfolding of_nat_u64_eq [OF app(2) u] by auto
    moreover have "(of_nat (Suc (length xs) * (?d + 4)) :: u64) = of_nat (?d + 4) * ucast (of_nat ?n :: u32) \<longleftrightarrow>
        Suc (length xs) = ?n"
      unfolding last of_nat_u64_eq [OF app(2) total] by (simp only: mult_cancel2) simp
    ultimately show ?thesis
      using app(1) [of "conn i"] by blast
  qed
  show "gather_finish (member_store (conn i) dyn) (sn_key ?ver (of_nat r) ''_GA'') (?d + 4) (of_nat ?d) (of_nat ?n)
        (?b i (r - 1)) (?g i r) = Ret (SM_OK, ?b i r, ?g i r) \<or>
      (\<exists>f. gather_finish (member_store (conn i) dyn) (sn_key ?ver (of_nat r) ''_GA'') (?d + 4) (of_nat ?d) (of_nat ?n)
        (?b i (r - 1)) (?g i r) = Call f \<and>
        (\<forall>s xs. server_ok s \<longrightarrow> group_view dyn s (sn_key ?ver (of_nat r) ''_GA'') = pieces_of ?n d data r xs \<longrightarrow>
           distinct xs \<longrightarrow> set xs = {..<?n} \<longrightarrow> f s = Some (Ret (SM_OK, ?b i r, ?g i r), s)))"
    if "i < ?n" "r \<in> {1..unat rounds}" for i r
    by (rule disjI2, rule gather_finish_law) (use that n in \<open>simp_all add: sn_key_ok length_gathered\<close>)
  show "sn_key ?ver (of_nat r) ''_GA'' \<noteq> sn_key ?ver (of_nat r') ''_GW''"
    "sn_key ?ver (of_nat r) ''_GA'' = sn_key ?ver (of_nat r') ''_GA'' \<longleftrightarrow> r = r'"
    "sn_key ?ver (of_nat r) ''_GW'' = sn_key ?ver (of_nat r') ''_GW'' \<longleftrightarrow> r = r'"
    if "r \<in> {1..unat rounds}" "r' \<in> {1..unat rounds}" for r r'
    by (simp_all add: sn_key_inject [OF refl refl] keys_apart_of_nat [OF that] str_def)
qed (simp_all add: member_store_kv sn_key_ok pieces_of_def max_1_neq_0)

section \<open>Properties\<close>

text \<open>
  In its \<open>k\<close>-th call rank \<open>i\<close> sends \<open>data i k\<close>, of \<open>d\<close> bytes, and receives into the buffer the last call
  left; the group has \<open>n\<close> ranks.
\<close>

definition gather_calls ::
    "(nat \<Rightarrow> conn) \<Rightarrow> bool \<Rightarrow> nat \<Rightarrow> nat \<Rightarrow> (nat \<Rightarrow> nat \<Rightarrow> bytes) \<Rightarrow> nat \<Rightarrow> result \<times> bytes \<times> SmemNetGroupEngine \<Rightarrow>
       ('x server, result \<times> bytes \<times> SmemNetGroupEngine) prog" where
  "gather_calls conn dyn n d data i = (\<lambda>(ret, recvBuf, g).
     GroupAllGather (member_store (conn i) dyn) (data i (Suc (unat (allGatherGroupSn g)))) (of_nat d) recvBuf
       (of_nat d * of_nat n) g)"

definition gather_group ::
    "bool \<Rightarrow> nat \<Rightarrow> nat \<Rightarrow> (nat \<Rightarrow> nat \<Rightarrow> bytes) \<Rightarrow> (bytes \<times> SmemNetGroupEngine) list \<Rightarrow> 'x server \<Rightarrow> bool" where
  "gather_group dyn N d data gs s \<longleftrightarrow> gs \<noteq> [] \<and> length gs \<le> 65535 \<and> length gs * (d + 4) \<le> 67108864 \<and> N < 2 ^ 32 \<and>
     server_ok s \<and> (\<forall>i r. length (data i r) = d) \<and>
     (\<exists>ver. - (2 ^ 31) \<le> ver \<and> ver < 2 ^ 31 \<and>
       (\<forall>i < length gs. case gs ! i of (buf, g) \<Rightarrow> length buf = length gs * d \<and> rankSize (opt g) = of_nat (length gs) \<and>
          rank (opt g) = of_nat i \<and> opTimeoutMs (opt g) \<noteq> 0 \<and> groupVersion g = ver \<and> allGatherGroupSn g = 0) \<and>
       (\<forall>r \<in> {1..N}. group_view dyn s (sn_key (to_string ver) (of_nat r) ''_GA'') = None \<and>
          group_view dyn s (sn_key (to_string ver) (of_nat r) ''_GW'') = None))"

lemma gather_group_fresh:
  assumes "gather_group dyn N d data gs s"
  obtains sz :: u16 and rounds v where "unat sz = length gs" "unat rounds = N" "0 < length gs" "piece_size (length gs) d = d"
    "\<And>r i. piece (length gs) d data r i = data i r"
    "\<And>i r. i < length gs \<Longrightarrow>
       gather_member (of_nat (length gs)) v (snd (gs ! i)) i r = (snd (gs ! i))\<lparr>allGatherGroupSn := of_nat r\<rparr>"
    "gather.fresh dyn sz rounds d data (\<lambda>i. fst (gs ! i)) v (\<lambda>i. snd (gs ! i)) (map (\<lambda>(buf, g). (0, Ret (SM_OK, buf, g))) gs) s"
proof -
  obtain ver where g: "gs \<noteq> []" "length gs \<le> 65535" "length gs * (d + 4) \<le> 67108864" "N < 2 ^ 32" "server_ok s"
    "\<And>i r. length (data i r) = d" "- (2 ^ 31) \<le> ver" "ver < 2 ^ 31"
    "\<And>i. i < length gs \<Longrightarrow> case gs ! i of (buf, g) \<Rightarrow> length buf = length gs * d \<and> rankSize (opt g) = of_nat (length gs) \<and>
       rank (opt g) = of_nat i \<and> opTimeoutMs (opt g) \<noteq> 0 \<and> groupVersion g = ver \<and> allGatherGroupSn g = 0"
    "\<forall>r \<in> {1..N}. group_view dyn s (sn_key (to_string ver) (of_nat r) ''_GA'') = None \<and>
       group_view dyn s (sn_key (to_string ver) (of_nat r) ''_GW'') = None"
    using assms unfolding gather_group_def by blast
  define sz :: u16 and rounds :: u32 and v :: "32 word"
    where "sz = of_nat (length gs)" and "rounds = of_nat N" and "v = of_int ver"
  have w: "unat sz = length gs" "unat rounds = N" "sint v = ver"
    using g(2,4,7,8) by (simp_all add: sz_def rounds_def v_def unsigned_of_nat take_bit_nat_eq_self sint_of_int_range)
  have d: "piece_size (length gs) d = d"
    using g(3) by (simp add: piece_size_def)
  have m: "gather_member (of_nat (length gs)) v (snd (gs ! i)) i r = (snd (gs ! i))\<lparr>allGatherGroupSn := of_nat r\<rparr>"
    if "i < length gs" for i r
    using g(9) [OF that] by (auto simp: gather_member_def w(3) max_1_id)
  have b: "gathered (length gs) d data (fst (gs ! i)) 0 = fst (gs ! i)" "(snd (gs ! i))\<lparr>allGatherGroupSn := 0\<rparr> = snd (gs ! i)"
    if "i < length gs" for i
    using g(9) [OF that] by (auto simp: gathered_def d fix_length_id)
  have "map (\<lambda>(buf, g). (0, Ret (SM_OK, buf, g))) gs = map (\<lambda>i. (0, Ret (SM_OK,
      gathered (length gs) d data (fst (gs ! i)) 0, gather_member (of_nat (length gs)) v (snd (gs ! i)) i 0))) [0..<length gs]"
    by (intro nth_equalityI) (simp_all add: m b case_prod_beta)
  then have "gather.fresh dyn sz rounds d data (\<lambda>i. fst (gs ! i)) v (\<lambda>i. snd (gs ! i))
      (map (\<lambda>(buf, g). (0, Ret (SM_OK, buf, g))) gs) s"
    using g(5,10) unfolding gather.fresh_def unfolding w by blast
  then show ?thesis
    by (intro that [OF w(1,2)]) (use g(1,6) m d in \<open>simp_all add: piece_def fix_length_id\<close>)
qed

lemma gather_group_facts:
  fixes conn :: "nat \<Rightarrow> conn"
  assumes "gather_group dyn N d data gs s"
  defines "calls \<equiv> gather_calls conn dyn (length gs) d data"
    and "start \<equiv> (map (\<lambda>(buf, g). (0, Ret (SM_OK, buf, g))) gs, s)"
  shows "sys_run calls N start m (qs, t) \<Longrightarrow> i < length gs \<Longrightarrow> qs ! i = (k, Ret (ret, recvBuf, g)) \<Longrightarrow> 1 \<le> k \<Longrightarrow>
      ret = SM_OK \<and> recvBuf = concat (map (\<lambda>j. data j k) [0..<length gs])"
    and "sys_run calls N start m (qs, t) \<Longrightarrow> m \<le> 7 * N * length gs"
    and "sys_run calls N start m (qs, t) \<Longrightarrow> \<nexists>z. sys_step calls N (qs, t) z \<Longrightarrow> i < length gs \<Longrightarrow>
      \<exists>recvBuf g. qs ! i = (N, Ret (SM_OK, recvBuf, g))"
    and "\<exists>m qs t. sys_run calls N start m (qs, t) \<and> (\<nexists>z. sys_step calls N (qs, t) z)"
proof -
  obtain sz :: u16 and rounds v where f: "unat sz = length gs" "unat rounds = N" "0 < length gs"
    "piece_size (length gs) d = d" "\<And>r i. piece (length gs) d data r i = data i r"
    "\<And>i r. i < length gs \<Longrightarrow>
       gather_member (of_nat (length gs)) v (snd (gs ! i)) i r = (snd (gs ! i))\<lparr>allGatherGroupSn := of_nat r\<rparr>"
    "gather.fresh dyn sz rounds d data (\<lambda>i. fst (gs ! i)) v (\<lambda>i. snd (gs ! i)) (map (\<lambda>(buf, g). (0, Ret (SM_OK, buf, g))) gs) s"
    by (rule gather_group_fresh [OF assms(1)]) (rule that)
  have calls: "(\<lambda>i (ret, recvBuf, g). GroupAllGather (member_store (conn i) dyn)
      (piece (length gs) d data (Suc (unat (allGatherGroupSn g))) i) (of_nat (piece_size (length gs) d)) recvBuf
      (of_nat (piece_size (length gs) d) * of_nat (length gs)) g) = calls"
    by (simp add: calls_def gather_calls_def [abs_def] f(4,5))
  have pos: "0 < unat sz"
    using f(1,3) by simp
  note fresh = f(7)
  show "ret = SM_OK \<and> recvBuf = concat (map (\<lambda>j. data j k) [0..<length gs])"
    if "sys_run calls N start m (qs, t)" "i < length gs" "qs ! i = (k, Ret (ret, recvBuf, g))" "1 \<le> k"
    using gather.synchronised(1) [OF _ fresh, of conn, unfolded f(1,2) calls, OF that(1-3) [unfolded start_def]] that(4)
    by (simp add: gathered_def f(5) cong: map_cong)
  show "m \<le> 7 * N * length gs" if "sys_run calls N start m (qs, t)"
    using gather.bounded_run [OF _ fresh pos, of conn, unfolded f(1,2) calls, OF that [unfolded start_def]] .
  show "\<exists>recvBuf g. qs ! i = (N, Ret (SM_OK, recvBuf, g))"
    if "sys_run calls N start m (qs, t)" "\<nexists>z. sys_step calls N (qs, t) z" "i < length gs"
    using gather.stuck_means_done [OF _ fresh, of conn, unfolded f(1,2) calls, OF that [unfolded start_def]] by blast
  show "\<exists>m qs t. sys_run calls N start m (qs, t) \<and> (\<nexists>z. sys_step calls N (qs, t) z)"
    using gather.runs_to_end [OF fresh pos, of conn, unfolded f(1,2) calls] by (simp add: start_def)
qed

text \<open>
  C5. All-gather delivers. The ranks of a group call \<open>GroupAllGather\<close> up to \<open>N\<close> times with their store calls
  interleaved in any way: a rank that returns from its \<open>k\<close>-th call has success and the data of the
  \<open>k\<close>-th call of all ranks in the order of the ranks. There are at most seven steps per call, and the system
  stops only when every rank has returned from all its calls.
\<close>

theorem all_gather_delivers:
  assumes "gather_group dyn N d data gs s"
    and "sys_run (gather_calls conn dyn (length gs) d data) N (map (\<lambda>(buf, g). (0, Ret (SM_OK, buf, g))) gs, s) m (qs, t)"
  shows "m \<le> 7 * N * length gs \<and>
    (\<forall>i < length gs. \<forall>k ret recvBuf g. qs ! i = (k, Ret (ret, recvBuf, g)) \<longrightarrow> 1 \<le> k \<longrightarrow>
       ret = SM_OK \<and> recvBuf = concat (map (\<lambda>j. data j k) [0..<length gs])) \<and>
    ((\<nexists>z. sys_step (gather_calls conn dyn (length gs) d data) N (qs, t) z) \<longrightarrow>
       (\<forall>i < length gs. \<exists>recvBuf g. qs ! i = (N, Ret (SM_OK, recvBuf, g))))"
  using gather_group_facts(1-3) [OF assms(1), of conn] assms(2) by blast

theorem all_gather_delivers_witness:
  "\<exists>m qs t g. sys_run (gather_calls example_conn False 2 1 (\<lambda>i r. [of_nat (10 * i + r)])) 2
      (map (\<lambda>(buf, g). (0, Ret (SM_OK, buf, g))) [([0, 0], example_engine 0), ([0, 0], example_engine 1)], empty_server)
      m (qs, t) \<and> qs ! 1 = (2, Ret (SM_OK, [2, 12], g))"
proof -
  let ?gs = "[([0 :: byte, 0], example_engine 0), ([0, 0], example_engine 1)]" and ?data = "\<lambda>i r. [of_nat (10 * i + r)] :: bytes"
  have grp: "gather_group False 2 1 ?data ?gs empty_server"
    unfolding gather_group_def
    by (auto simp: empty_server_ok empty_server_empty example_engine_def new_engine_def less_Suc_eq intro!: exI [of _ 0])
  obtain m qs t where run: "sys_run (gather_calls example_conn False (length ?gs) 1 ?data) 2
      (map (\<lambda>(buf, g). (0, Ret (SM_OK, buf, g))) ?gs, empty_server) m (qs, t)"
    "\<nexists>z. sys_step (gather_calls example_conn False (length ?gs) 1 ?data) 2 (qs, t) z"
    using gather_group_facts(4) [OF grp, of example_conn] by (elim exE conjE)
  note ends = all_gather_delivers [OF grp run(1)]
  have "1 < length ?gs"
    by simp
  with ends run(2) obtain recvBuf g where q: "qs ! 1 = (2, Ret (SM_OK, recvBuf, g))"
    by blast
  have "recvBuf = concat (map (\<lambda>j. ?data j 2) [0..<length ?gs])"
    using ends [THEN conjunct2, THEN conjunct1, rule_format, OF \<open>1 < length ?gs\<close> q] by simp
  then have r: "recvBuf = [2, 12]"
    by (simp add: upt_rec)
  have two: "length ?gs = 2"
    by simp
  show ?thesis
    using run(1) q unfolding two r by blast
qed

end
