(* ===== verification/Group_Numbers.thy ===== *)
theory Group_Numbers
  imports Group_Barrier
begin

text \<open>
  The other services of the group engine: numbers from a shared bitmap, the events of joining and leaving,
  the size and version of a dynamic group, the bitmap of joined ranks.
\<close>

unbundle bit_operations_syntax

section \<open>Numbers\<close>

definition num_bit :: "bytes \<Rightarrow> nat \<Rightarrow> bool" where
  "num_bit v i \<longleftrightarrow> bit (v ! (i div 8)) (i mod 8)"

lemma bit_test: "(w :: 'a::len word) AND 2 ^ k = 0 \<longleftrightarrow> \<not> bit w k"
  using bit_iff_and_push_bit_not_eq_0 [of w k] by (simp add: push_bit_eq_mult)

lemma drop_test: "drop_bit k (w :: byte) AND 1 \<noteq> 0 \<longleftrightarrow> bit w k"
  by (simp add: bit_iff_odd_drop_bit and_one_eq odd_iff_mod_2_eq_one)

lemma length_flip_at [simp]: "length (flip_at v i) = length v"
  by (simp add: flip_at_def)

lemma num_bit_flip_at:
  assumes "i < 8 * length v"
  shows "num_bit (flip_at v i) j \<longleftrightarrow> (if j = i then \<not> num_bit v i else num_bit v j)"
proof -
  have "i div 8 < length v"
    using assms by (simp add: less_mult_imp_div_less mult.commute)
  moreover have "j = i \<longleftrightarrow> j div 8 = i div 8 \<and> j mod 8 = i mod 8"
    by (metis div_mult_mod_eq)
  ultimately show ?thesis
    by (auto simp: num_bit_def flip_at_def nth_list_update bit_xor_iff bit_exp_iff possible_bit_word)
qed

lemma find_clear_first:
  assumes "i \<le> j" and "j < i + n" and "\<And>k. i \<le> k \<Longrightarrow> k < j \<Longrightarrow> num_bit v k" and "\<not> num_bit v j" and "i + n \<le> 8 * length v"
  shows "find_clear v i n = Some (Some j)"
  using assms
proof (induction n arbitrary: i)
  case (Suc n)
  have "i div 8 < length v"
    using Suc.prems(5) by (simp add: less_mult_imp_div_less mult.commute)
  then show ?case
    using Suc.IH [of "Suc i"] Suc.prems by (cases "i = j") (auto simp: bit_test num_bit_def)
qed simp

lemma find_clear_none:
  "(\<And>k. i \<le> k \<Longrightarrow> k < i + n \<Longrightarrow> num_bit v k) \<Longrightarrow> i + n \<le> 8 * length v \<Longrightarrow> find_clear v i n = Some None"
proof (induction n arbitrary: i)
  case (Suc n)
  have "i div 8 < length v"
    using Suc.prems(2) by (simp add: less_mult_imp_div_less mult.commute)
  moreover have "num_bit v i"
    using Suc.prems(1) by simp
  ultimately show ?case
    using Suc.IH [of "Suc i"] Suc.prems by (auto simp: bit_test num_bit_def)
qed simp

definition no_numbers :: bytes where
  "no_numbers = replicate SMEM_ALLOC_NUM_BUF_LEN 0"

lemma length_no_numbers [simp]: "length no_numbers = 128"
  by (simp add: no_numbers_def)

lemma num_bit_zeros: "i < 1024 \<Longrightarrow> \<not> num_bit no_numbers i"
  by (simp add: num_bit_def no_numbers_def less_mult_imp_div_less)

definition free_numbers :: "bytes \<Rightarrow> nat set" where
  "free_numbers v = {i. i < 1024 \<and> \<not> num_bit v i}"

lemma find_clear_Min:
  assumes "length v = 128"
  shows "find_clear v 0 1024 = Some (if free_numbers v = {} then None else Some (Min (free_numbers v)))"
proof (cases "free_numbers v = {}")
  case True
  then have "num_bit v k" if "k < 1024" for k
    using that by (simp add: free_numbers_def)
  then have "find_clear v 0 1024 = Some None"
    by (intro find_clear_none) (simp_all add: assms)
  then show ?thesis
    by (simp only: True simp_thms if_True)
next
  case False
  define m where "m = Min (free_numbers v)"
  have fin: "finite (free_numbers v)"
    by (simp add: free_numbers_def)
  then have "m \<in> free_numbers v"
    unfolding m_def using False by (rule Min_in)
  then have m: "m < 1024" "\<not> num_bit v m"
    by (simp_all add: free_numbers_def)
  have "num_bit v k" if "k < m" for k
  proof (rule ccontr)
    assume "\<not> num_bit v k"
    then have "k \<in> free_numbers v"
      using that m by (simp add: free_numbers_def)
    then have "m \<le> k"
      unfolding m_def using fin by (intro Min_le)
    then show False
      using that by simp
  qed
  then have "find_clear v 0 1024 = Some (Some m)"
    using m by (intro find_clear_first) (simp_all add: assms)
  then show ?thesis
    by (simp only: m_def False if_False)
qed

lemma number_key_ok: "key_ok (group_prefix dyn @ SMEM_GROUP_CAS_ALLOC_NUM_KEY)"
  by (rule group_key_okI) (simp add: SMEM_GROUP_CAS_ALLOC_NUM_KEY_def)

text \<open>One compare-and-swap of a key: what it finds, and what is stored after it.\<close>

lemma cas_member:
  assumes "server_ok s" and "key_ok (group_prefix dyn @ k)" and "val_ok expect" and "val_ok v" and "val_ok (case_option [] id (group_view dyn s k))"
  obtains t where "st_cas (member_store c dyn) k expect v out s = Some (0, case_option [] id (group_view dyn s k), t)" and "server_ok t"
    and "group_view dyn t = (if case_option [] id (group_view dyn s k) = expect then (group_view dyn s)(k \<mapsto> v) else group_view dyn s)"
proof -
  note law = kv_store.cas_law [OF member_store_kv [of c dyn] assms(1,2,3,4) refl assms(5), of out]
  show thesis
    using law by (elim exE conjE) (rule that)
qed

lemma find_clear_zeros: "find_clear no_numbers 0 1024 = Some (Some 0)"
  by (rule find_clear_first) (simp_all add: num_bit_zeros)

text \<open>The bitmap that is stored; where nothing is stored yet, nothing is taken.\<close>

definition bitmap_stored :: "bool \<Rightarrow> bytes \<Rightarrow> 'x server \<Rightarrow> bool" where
  "bitmap_stored dyn v s \<longleftrightarrow> length v = 128 \<and>
     (group_view dyn s SMEM_GROUP_CAS_ALLOC_NUM_KEY = Some v \<or>
      group_view dyn s SMEM_GROUP_CAS_ALLOC_NUM_KEY = None \<and> v = no_numbers)"

lemma alloc_loop_stored:
  assumes "server_ok s" and "group_view dyn s SMEM_GROUP_CAS_ALLOC_NUM_KEY = Some v" and "length v = 128"
  shows "free_numbers v = {} \<Longrightarrow> alloc_loop (member_store c dyn) old v val s = Some (SM_ERROR, s)"
    and "free_numbers v \<noteq> {} \<Longrightarrow> \<exists>t. alloc_loop (member_store c dyn) old v val s = Some (int (Min (free_numbers v)), t) \<and>
      server_ok t \<and> group_view dyn t = (group_view dyn s)(SMEM_GROUP_CAS_ALLOC_NUM_KEY \<mapsto> flip_at v (Min (free_numbers v)))"
proof -
  have v: "v \<noteq> []"
    using assms(3) by auto
  note unfold = alloc_loop.simps [of "member_store c dyn" old v val s]
  show "alloc_loop (member_store c dyn) old v val s = Some (SM_ERROR, s)" if "free_numbers v = {}"
    using v that by (simp add: unfold find_clear_Min [OF assms(3)])
  show "\<exists>t. alloc_loop (member_store c dyn) old v val s = Some (int (Min (free_numbers v)), t) \<and>
      server_ok t \<and> group_view dyn t = (group_view dyn s)(SMEM_GROUP_CAS_ALLOC_NUM_KEY \<mapsto> flip_at v (Min (free_numbers v)))"
    if "free_numbers v \<noteq> {}"
  proof -
    obtain t where "st_cas (member_store c dyn) SMEM_GROUP_CAS_ALLOC_NUM_KEY v (flip_at v (Min (free_numbers v))) old s =
        Some (0, v, t)" "server_ok t"
      "group_view dyn t = (group_view dyn s)(SMEM_GROUP_CAS_ALLOC_NUM_KEY \<mapsto> flip_at v (Min (free_numbers v)))"
      by (rule cas_member [OF assms(1) number_key_ok [of dyn], of v "flip_at v (Min (free_numbers v))" c old])
        (simp_all add: assms(2,3))
    with v \<open>free_numbers v \<noteq> {}\<close> show ?thesis
      by (simp add: unfold find_clear_Min [OF assms(3)])
  qed
qed

lemma free_numbers_zeros: "free_numbers no_numbers = {i. i < 1024}"
  by (auto simp: free_numbers_def num_bit_zeros)

lemma Min_free_zeros: "Min (free_numbers no_numbers) = 0"
  unfolding free_numbers_zeros by (rule Min_eqI) simp_all

lemma AllocNumber_outcome:
  assumes "server_ok s" and "bitmap_stored dyn v s"
  shows "\<exists>t. server_ok t \<and>
    (if free_numbers v = {} then AllocNumber (member_store c dyn) g s = Some (SM_ERROR, g, t) \<and> group_view dyn t = group_view dyn s
     else AllocNumber (member_store c dyn) g s =
         Some (int (Min (free_numbers v)), g\<lparr>allocedSet := us_insert (int (Min (free_numbers v))) (allocedSet g)\<rparr>, t) \<and>
       group_view dyn t = (group_view dyn s)(SMEM_GROUP_CAS_ALLOC_NUM_KEY \<mapsto> flip_at v (Min (free_numbers v))))"
proof -
  let ?st = "member_store c dyn"
  note unfold = AllocNumber_def [of ?st g s, folded no_numbers_def] alloc_loop.simps [of ?st "[]" "[]" no_numbers s]
    find_clear_zeros
  have len: "length v = 128"
    using assms(2) by (simp add: bitmap_stored_def)
  then have "v \<noteq> []"
    by auto
  consider (some) "group_view dyn s SMEM_GROUP_CAS_ALLOC_NUM_KEY = Some v"
    | (none) "group_view dyn s SMEM_GROUP_CAS_ALLOC_NUM_KEY = None" "v = no_numbers"
    using assms(2) by (auto simp: bitmap_stored_def)
  then show ?thesis
  proof cases
    case some
    obtain t where cas: "st_cas ?st SMEM_GROUP_CAS_ALLOC_NUM_KEY [] (flip_at no_numbers 0) [] s = Some (0, v, t)" and t: "server_ok t"
      and view: "group_view dyn t = group_view dyn s"
      by (rule cas_member [OF assms(1) number_key_ok [of dyn], of "[]" "flip_at no_numbers 0" c "[]"])
        (use len in \<open>simp_all add: some \<open>v \<noteq> []\<close>\<close>)
    have first: "alloc_loop ?st [] [] no_numbers s = alloc_loop ?st [] v (flip_at no_numbers 0) t"
      using \<open>v \<noteq> []\<close> by (simp add: unfold(2-) cas)
    have "group_view dyn t SMEM_GROUP_CAS_ALLOC_NUM_KEY = Some v"
      using some view by metis
    note second = alloc_loop_stored [OF t this len, of c "[]" "flip_at no_numbers 0"]
    show ?thesis
    proof (cases "free_numbers v = {}")
      case True
      with first second(1) t view show ?thesis
        by (auto simp: unfold(1))
    next
      case False
      show ?thesis
        using second(2) [OF False] False view by (elim exE conjE) (auto simp: unfold(1) first)
    qed
  next
    case none
    obtain t where "st_cas ?st SMEM_GROUP_CAS_ALLOC_NUM_KEY [] (flip_at no_numbers 0) [] s = Some (0, [], t)" "server_ok t"
      "group_view dyn t = (group_view dyn s)(SMEM_GROUP_CAS_ALLOC_NUM_KEY \<mapsto> flip_at no_numbers 0)"
      by (rule cas_member [OF assms(1) number_key_ok [of dyn], of "[]" "flip_at no_numbers 0" c "[]"])
        (simp_all add: none(1))
    moreover have "0 \<in> free_numbers no_numbers"
      by (simp add: free_numbers_zeros)
    ultimately show ?thesis
      by (auto simp: none(2) Min_free_zeros unfold)
  qed
qed

lemma ReleaseNumber_outcome:
  assumes "server_ok s" and "group_view dyn s SMEM_GROUP_CAS_ALLOC_NUM_KEY = Some v" and "length v = 128"
    and "i < 1024" and "int i \<in> set (allocedSet g)"
  shows "\<exists>t. ReleaseNumber (member_store c dyn) (int i) g s = Some (SM_OK, g\<lparr>allocedSet := us_erase (int i) (allocedSet g)\<rparr>, t) \<and>
    server_ok t \<and> group_view dyn t = group_view dyn s"
proof -
  let ?st = "member_store c dyn" and ?w = "flip_at no_numbers i"
  have "v \<noteq> []"
    using assms(3) by auto
  obtain t where cas: "st_cas ?st SMEM_GROUP_CAS_ALLOC_NUM_KEY [] (flip_at ?w i) [] s = Some (0, v, t)" and t: "server_ok t"
    and view: "group_view dyn t = group_view dyn s"
    by (rule cas_member [OF assms(1) number_key_ok [of dyn], of "[]" "flip_at ?w i" c "[]"])
      (use assms(3) \<open>v \<noteq> []\<close> in \<open>simp_all add: assms(2)\<close>)
  have "num_bit ?w i"
    using assms(4) by (simp add: num_bit_flip_at num_bit_zeros)
  then have "drop_bit (i mod 8) (?w ! (i div 8)) AND 1 \<noteq> 0"
    by (simp only: drop_test num_bit_def)
  moreover have "i div 8 < 128"
    using assms(4) by (simp add: less_mult_imp_div_less)
  ultimately have "release_loop ?st i [] [] ?w s = Some (SM_OK, t)"
    using \<open>v \<noteq> []\<close> by (simp add: release_loop.simps [of ?st i "[]" "[]"] cas)
  then show ?thesis
    using assms(4,5) t view by (simp add: ReleaseNumber_def no_numbers_def [symmetric])
qed

text \<open>
  C14. \<open>AllocNumber\<close> on a group whose shared bitmap is \<open>v\<close> (1024 bits; none are set while the key does not
  exist): when a number is free it returns the smallest free one, remembers it, and the stored bitmap afterwards
  has exactly that bit more, every other key of the group being as before; when none is free it returns the error
  and changes nothing. It always returns: the loop is over after at most two exchanges with the server.
\<close>

theorem alloc_number_takes_smallest_free:
  assumes "server_ok s" and "bitmap_stored dyn v s"
  shows "\<exists>t. server_ok t \<and>
    (if free_numbers v = {} then AllocNumber (member_store c dyn) g s = Some (SM_ERROR, g, t) \<and> group_view dyn t = group_view dyn s
     else AllocNumber (member_store c dyn) g s =
         Some (int (Min (free_numbers v)), g\<lparr>allocedSet := us_insert (int (Min (free_numbers v))) (allocedSet g)\<rparr>, t) \<and>
       (\<exists>w. group_view dyn t = (group_view dyn s)(SMEM_GROUP_CAS_ALLOC_NUM_KEY \<mapsto> w) \<and> bitmap_stored dyn w t \<and>
         free_numbers w = free_numbers v - {Min (free_numbers v)}))"
proof (cases "free_numbers v = {}")
  case True
  then show ?thesis
    using AllocNumber_outcome [OF assms, of c g] by simp
next
  case False
  let ?m = "Min (free_numbers v)"
  have len: "length v = 128"
    using assms(2) by (simp add: bitmap_stored_def)
  have "?m \<in> free_numbers v"
    using False by (intro Min_in) (simp_all add: free_numbers_def)
  then have m: "?m < 1024" "\<not> num_bit v ?m"
    by (simp_all add: free_numbers_def)
  have free: "free_numbers (flip_at v ?m) = free_numbers v - {?m}"
    using m len by (auto simp: free_numbers_def num_bit_flip_at)
  obtain t where t: "server_ok t" "AllocNumber (member_store c dyn) g s =
      Some (int ?m, g\<lparr>allocedSet := us_insert (int ?m) (allocedSet g)\<rparr>, t)"
    and view: "group_view dyn t = (group_view dyn s)(SMEM_GROUP_CAS_ALLOC_NUM_KEY \<mapsto> flip_at v ?m)"
    using AllocNumber_outcome [OF assms, of c g] False by auto
  have "group_view dyn t SMEM_GROUP_CAS_ALLOC_NUM_KEY = Some (flip_at v ?m)"
    using fun_cong [OF view, of SMEM_GROUP_CAS_ALLOC_NUM_KEY] by simp
  then have "bitmap_stored dyn (flip_at v ?m) t"
    using len by (simp add: bitmap_stored_def)
  with t view free False show ?thesis
    by auto
qed

theorem alloc_number_takes_smallest_free_witness:
  "\<exists>t w. AllocNumber (member_store (example_conn 0) False) (example_engine 0) empty_server =
      Some (0, (example_engine 0)\<lparr>allocedSet := [0]\<rparr>, t) \<and>
    bitmap_stored False w t \<and> free_numbers w = free_numbers no_numbers - {0}"
proof -
  have "bitmap_stored False no_numbers empty_server"
    by (simp add: bitmap_stored_def empty_server_empty)
  moreover have "free_numbers no_numbers \<noteq> {}"
    using free_numbers_zeros by force
  ultimately show ?thesis
    using alloc_number_takes_smallest_free [OF empty_server_ok, of False no_numbers "example_conn 0" "example_engine 0"]
    by (auto simp: Min_free_zeros us_insert_def example_engine_def new_engine_def)
qed

text \<open>
  C34. \<open>ReleaseNumber\<close> of a number the rank holds, while the shared bitmap exists: it answers success and forgets
  the number, but the stored bitmap, like every other key, is as before. The loop condition is inverted: the first
  compare-and-swap always expects the empty value, it fails, and the loop ends instead of trying again.
\<close>

theorem release_number_releases_nothing:
  assumes "server_ok s" and "group_view dyn s SMEM_GROUP_CAS_ALLOC_NUM_KEY = Some v" and "length v = 128"
    and "i < 1024" and "int i \<in> set (allocedSet g)"
  shows "\<exists>t. ReleaseNumber (member_store c dyn) (int i) g s = Some (SM_OK, g\<lparr>allocedSet := us_erase (int i) (allocedSet g)\<rparr>, t) \<and>
    server_ok t \<and> group_view dyn t = group_view dyn s"
  using assms by (rule ReleaseNumber_outcome)

theorem release_number_releases_nothing_witness:
  "\<exists>s t. group_view False s SMEM_GROUP_CAS_ALLOC_NUM_KEY = Some (flip_at no_numbers 0) \<and>
    ReleaseNumber (member_store (example_conn 0) False) 0 ((example_engine 0)\<lparr>allocedSet := [0]\<rparr>) s =
      Some (SM_OK, (example_engine 0)\<lparr>allocedSet := []\<rparr>, t :: unit server) \<and>
    group_view False t = group_view False s"
proof -
  have "bitmap_stored False no_numbers empty_server"
    by (simp add: bitmap_stored_def empty_server_empty)
  moreover have "free_numbers no_numbers \<noteq> {}"
    using free_numbers_zeros by force
  ultimately obtain s :: "unit server" where s: "server_ok s" and
    view: "group_view False s = (group_view False empty_server)(SMEM_GROUP_CAS_ALLOC_NUM_KEY \<mapsto> flip_at no_numbers 0)"
    using AllocNumber_outcome [OF empty_server_ok, of False no_numbers "example_conn 0" "example_engine 0"]
    by (auto simp: Min_free_zeros)
  have "group_view False s SMEM_GROUP_CAS_ALLOC_NUM_KEY = Some (flip_at no_numbers 0)"
    using fun_cong [OF view, of SMEM_GROUP_CAS_ALLOC_NUM_KEY] by simp
  with release_number_releases_nothing [OF s this, of 0 "(example_engine 0)\<lparr>allocedSet := [0]\<rparr>" "example_conn 0"] show ?thesis
    by (auto simp: us_erase_def)
qed

end
