(* ===== verification/Group_Dynamic.thy ===== *)
theory Group_Dynamic
  imports Group_Numbers
begin

text \<open>
  Dynamic groups: the word that holds version and size of the group, the events, the lock on the
  event key, and what joining, leaving and listening do to them, for any store with the laws
  of \<open>kv_store\<close> and then for the store of a rank.
\<close>

unbundle bit_operations_syntax

section \<open>Version and size in one word\<close>

definition size_word :: "int \<Rightarrow> int \<Rightarrow> int" where
  "size_word v n = v * 2 ^ 30 + n"

definition size_range :: "int \<Rightarrow> int \<Rightarrow> bool" where
  "size_range v n \<longleftrightarrow> 0 \<le> v \<and> v < 2 ^ 31 \<and> 0 \<le> n \<and> n < 2 ^ 30"

lemma Split_size_word: "size_range v n \<Longrightarrow> SplitSizeAndVersion (size_word v n) = (v, n)"
proof -
  assume r: "size_range v n"
  have "(x :: int) AND 1073741823 = x mod 1073741824" for x
    using take_bit_eq_mask [of 30 x] by (simp add: mask_eq_exp_minus_1 take_bit_eq_mod)
  moreover have "size_word v n mod 2 ^ 64 = size_word v n" "size_word v n div 2 ^ 30 = v" "size_word v n mod 2 ^ 30 = n"
    using r by (simp_all add: size_word_def size_range_def)
  ultimately show ?thesis
    using r by (simp add: SplitSizeAndVersion_def Let_def drop_bit_eq_div signed_cast_def size_range_def)
qed

lemma Merge_size_word: "size_range v n \<Longrightarrow> MergeSizeAndVersion v n = size_word v n"
proof -
  assume r: "size_range v n"
  then have "take_bit 30 n = n" "v mod 2 ^ 32 = v" "n mod 2 ^ 32 = n"
    by (simp_all add: size_range_def take_bit_int_eq_self)
  with concat_bit_eq [of 30 n v] concat_bit_def [of 30 n v] show ?thesis
    by (simp add: MergeSizeAndVersion_def size_word_def push_bit_eq_mult or.commute)
qed

lemma join_delta: "push_bit 30 1 OR 1 = (1073741825 :: int)"
  by (simp add: push_bit_eq_mult)

lemma size_word_step: "size_word v n + 1073741825 = size_word (v + 1) (n + 1)" "size_word v n + 1073741823 = size_word (v + 1) (n - 1)"
  by (simp_all add: size_word_def algebra_simps)

lemma size_word_long: "size_range v n \<Longrightarrow> long_range (size_word v n) \<and> long_range (size_word v n + 1073741825) \<and> long_range (size_word v n + 1073741823)"
  by (simp add: size_range_def size_word_def long_range_def)

section \<open>Events\<close>

lemma extract_to_string: "extract_u32 (to_string (uint r)) old = r"
proof -
  have "unat r \<le> 4294967295"
    using unsigned_less [of r, where ?'a = nat] by simp
  moreover have "dropWhile isspace (dec_digits (unat r)) \<noteq> []"
    using dec_digits_correct [of "unat r"] isdigit_neq by (metis dropWhile_eq_Nil_conv list.set_sel(1))
  ultimately show ?thesis
    using scan_to_string [of "uint r"] dec_digits_correct [of "unat r"]
    by (auto simp: extract_u32_def to_string_uint)
qed

lemma new_event_sel [simp]: "evJoin (new_event j r) = j" "evRank (new_event j r) = r"
  by (simp_all add: new_event_def)

lemma event_parse_string: "event_parse e (event_string (new_event j r)) = (SM_OK, new_event j r)"
  by (cases e) (auto simp: event_parse_def event_string_def new_event_def isspace_def extract_to_string)

section \<open>Joining and leaving\<close>

definition plain_key :: "bytes \<Rightarrow> bool" where
  "plain_key k \<longleftrightarrow> k \<noteq> [] \<and> hd k \<noteq> 45 \<and> \<not> isdigit (hd k)"

lemma sn_key_not_plain: "\<not> plain_key (sn_key (to_string v) sn sfx)"
  using to_string_nonempty [of v] to_string_chars [of "hd (to_string v)" v]
  by (auto simp: plain_key_def sn_key_def)

lemma plain_keys [simp]: "plain_key SMEM_GROUP_LISTEN_EVENT_KEY" "plain_key SMEM_GROUP_DYNAMIC_SIZE_KEY"
  "SMEM_GROUP_DYNAMIC_SIZE_KEY \<noteq> SMEM_GROUP_LISTEN_EVENT_KEY" "SMEM_GROUP_LISTEN_EVENT_KEY \<noteq> SMEM_GROUP_DYNAMIC_SIZE_KEY"
  by (simp_all add: plain_key_def SMEM_GROUP_LISTEN_EVENT_KEY_def SMEM_GROUP_DYNAMIC_SIZE_KEY_def str_def isdigit_def)

text \<open>Version and size as they are stored; before the first join nothing is.\<close>

definition size_stored :: "int \<Rightarrow> int \<Rightarrow> (bytes \<rightharpoonup> bytes) \<Rightarrow> bool" where
  "size_stored v n m \<longleftrightarrow> size_range v n \<and>
     (m SMEM_GROUP_DYNAMIC_SIZE_KEY = Some (to_string (size_word v n)) \<or>
      m SMEM_GROUP_DYNAMIC_SIZE_KEY = None \<and> v = 0 \<and> n = 0)"

lemma size_stored_keep:
  "size_stored v n m \<Longrightarrow> m' SMEM_GROUP_DYNAMIC_SIZE_KEY = m SMEM_GROUP_DYNAMIC_SIZE_KEY \<Longrightarrow> size_stored v n m'"
  by (simp add: size_stored_def)

text \<open>The event key is free, or holds the event of another.\<close>

definition lockable :: "bytes \<Rightarrow> (bytes \<rightharpoonup> bytes) \<Rightarrow> bool" where
  "lockable v m \<longleftrightarrow> (case m SMEM_GROUP_LISTEN_EVENT_KEY of None \<Rightarrow> True | Some w \<Rightarrow> val_ok w \<and> w \<notin> {[], v})"

text \<open>The engine after a change of the group: version and size are new, the counters start again.\<close>

definition moved :: "int \<Rightarrow> int \<Rightarrow> SmemNetGroupEngine \<Rightarrow> SmemNetGroupEngine" where
  "moved v n g = set_rankSize (of_int n) (UpdateGroupVersion v g)"

definition callback_ok :: "(u32 \<Rightarrow> result) option \<Rightarrow> u32 \<Rightarrow> bool" where
  "callback_ok cb r \<longleftrightarrow> (case cb of None \<Rightarrow> True | Some f \<Rightarrow> f r = SM_OK)"

definition told :: "bool \<Rightarrow> (u32 \<Rightarrow> result) option \<Rightarrow> u32 \<Rightarrow> SmemNetGroupEngine \<Rightarrow> SmemNetGroupEngine" where
  "told j cb r g = (if cb = None then g else g\<lparr>notified := notified g @ [(j, r)]\<rparr>)"

lemma call_cb_told: "call_cb j cb r g = (if callback_ok cb r then SM_OK else the cb r, told j cb r g)"
  by (auto simp: call_cb_def callback_ok_def told_def split: option.split)

locale dynamic_group = kv_store +
  assumes event_good: "good SMEM_GROUP_LISTEN_EVENT_KEY"
    and size_good: "good SMEM_GROUP_DYNAMIC_SIZE_KEY"
    and sn_good: "length sfx \<le> 10 \<Longrightarrow> good (sn_key (to_string (sint (v :: 32 word))) sn sfx)"
begin

lemma add_size:
  assumes "ok s" and "size_stored v n (view s)" and "d \<in> {0, 1073741825, 1073741823}"
  obtains t where "st_add st SMEM_GROUP_DYNAMIC_SIZE_KEY d out s = Some (0, size_word v n + d, t)" and "ok t"
    and "view t = (view s)(SMEM_GROUP_DYNAMIC_SIZE_KEY \<mapsto> to_string (size_word v n + d))"
proof -
  define old where "old = (if view s SMEM_GROUP_DYNAMIC_SIZE_KEY = None then None else Some (size_word v n))"
  have "view s SMEM_GROUP_DYNAMIC_SIZE_KEY = map_option to_string old" and val: "case_option 0 id old = size_word v n"
    using assms(2) by (auto simp: size_stored_def old_def size_word_def)
  moreover have "long_range d"
    using assms(3) by (auto simp: long_range_def)
  moreover have "\<forall>m. old = Some m \<longrightarrow> long_range m \<and> long_range (m + d)"
    using size_word_long [of v n] assms(2,3) by (auto simp: size_stored_def old_def)
  ultimately have "\<exists>t. st_add st SMEM_GROUP_DYNAMIC_SIZE_KEY d out s = Some (0, case_option 0 id old + d, t) \<and> ok t \<and>
      view t = (view s)(SMEM_GROUP_DYNAMIC_SIZE_KEY \<mapsto> to_string (case_option 0 id old + d))"
    using assms(1) size_good by (intro add_law)
  then show thesis
    unfolding val by (elim exE conjE) (rule that)
qed

lemma sn_clean_keeps:
  assumes "ok s" and "length a \<le> 10" and "length b \<le> 10"
  shows "\<exists>t. sn_clean st (to_string (sint (w :: 32 word))) sn a b n i s = Some t \<and> ok t \<and> (\<forall>k. plain_key k \<longrightarrow> view t k = view s k)"
  using assms(1)
proof (induction n arbitrary: i s)
  case (Suc n)
  let ?k = "\<lambda>sfx. sn_key (to_string (sint w)) (sn - i) sfx"
  obtain s1 where s1: "st_remove st (?k a) s = Some (if view s (?k a) = None then store_code NOT_EXIST else 0, s1)" "ok s1"
    "view s1 = (view s)(?k a := None)"
    using remove_law [OF Suc.prems sn_good [OF assms(2)]] by blast
  obtain s2 where s2: "st_remove st (?k b) s1 = Some (if view s1 (?k b) = None then store_code NOT_EXIST else 0, s2)" "ok s2"
    "view s2 = (view s1)(?k b := None)"
    using remove_law [OF s1(2) sn_good [OF assms(3)]] by blast
  have "view s2 k = view s k" if "plain_key k" for k
    using that sn_key_not_plain by (auto simp: s1(3) s2(3))
  with Suc.IH [OF s2(2), of "i + 1"] Suc.prems show ?case
    by (auto simp: s1(1) s2(1))
qed simp

lemma GroupSnClean_keeps:
  assumes "ok s" and "groupVersion g = sint (w :: 32 word)"
  obtains t where "GroupSnClean st g s = Some t" and "ok t" and "\<And>k. plain_key k \<Longrightarrow> view t k = view s k"
proof -
  obtain s1 where s1: "sn_clean st (to_string (sint w)) (allGatherGroupSn g) ''_GA'' ''_GW'' 2 0 s = Some s1" "ok s1"
    "\<forall>k. plain_key k \<longrightarrow> view s1 k = view s k"
    using sn_clean_keeps [OF assms(1), of "''_GA''" "''_GW''" w "allGatherGroupSn g" 2 0] by auto
  obtain s2 where s2: "sn_clean st (to_string (sint w)) (barrierGroupSn g) ''_BA'' ''_BW'' 2 0 s1 = Some s2" "ok s2"
    "\<forall>k. plain_key k \<longrightarrow> view s2 k = view s1 k"
    using sn_clean_keeps [OF s1(2), of "''_BA''" "''_BW''" w "barrierGroupSn g" 2 0] by auto
  show thesis
    by (rule that [of s2]) (use s1 s2 in \<open>simp_all add: GroupSnClean_def assms(2)\<close>)
qed

text \<open>The lock: taken at once when the event key is free, never while another event is there.\<close>

lemma cas_event:
  assumes "ok s" and "val_ok v" and "val_ok (case_option [] id (view s SMEM_GROUP_LISTEN_EVENT_KEY))"
  obtains t where "Cas_string st SMEM_GROUP_LISTEN_EVENT_KEY [] v old s =
      Some (SM_OK, case_option [] id (view s SMEM_GROUP_LISTEN_EVENT_KEY), t)" and "ok t"
    and "view t = (if case_option [] id (view s SMEM_GROUP_LISTEN_EVENT_KEY) = []
      then (view s)(SMEM_GROUP_LISTEN_EVENT_KEY \<mapsto> v) else view s)"
proof -
  have nil: "val_ok []"
    by simp
  note law = cas_law [OF assms(1) event_good nil assms(2) refl assms(3), of "[]"]
  show thesis
    using law by (elim exE conjE) (rule that, simp_all add: Cas_string_def)
qed

lemma event_lock_free:
  assumes "ok s" and "val_ok v" and "view s SMEM_GROUP_LISTEN_EVENT_KEY = None" and "tries \<noteq> 0"
  obtains t where "event_lock st v tries old s = Some t" and "ok t" and "view t = (view s)(SMEM_GROUP_LISTEN_EVENT_KEY \<mapsto> v)"
proof -
  obtain m where tries: "tries = Suc m"
    using assms(4) not0_implies_Suc by blast
  show thesis
    by (rule cas_event [OF assms(1,2), of old])
      (use that in \<open>simp_all add: assms(3) tries\<close>)
qed

lemma event_lock_held:
  assumes "ok s" and "val_ok v" and "view s SMEM_GROUP_LISTEN_EVENT_KEY = Some w" and "val_ok w" and "w \<notin> {[], v}"
  shows "\<exists>t. event_lock st v tries old s = Some t \<and> ok t \<and> view t = view s"
  using assms(1,3)
proof (induction tries arbitrary: old s)
  case (Suc n)
  obtain t where t: "Cas_string st SMEM_GROUP_LISTEN_EVENT_KEY [] v old s = Some (SM_OK, w, t)" "ok t" "view t = view s"
    by (rule cas_event [OF Suc.prems(1) assms(2), of old]) (use Suc.prems(2) assms(4,5) in simp_all)
  have "view t SMEM_GROUP_LISTEN_EVENT_KEY = Some w"
    using t(3) Suc.prems(2) by simp
  with Suc.IH [OF t(2) this, of w] t assms(5) show ?case
    by auto
qed simp

lemma remove_event:
  assumes "ok s" and "view s SMEM_GROUP_LISTEN_EVENT_KEY \<noteq> None"
  obtains t where "st_remove st SMEM_GROUP_LISTEN_EVENT_KEY s = Some (0, t)" and "ok t"
    and "view t = (view s)(SMEM_GROUP_LISTEN_EVENT_KEY := None)"
proof -
  note law = remove_law [OF assms(1) event_good]
  show thesis
    using law by (elim exE conjE) (rule that, use assms(2) in simp_all)
qed

lemma join_body_ok:
  assumes "ok s" and "size_stored v n (view s)" and "size_range (v + 1) (n + 1)" and "groupVersion g = sint (w :: 32 word)"
    and "callback_ok (joinCb (opt g)) (rank (opt g))"
  obtains t where "join_body st tmp g s = Some (SM_OK, told True (joinCb (opt g)) (rank (opt g)) (moved (v + 1) (n + 1) g), t)" and "ok t"
    and "view t SMEM_GROUP_DYNAMIC_SIZE_KEY = Some (to_string (size_word (v + 1) (n + 1)))"
    and "view t SMEM_GROUP_LISTEN_EVENT_KEY = view s SMEM_GROUP_LISTEN_EVENT_KEY"
proof -
  have r: "size_range v n" "v < 2147483647"
    using assms(2,3) by (simp_all add: size_stored_def size_range_def)
  obtain s1 where s1: "st_add st SMEM_GROUP_DYNAMIC_SIZE_KEY 0 tmp s = Some (0, size_word v n + 0, s1)" "ok s1"
    "view s1 = (view s)(SMEM_GROUP_DYNAMIC_SIZE_KEY \<mapsto> to_string (size_word v n + 0))"
    by (rule add_size [OF assms(1,2), of 0 tmp]) simp_all
  obtain s2 where s2: "GroupSnClean st g s1 = Some s2" "ok s2" "\<And>k. plain_key k \<Longrightarrow> view s2 k = view s1 k"
    using GroupSnClean_keeps [OF s1(2) assms(4)] by blast
  have "size_stored v n (view s2)"
    using r(1) by (simp add: size_stored_def s2(3) s1(3))
  then obtain t where t: "st_add st SMEM_GROUP_DYNAMIC_SIZE_KEY 1073741825 (size_word v n) s2 =
      Some (0, size_word v n + 1073741825, t)" "ok t"
    "view t = (view s2)(SMEM_GROUP_DYNAMIC_SIZE_KEY \<mapsto> to_string (size_word v n + 1073741825))"
    using add_size [OF s2(2), of v n 1073741825 "size_word v n"] by blast
  show thesis
    by (rule that [of t])
      (use s1 s2 t r assms(5) in \<open>simp_all add: join_body_def join_delta next_version_def Split_size_word call_cb_told
        moved_def set_rankSize_def UpdateGroupVersion_def size_word_step\<close>)
qed

lemma leave_body_ok:
  assumes "ok s" and "size_stored v n (view s)" and "size_range (v + 2) (n - 1)" and "groupVersion g = sint (w :: 32 word)"
    and "callback_ok (leaveCb (opt g)) (rank (opt g))"
  obtains t where "leave_body st tmp g s =
      Some (SM_OK, UpdateGroupVersion (v + 2) (told False (leaveCb (opt g)) (rank (opt g)) g), t)" and "ok t"
    and "view t SMEM_GROUP_DYNAMIC_SIZE_KEY = Some (to_string (size_word (v + 1) (n - 1)))"
    and "view t SMEM_GROUP_LISTEN_EVENT_KEY = view s SMEM_GROUP_LISTEN_EVENT_KEY"
proof -
  let ?g = "told False (leaveCb (opt g)) (rank (opt g)) g"
  have r: "size_range (v + 1) (n - 1)" "v + 1 < 2147483647"
    using assms(2,3) by (simp_all add: size_stored_def size_range_def)
  obtain s1 where s1: "st_add st SMEM_GROUP_DYNAMIC_SIZE_KEY 1073741823 tmp s = Some (0, size_word (v + 1) (n - 1), s1)" "ok s1"
    "view s1 = (view s)(SMEM_GROUP_DYNAMIC_SIZE_KEY \<mapsto> to_string (size_word (v + 1) (n - 1)))"
    by (rule add_size [OF assms(1,2), of 1073741823 tmp]) (simp_all add: size_word_step)
  have "groupVersion ?g = sint w"
    by (simp add: told_def assms(4))
  then obtain t where t: "GroupSnClean st ?g s1 = Some t" "ok t" "\<And>k. plain_key k \<Longrightarrow> view t k = view s1 k"
    using GroupSnClean_keeps [OF s1(2)] by blast
  show thesis
    by (rule that [of t])
      (use s1 t r assms(5) in \<open>simp_all add: leave_body_def next_version_def Split_size_word call_cb_told add.commute\<close>)
qed

text \<open>The whole operations, whether the lock was free or is another's.\<close>

lemma event_lock_ends:
  assumes "ok s" and "val_ok v" and "lockable v (view s)" and "tries \<noteq> 0"
  obtains t where "event_lock st v tries old s = Some t" and "ok t" and "view t SMEM_GROUP_LISTEN_EVENT_KEY \<noteq> None"
    and "view t SMEM_GROUP_DYNAMIC_SIZE_KEY = view s SMEM_GROUP_DYNAMIC_SIZE_KEY"
proof (cases "view s SMEM_GROUP_LISTEN_EVENT_KEY")
  case None
  show thesis
    by (rule event_lock_free [OF assms(1,2) None assms(4), of old]) (use that in simp)
next
  case (Some w)
  then have "val_ok w" "w \<notin> {[], v}"
    using assms(3) by (simp_all add: lockable_def)
  from event_lock_held [OF assms(1,2) Some this, of tries old] show thesis
    by (elim exE conjE) (rule that, assumption, assumption, simp_all add: Some)
qed

lemma event_val_ok: "val_ok (str [c] @ to_string (uint (r :: 32 word)))"
  using length_to_string_uint [of r] by simp

lemma GroupJoin_ok:
  assumes "ok s" and "dynamic (opt g)" and "\<not> joined g" and "lockable (str ''J'' @ to_string (uint (rank (opt g)))) (view s)"
    and "size_stored v n (view s)" and "size_range (v + 1) (n + 1)" and "groupVersion g = sint (w :: 32 word)"
    and "callback_ok (joinCb (opt g)) (rank (opt g))"
  obtains t where "GroupJoin st tmp g s =
      Some (SM_OK, (told True (joinCb (opt g)) (rank (opt g)) (moved (v + 1) (n + 1) g))\<lparr>joined := True\<rparr>, t)" and "ok t"
    and "view t SMEM_GROUP_DYNAMIC_SIZE_KEY = Some (to_string (size_word (v + 1) (n + 1)))"
    and "view t SMEM_GROUP_LISTEN_EVENT_KEY = None"
proof -
  obtain s1 where s1: "event_lock st (str ''J'' @ to_string (uint (rank (opt g)))) 100000 [] s = Some s1" "ok s1"
    "view s1 SMEM_GROUP_LISTEN_EVENT_KEY \<noteq> None" "view s1 SMEM_GROUP_DYNAMIC_SIZE_KEY = view s SMEM_GROUP_DYNAMIC_SIZE_KEY"
    by (rule event_lock_ends [OF assms(1) event_val_ok assms(4), of 100000 "[]"]) simp_all
  obtain s2 where s2: "join_body st tmp g s1 = Some (SM_OK, told True (joinCb (opt g)) (rank (opt g)) (moved (v + 1) (n + 1) g), s2)" "ok s2"
    "view s2 SMEM_GROUP_DYNAMIC_SIZE_KEY = Some (to_string (size_word (v + 1) (n + 1)))"
    "view s2 SMEM_GROUP_LISTEN_EVENT_KEY = view s1 SMEM_GROUP_LISTEN_EVENT_KEY"
    by (rule join_body_ok [OF s1(2) size_stored_keep [where m = "view s" and m' = "view s1", OF assms(5) s1(4)] assms(6-8)])
  obtain t where "st_remove st SMEM_GROUP_LISTEN_EVENT_KEY s2 = Some (0, t)" "ok t"
    "view t = (view s2)(SMEM_GROUP_LISTEN_EVENT_KEY := None)"
    by (rule remove_event [OF s2(2)]) (use s1(3) s2(4) in simp_all)
  then show thesis
    by (intro that [of t]) (simp_all add: GroupJoin_def assms(2,3) s1(1) s2)
qed

lemma GroupLeave_ok:
  assumes "ok s" and "dynamic (opt g)" and "joined g" and "lockable (str ''L'' @ to_string (uint (rank (opt g)))) (view s)"
    and "size_stored v n (view s)" and "size_range (v + 2) (n - 1)" and "groupVersion g = sint (w :: 32 word)"
    and "callback_ok (leaveCb (opt g)) (rank (opt g))" and "w_unwatch wo (listenWatchId g) s = Some (ret, s)"
  obtains t where "GroupLeave st wo tmp g s =
      Some (SM_OK, (UpdateGroupVersion (v + 2) (told False (leaveCb (opt g)) (rank (opt g)) (g\<lparr>groupStoped := True\<rparr>)))\<lparr>joined := False\<rparr>, t)"
    and "ok t" and "view t SMEM_GROUP_DYNAMIC_SIZE_KEY = Some (to_string (size_word (v + 1) (n - 1)))"
    and "view t SMEM_GROUP_LISTEN_EVENT_KEY = None"
proof -
  let ?g = "g\<lparr>groupStoped := True\<rparr>"
  obtain s1 where s1: "event_lock st (str ''L'' @ to_string (uint (rank (opt g)))) 100000 [] s = Some s1" "ok s1"
    "view s1 SMEM_GROUP_LISTEN_EVENT_KEY \<noteq> None" "view s1 SMEM_GROUP_DYNAMIC_SIZE_KEY = view s SMEM_GROUP_DYNAMIC_SIZE_KEY"
    by (rule event_lock_ends [OF assms(1) event_val_ok assms(4), of 100000 "[]"]) simp_all
  obtain s2 where s2: "leave_body st tmp ?g s1 =
      Some (SM_OK, UpdateGroupVersion (v + 2) (told False (leaveCb (opt g)) (rank (opt g)) ?g), s2)" "ok s2"
    "view s2 SMEM_GROUP_DYNAMIC_SIZE_KEY = Some (to_string (size_word (v + 1) (n - 1)))"
    "view s2 SMEM_GROUP_LISTEN_EVENT_KEY = view s1 SMEM_GROUP_LISTEN_EVENT_KEY"
    by (rule leave_body_ok [OF s1(2) size_stored_keep [where m = "view s" and m' = "view s1", OF assms(5) s1(4)] assms(6), of ?g w tmp]) (use assms(7,8) in simp_all)
  obtain t where "st_remove st SMEM_GROUP_LISTEN_EVENT_KEY s2 = Some (0, t)" "ok t"
    "view t = (view s2)(SMEM_GROUP_LISTEN_EVENT_KEY := None)"
    by (rule remove_event [OF s2(2)]) (use s1(3) s2(4) in simp_all)
  then show thesis
    by (intro that [of t]) (simp_all add: GroupLeave_def assms(2,3,9) s1(1) s2)
qed

lemma listener_join:
  assumes "ok s" and "size_stored v n (view s)" and "size_range (v + 1) (n + 1)" and "prev \<noteq> event_string (new_event True r)"
  obtains t where "JoinLeaveEventProcess st (event_string (new_event True r)) prev g s =
      Some (event_string (new_event True r),
        told True (joinCb (opt g)) r (moved (v + 1) (n + 1) (g\<lparr>listenWatchId := UINT32_MAX\<rparr>)), t)" and "ok t"
proof -
  have r: "size_range v n" "v < 2147483647"
    using assms(2,3) by (simp_all add: size_stored_def size_range_def)
  obtain t where t: "st_add st SMEM_GROUP_DYNAMIC_SIZE_KEY 0 0 s = Some (0, size_word v n, t)" "ok t"
    by (rule add_size [OF assms(1,2), of 0 0]) simp_all
  show thesis
    by (rule that [OF _ t(2)])
      (use r assms(4) in \<open>simp_all add: JoinLeaveEventProcess_def event_parse_string next_version_def Split_size_word call_cb_told t(1)
        moved_def set_rankSize_def UpdateGroupVersion_def\<close>)
qed

lemma listener_leave:
  assumes "ok s" and "size_stored v n (view s)" and "size_range (v + 1) (n - 1)" and "prev \<noteq> event_string (new_event False r)"
  obtains t where "JoinLeaveEventProcess st (event_string (new_event False r)) prev g s =
      Some (event_string (new_event False r),
        ClearBitmapForRank r (told False (leaveCb (opt g)) r (moved (v + 1) (n - 1) (g\<lparr>listenWatchId := UINT32_MAX\<rparr>))), t)" and "ok t"
proof -
  have r: "size_range v n" "v < 2147483647"
    using assms(2,3) by (simp_all add: size_stored_def size_range_def)
  obtain t where t: "st_add st SMEM_GROUP_DYNAMIC_SIZE_KEY 0 0 s = Some (0, size_word v n, t)" "ok t"
    by (rule add_size [OF assms(1,2), of 0 0]) simp_all
  show thesis
    by (rule that [OF _ t(2)])
      (use r assms(4) in \<open>simp_all add: JoinLeaveEventProcess_def event_parse_string next_version_def Split_size_word call_cb_told t(1)
        moved_def set_rankSize_def UpdateGroupVersion_def\<close>)
qed

end

interpretation dyn: dynamic_group "member_store c dynm" "group_view dynm" server_ok "\<lambda>k. key_ok (group_prefix dynm @ k)"
proof (rule dynamic_group.intro)
  show "kv_store (member_store c dynm) (group_view dynm) server_ok (\<lambda>k. key_ok (group_prefix dynm @ k))"
    by (rule member_store_kv)
  show "dynamic_group_axioms (\<lambda>k. key_ok (group_prefix dynm @ k))"
    by (rule dynamic_group_axioms.intro)
      (auto intro!: group_key_okI sn_key_ok simp: SMEM_GROUP_LISTEN_EVENT_KEY_def SMEM_GROUP_DYNAMIC_SIZE_KEY_def)
qed

section \<open>The bitmap of joined ranks\<close>

lemma length_bitmap_of [simp]: "length (bitmap_of rs m) = length m"
  by (induction rs m rule: bitmap_of.induct) (auto simp: Let_def)

definition rank_bit :: "u64 list \<Rightarrow> u32 \<Rightarrow> bool" where
  "rank_bit m r \<longleftrightarrow> bit (m ! unat (r div 64)) (unat (r mod 64))"

lemma rank_index:
  assumes "(r :: u32) < 1024"
  shows "unat (r div 64) < 16" and "unat (r mod 64) < 64"
  using assms by (simp_all add: unat_div unat_mod word_less_nat_alt)

lemma rank_coordinates: "(r :: u32) = q \<longleftrightarrow> unat (r div 64) = unat (q div 64) \<and> unat (r mod 64) = unat (q mod 64)"
  by (metis word_mod_div_equality word_unat_eq_iff)

lemma rank_bit_update:
  assumes "r < 1024" and "q < 1024" and "length m = 16"
  shows "rank_bit (m[unat (q div 64) := m ! unat (q div 64) OR 2 ^ unat (q mod 64)]) r \<longleftrightarrow> rank_bit m r \<or> r = q"
    and "rank_bit (m[unat (q div 64) := m ! unat (q div 64) AND NOT (2 ^ unat (q mod 64))]) r \<longleftrightarrow> rank_bit m r \<and> r \<noteq> q"
  using rank_index [OF assms(1)] rank_index [OF assms(2)] assms(3)
  unfolding rank_coordinates [of r q]
  by (auto simp: rank_bit_def nth_list_update bit_or_iff bit_and_iff bit_not_iff bit_exp_iff)

lemma rank_bit_bitmap_of:
  "r < 1024 \<Longrightarrow> length m = 16 \<Longrightarrow> rank_bit (bitmap_of rs m) r \<longleftrightarrow> r \<in> set rs \<or> rank_bit m r"
  by (induction rs m rule: bitmap_of.induct) (auto simp: Let_def rank_bit_update not_le)

lemma TestBitmap_rank_bit: "TestBitmapForRank r g \<longleftrightarrow> r < 1024 \<and> rank_bit (joinedRanksBitmap g) r"
  by (auto simp: TestBitmapForRank_def bit_test rank_bit_def not_le)

text \<open>
  The bitmap is the set of joined ranks: after it was set from a list of ranks and cleared for one, a test
  finds exactly the ranks below 1024 that were in the list, without the one.
\<close>

theorem bitmap_is_rank_set:
  "TestBitmapForRank r (ClearBitmapForRank q (SetBitmapFromRanks rs g)) \<longleftrightarrow> r \<in> set rs \<and> r < 1024 \<and> r \<noteq> q"
proof -
  have zero: "\<not> rank_bit (replicate 16 0) r" if "r < 1024" for r
    using rank_index [OF that] by (simp add: rank_bit_def)
  show ?thesis
    by (auto simp: TestBitmap_rank_bit ClearBitmapForRank_def SetBitmapFromRanks_def Let_def rank_bit_update(2)
      rank_bit_bitmap_of zero not_le)
qed

section \<open>Properties of dynamic groups\<close>

text \<open>A rank that may join now: not a member yet, its callback willing, the group in a state with room for one more.\<close>

definition may_join :: "bool \<Rightarrow> int \<Rightarrow> int \<Rightarrow> SmemNetGroupEngine \<Rightarrow> 'x server \<Rightarrow> bool" where
  "may_join dynm v n g s \<longleftrightarrow> server_ok s \<and> dynamic (opt g) \<and> \<not> joined g \<and> size_stored v n (group_view dynm s) \<and>
     size_range (v + 2) (n + 1) \<and> - (2 ^ 31) \<le> groupVersion g \<and> groupVersion g < 2 ^ 31 \<and>
     callback_ok (joinCb (opt g)) (rank (opt g))"

lemma sint_word_32: "- (2 ^ 31) \<le> i \<Longrightarrow> i < 2 ^ 31 \<Longrightarrow> sint (word_of_int i :: 32 word) = i"
  by (simp add: signed_of_int signed_take_bit_int_eq_self)

lemma may_join_ok:
  assumes "may_join dynm v n g s" and "lockable (event_string (new_event True (rank (opt g)))) (group_view dynm s)"
  obtains t where "GroupJoin (member_store c dynm) tmp g s =
      Some (SM_OK, (told True (joinCb (opt g)) (rank (opt g)) (moved (v + 1) (n + 1) g))\<lparr>joined := True\<rparr>, t)" and "server_ok t"
    and "group_view dynm t SMEM_GROUP_DYNAMIC_SIZE_KEY = Some (to_string (size_word (v + 1) (n + 1)))"
    and "group_view dynm t SMEM_GROUP_LISTEN_EVENT_KEY = None"
proof -
  have g: "groupVersion g = sint (word_of_int (groupVersion g) :: 32 word)"
    using assms(1) by (simp add: may_join_def sint_word_32)
  have lock: "lockable (str ''J'' @ to_string (uint (rank (opt g)))) (group_view dynm s)"
    using assms(2) by (simp add: event_string_def str_def)
  have "size_range (v + 1) (n + 1)"
    using assms(1) by (simp add: may_join_def size_range_def size_stored_def)
  then show thesis
    using assms(1) lock dyn.GroupJoin_ok [OF _ _ _ _ _ _ g, where s = s and v = v and n = n and tmp = tmp and c = c and dynm = dynm, OF _ _ _ lock] that
    unfolding may_join_def by blast
qed


definition example_dynamic :: "u32 \<Rightarrow> SmemNetGroupEngine" where
  "example_dynamic r = new_engine \<lparr>rankSize = 2, rank = r, opTimeoutMs = 1000, dynamic = True, joinCb = None, leaveCb = None\<rparr>"

lemma example_may_join: "may_join True 0 0 (example_dynamic 5) empty_server"
  by (simp add: may_join_def empty_server_ok empty_server_empty example_dynamic_def new_engine_def size_stored_def size_range_def
    callback_ok_def)


text \<open>
  C33. Leaving undoes joining: a rank that joins and then leaves gets success twice, and afterwards the store holds the old
  size and the version two further on, with no event pending; the rank is not a member and its counters
  are reset.
\<close>

theorem join_then_leave:
  assumes "may_join dynm v n g s" and "group_view dynm s SMEM_GROUP_LISTEN_EVENT_KEY = None"
    and "size_range (v + 3) n" and "callback_ok (leaveCb (opt g)) (rank (opt g))"
    and "\<And>t. w_unwatch wo (listenWatchId g) t = Some (ret t, t)"
  shows "\<exists>g' t g'' u.
    GroupJoin (member_store c dynm) tmp g s = Some (SM_OK, g', t) \<and>
    GroupLeave (member_store c dynm) wo tmp' g' t = Some (SM_OK, g'', u) \<and>
    server_ok u \<and> size_stored (v + 2) n (group_view dynm u) \<and> group_view dynm u SMEM_GROUP_LISTEN_EVENT_KEY = None \<and>
    \<not> joined g'' \<and> groupStoped g'' \<and> barrierGroupSn g'' = 0 \<and> allGatherGroupSn g'' = 0"
proof -
  define g' where "g' = (told True (joinCb (opt g)) (rank (opt g)) (moved (v + 1) (n + 1) g))\<lparr>joined := True\<rparr>"
  have g': "dynamic (opt g')" "joined g'" "rank (opt g') = rank (opt g)" "leaveCb (opt g') = leaveCb (opt g)" "listenWatchId g' = listenWatchId g"
    "groupVersion g' = v + 1"
    using assms(1) by (simp_all add: g'_def told_def moved_def set_rankSize_def UpdateGroupVersion_def may_join_def)
  have range: "size_range (v + 1) (n + 1)" "size_range (v + 2) n"
    using assms(1,3) by (simp_all add: may_join_def size_range_def size_stored_def)
  then have ver: "groupVersion g' = sint (word_of_int (v + 1) :: 32 word)"
    unfolding g'(6) size_range_def by (intro sint_word_32 [symmetric]) simp_all
  obtain t where t: "GroupJoin (member_store c dynm) tmp g s = Some (SM_OK, g', t)" "server_ok t"
    "group_view dynm t SMEM_GROUP_DYNAMIC_SIZE_KEY = Some (to_string (size_word (v + 1) (n + 1)))"
    "group_view dynm t SMEM_GROUP_LISTEN_EVENT_KEY = None"
    unfolding g'_def by (rule may_join_ok [OF assms(1)]) (simp_all add: lockable_def assms(2))
  obtain u where u: "GroupLeave (member_store c dynm) wo tmp' g' t =
      Some (SM_OK, (UpdateGroupVersion (v + 1 + 2) (told False (leaveCb (opt g')) (rank (opt g')) (g'\<lparr>groupStoped := True\<rparr>)))\<lparr>joined := False\<rparr>, u)"
    "server_ok u" "group_view dynm u SMEM_GROUP_DYNAMIC_SIZE_KEY = Some (to_string (size_word (v + 1 + 1) (n + 1 - 1)))"
    "group_view dynm u SMEM_GROUP_LISTEN_EVENT_KEY = None"
    by (rule dyn.GroupLeave_ok [OF t(2) g'(1,2) _ _ _ ver, where v = "v + 1" and n = "n + 1" and dynm = dynm and c = c and wo = wo and tmp = tmp'])
      (use assms(3-5) t(3,4) range(1) g' in \<open>simp_all add: lockable_def size_stored_def add.commute\<close>)
  show ?thesis
    by (intro exI conjI, rule t(1), rule u(1))
      (use u(2-) range(2) in \<open>simp_all add: size_stored_def told_def UpdateGroupVersion_def add.commute\<close>)
qed

definition no_watches :: "'s watch_ops" where
  "no_watches = \<lparr>w_key = (\<lambda>_ s. Some (SM_OK, 1, s)), w_link_down = (\<lambda>s. Some (SM_OK, 2, s)), w_unwatch = (\<lambda>_ s. Some (SM_OK, s))\<rparr>"

theorem join_then_leave_witness:
  "\<exists>g' t g'' u. GroupJoin (member_store (example_conn 0) True) 0 (example_dynamic 5) empty_server = Some (SM_OK, g', t) \<and>
    GroupLeave (member_store (example_conn 0) True) no_watches 0 g' t = Some (SM_OK, g'', u) \<and>
    size_stored 2 0 (group_view True u) \<and> \<not> joined g''"
proof -
  have "size_range (0 + 3) 0" "callback_ok (leaveCb (opt (example_dynamic 5))) (rank (opt (example_dynamic 5)))"
    "\<And>t. w_unwatch no_watches (listenWatchId (example_dynamic 5)) t = Some (SM_OK, t)"
    by (simp_all add: size_range_def callback_ok_def example_dynamic_def new_engine_def no_watches_def)
  from join_then_leave [OF example_may_join empty_server_empty this, of "example_conn 0" 0 0] show ?thesis
    by auto
qed

text \<open>
  C35. The lock of a join is not exclusive: while the event of another rank is in the store, a joining rank tries to
  put its own there a hundred thousand times, never does, and then goes on as if it had; it returns success, the
  size is raised, and at the end it removes the other rank's event.
\<close>

theorem join_goes_on_without_lock:
  assumes "may_join dynm v n g s" and "group_view dynm s SMEM_GROUP_LISTEN_EVENT_KEY = Some (event_string (new_event j r))"
    and "r \<noteq> rank (opt g)"
  shows "\<exists>g' t s1. event_lock (member_store c dynm) (event_string (new_event True (rank (opt g)))) MAX_RETRY [] s = Some s1 \<and>
    group_view dynm s1 = group_view dynm s \<and>
    GroupJoin (member_store c dynm) tmp g s = Some (SM_OK, g', t) \<and> joined g' \<and>
    size_stored (v + 1) (n + 1) (group_view dynm t) \<and> group_view dynm t SMEM_GROUP_LISTEN_EVENT_KEY = None"
proof -
  let ?mine = "event_string (new_event True (rank (opt g)))" and ?other = "event_string (new_event j r)"
  have val: "val_ok ?mine" "val_ok ?other"
    using length_to_string_uint [of r] length_to_string_uint [of "rank (opt g)"] by (simp_all add: event_string_def)
  have other: "?other \<notin> {[], ?mine}"
    using assms(3) event_parse_string [of undefined j r] event_parse_string [of undefined True "rank (opt g)"]
    by (auto simp: event_string_def to_string_uint dec_digits_inject word_unat_eq_iff)
  have range: "size_range (v + 1) (n + 1)"
    using assms(1) by (simp add: may_join_def size_range_def size_stored_def)
  obtain s1 where s1: "event_lock (member_store c dynm) ?mine MAX_RETRY [] s = Some s1" "group_view dynm s1 = group_view dynm s"
    using dyn.event_lock_held [of s ?mine dynm ?other c MAX_RETRY "[]"] assms(1,2) val other by (auto simp: may_join_def)
  obtain t where "GroupJoin (member_store c dynm) tmp g s =
      Some (SM_OK, (told True (joinCb (opt g)) (rank (opt g)) (moved (v + 1) (n + 1) g))\<lparr>joined := True\<rparr>, t)"
    "group_view dynm t SMEM_GROUP_DYNAMIC_SIZE_KEY = Some (to_string (size_word (v + 1) (n + 1)))"
    "group_view dynm t SMEM_GROUP_LISTEN_EVENT_KEY = None"
    by (rule may_join_ok [OF assms(1)]) (use val other in \<open>simp_all add: lockable_def assms(2)\<close>)
  with s1 range show ?thesis
    by (auto simp: size_stored_def)
qed

theorem join_goes_on_without_lock_witness:
  "\<exists>(s :: unit server) g' t. group_view True s SMEM_GROUP_LISTEN_EVENT_KEY = Some (event_string (new_event True 7)) \<and>
    GroupJoin (member_store (example_conn 0) True) 0 (example_dynamic 5) s = Some (SM_OK, g', t) \<and>
    joined g' \<and> group_view True t SMEM_GROUP_LISTEN_EVENT_KEY = None"
proof -
  have val: "val_ok (event_string (new_event True 7))"
    using length_to_string_uint [of 7] by (simp add: event_string_def)
  obtain s :: "unit server" where s: "server_ok s"
    "group_view True s = (group_view True empty_server)(SMEM_GROUP_LISTEN_EVENT_KEY \<mapsto> event_string (new_event True 7))"
    by (rule dyn.cas_event [OF empty_server_ok val, of True "example_conn 7" "[]"]) (simp_all add: empty_server_empty)
  have "may_join True 0 0 (example_dynamic 5) s"
    using example_may_join s fun_cong [OF s(2), of SMEM_GROUP_DYNAMIC_SIZE_KEY]
    by (simp add: may_join_def size_stored_def empty_server_empty)
  moreover have ev: "group_view True s SMEM_GROUP_LISTEN_EVENT_KEY = Some (event_string (new_event True 7))"
    using fun_cong [OF s(2), of SMEM_GROUP_LISTEN_EVENT_KEY] by simp
  moreover have "7 \<noteq> rank (opt (example_dynamic 5))"
    by (simp add: example_dynamic_def new_engine_def)
  ultimately show ?thesis
    using join_goes_on_without_lock [of True 0 0 "example_dynamic 5" s True 7 "example_conn 0" 0] by blast
qed

text \<open>
  An event is recognised exactly: \<open>JoinLeaveEventValue\<close> accepts a text if and only if it is what some event is
  written as, and then it reads back that very event.
\<close>

theorem event_text_roundtrip:
  "fst (event_parse e text) = SM_OK \<longleftrightarrow> (\<exists>j r. text = event_string (new_event j r) \<and> event_parse e text = (SM_OK, new_event j r))"
proof
  assume "fst (event_parse e text) = SM_OK"
  then have "event_string (snd (event_parse e text)) = text"
    by (auto simp: event_parse_def Let_def split: if_splits)
  then have "text = event_string (new_event (evJoin (snd (event_parse e text))) (evRank (snd (event_parse e text))))"
    by (simp add: event_string_def)
  then show "\<exists>j r. text = event_string (new_event j r) \<and> event_parse e text = (SM_OK, new_event j r)"
    using event_parse_string by metis
qed auto

end
