(* ===== verification/Task_Stream.thy ===== *)
theory Task_Stream
  imports Hybm_Types Containers
begin


text \<open>
  The task streams of \<^verbatim>\<open>src/hybm/csrc/ts_engine\<close>: the queue entries, the stream with its ring of 2048
  tasks, the notify object and the table of the streams of all threads.

  The driver behind \<open>DlHalApi\<close> is the parameter \<open>'d hal\<close>: one function per driver call, with the fields
  of the argument structures that the source sets, on a device state. Logging and tracing are left out,
  sleeps and the task counter that nothing reads have no counterpart.
\<close>

section \<open>Queue entries\<close>

abbreviation (input) RT_STARS_SQE_TYPE_NOTIFY_WAIT :: "6 word" where "RT_STARS_SQE_TYPE_NOTIFY_WAIT \<equiv> 7"
abbreviation (input) RT_STARS_SQE_TYPE_SDMA :: "6 word" where "RT_STARS_SQE_TYPE_SDMA \<equiv> 11"
abbreviation (input) RT_STARS_DEFAULT_KERNEL_CREDIT :: byte where "RT_STARS_DEFAULT_KERNEL_CREDIT \<equiv> 254"
abbreviation (input) RT_STARS_NEVER_TIMEOUT_KERNEL_CREDIT :: byte where "RT_STARS_NEVER_TIMEOUT_KERNEL_CREDIT \<equiv> 255"
abbreviation (input) HYBM_SQCQ_DEPTH :: u32 where "HYBM_SQCQ_DEPTH \<equiv> 2048"
abbreviation (input) UINT32_MAX :: u32 where "UINT32_MAX \<equiv> 4294967295"
abbreviation (input) UINT16_MAX :: u32 where "UINT16_MAX \<equiv> 65535"
abbreviation (input) RT_MILAN_MAX_QUERY_CQE_NUM :: u32 where "RT_MILAN_MAX_QUERY_CQE_NUM \<equiv> 32"
abbreviation (input) TASK_WAIT_TIME_OUT :: u32 where "TASK_WAIT_TIME_OUT \<equiv> 5"

text \<open>The first constructor is the value 0, which a value-initialised task has.\<close>

datatype StreamTaskType = STREAM_TASK_TYPE_ZERO | STREAM_TASK_TYPE_SDMA | STREAM_TASK_TYPE_RDMA | STREAM_TASK_TYPE_NOTIFY

record rtStarsSqeHeader_t =
  hType :: "6 word"
  l1_lock :: "1 word"
  l1_unlock :: "1 word"
  ie :: "2 word"
  pre_p :: "2 word"
  post_p :: "2 word"
  wr_cqe :: "1 word"
  hReserved :: "1 word"
  block_dim :: u16
  rt_stream_id :: u16
  task_id :: u16

record rtStarsMemcpyAsyncSqe_t =
  mHeader :: rtStarsSqeHeader_t
  mRes3 :: u32
  mRes4 :: u16
  kernelCredit :: byte
  ptrMode :: "1 word"
  mRes5 :: "7 word"
  opcode :: byte
  ie2 :: "1 word"
  sssv :: "1 word"
  dssv :: "1 word"
  sns :: "1 word"
  dns :: "1 word"
  qos :: "4 word"
  sro :: "1 word"
  dro :: "1 word"
  partid :: byte
  mpam :: "1 word"
  d2dOffsetFlag :: "1 word"
  mRes6 :: "3 word"
  src_streamid :: u16
  src_sub_streamid :: u16
  dst_streamid :: u16
  dstSubStreamId :: u16
  mLength :: u32
  src_addr_low :: u32
  src_addr_high :: u32
  dst_addr_low :: u32
  dst_addr_high :: u32
  srcOffsetLow :: u32
  dstOffsetLow :: u32
  srcOffsetHigh :: u16
  dstOffsetHigh :: u16
  resLast :: u32

record rtStarsNotifySqe_t =
  nHeader :: rtStarsSqeHeader_t
  notify_id :: "13 word"
  nRes2 :: "19 word"
  nRes3 :: u16
  nKernel_credit :: byte
  nRes4 :: byte
  nTimeout :: u32
  nRes5 :: "u32 list"

text \<open>
  The union, by the member that was written; the third member, \<open>writeValueSqe\<close>, is never used. All
  members start with the header.
\<close>

datatype rtStarsSqe_t = memcpyAsyncSqe rtStarsMemcpyAsyncSqe_t | notifySqe rtStarsNotifySqe_t

record StreamTask =
  taskType :: StreamTaskType
  sqe :: rtStarsSqe_t

definition zero_header :: rtStarsSqeHeader_t where
  "zero_header = \<lparr>hType = 0, l1_lock = 0, l1_unlock = 0, ie = 0, pre_p = 0, post_p = 0, wr_cqe = 0, hReserved = 0,
     block_dim = 0, rt_stream_id = 0, task_id = 0\<rparr>"

definition zero_notify :: rtStarsNotifySqe_t where
  "zero_notify = \<lparr>nHeader = zero_header, notify_id = 0, nRes2 = 0, nRes3 = 0, nKernel_credit = 0, nRes4 = 0, nTimeout = 0,
     nRes5 = replicate 11 0\<rparr>"

definition zero_memcpy :: rtStarsMemcpyAsyncSqe_t where
  "zero_memcpy = \<lparr>mHeader = zero_header, mRes3 = 0, mRes4 = 0, kernelCredit = 0, ptrMode = 0, mRes5 = 0, opcode = 0,
     ie2 = 0, sssv = 0, dssv = 0, sns = 0, dns = 0, qos = 0, sro = 0, dro = 0, partid = 0, mpam = 0, d2dOffsetFlag = 0,
     mRes6 = 0, src_streamid = 0, src_sub_streamid = 0, dst_streamid = 0, dstSubStreamId = 0, mLength = 0,
     src_addr_low = 0, src_addr_high = 0, dst_addr_low = 0, dst_addr_high = 0, srcOffsetLow = 0, dstOffsetLow = 0,
     srcOffsetHigh = 0, dstOffsetHigh = 0, resLast = 0\<rparr>"

definition no_task :: StreamTask where
  "no_task = \<lparr>taskType = STREAM_TASK_TYPE_ZERO, sqe = memcpyAsyncSqe zero_memcpy\<rparr>"

fun set_task_id :: "u32 \<Rightarrow> rtStarsSqe_t \<Rightarrow> rtStarsSqe_t" where
  "set_task_id i (memcpyAsyncSqe m) = memcpyAsyncSqe (m\<lparr>mHeader := (mHeader m)\<lparr>task_id := ucast i\<rparr>\<rparr>)"
| "set_task_id i (notifySqe n) = notifySqe (n\<lparr>nHeader := (nHeader n)\<lparr>task_id := ucast i\<rparr>\<rparr>)"

section \<open>The driver\<close>

datatype drvSqCqType_t = DRV_NORMAL_TYPE | DRV_LOGIC_TYPE
datatype drvIdType_t = DRV_STREAM_ID | DRV_NOTIFY_ID
datatype drvSqCqPropType_t = DRV_SQCQ_PROP_SQ_HEAD | DRV_SQCQ_PROP_SQ_CQE_STATUS

record halSqCqInputInfo =
  iType :: drvSqCqType_t
  iTsId :: u32
  sqeSize :: u32
  cqeSize :: u32
  sqeDepth :: u32
  cqeDepth :: u32
  iFlag :: u32
  iCqId :: u32
  iInfo :: "u32 list"

record halSqCqOutputInfo =
  oSqId :: u32
  oCqId :: u32

record rtLogicCqReport_t =
  repStreamId :: u16
  repTaskId :: u16
  repErrorCode :: u32
  repErrorType :: byte
  repSqeType :: byte

record 'd hal =
  HalResourceIdAlloc :: "u32 \<Rightarrow> drvIdType_t \<Rightarrow> u32 \<Rightarrow> 'd \<Rightarrow> result \<times> u32 \<times> 'd"
  HalResourceIdFree :: "u32 \<Rightarrow> drvIdType_t \<Rightarrow> u32 \<Rightarrow> u32 \<Rightarrow> 'd \<Rightarrow> result \<times> 'd"
  HalResourceConfig :: "u32 \<Rightarrow> u32 \<Rightarrow> u32 \<Rightarrow> u32 \<Rightarrow> 'd \<Rightarrow> result \<times> 'd"
  HalSqCqAllocate :: "u32 \<Rightarrow> halSqCqInputInfo \<Rightarrow> 'd \<Rightarrow> result \<times> halSqCqOutputInfo \<times> 'd"
  HalSqCqFree :: "u32 \<Rightarrow> drvSqCqType_t \<Rightarrow> u32 \<Rightarrow> u32 \<Rightarrow> u32 \<Rightarrow> 'd \<Rightarrow> result \<times> 'd"
  HalSqTaskSend :: "u32 \<Rightarrow> u32 \<Rightarrow> u32 \<Rightarrow> rtStarsSqe_t \<Rightarrow> 'd \<Rightarrow> result \<times> 'd"
  HalSqCqQuery :: "u32 \<Rightarrow> u32 \<Rightarrow> u32 \<Rightarrow> drvSqCqPropType_t \<Rightarrow> 'd \<Rightarrow> result \<times> u32 \<times> 'd"
  HalCqReportRecv :: "u32 \<Rightarrow> u32 \<Rightarrow> u32 \<Rightarrow> u32 \<Rightarrow> 'd \<Rightarrow> result \<times> u32 \<times> rtLogicCqReport_t list \<times> 'd"
  DrvNotifyIdAddrOffset :: "u32 \<Rightarrow> u32 \<Rightarrow> u32 \<Rightarrow> 'd \<Rightarrow> result \<times> u64 \<times> 'd"
  gettid :: "'d \<Rightarrow> int"

section \<open>The stream\<close>

record HybmStream =
  deviceId :: u32
  prio :: u32
  flags :: u32
  tsId :: u32
  sqId :: u32
  cqId :: u32
  logicCq :: u32
  streamId :: u32
  sqHead :: u32
  sqTail :: u32
  taskList :: "StreamTask list"
  wqeFlag :: bool
  inited :: bool

definition new_stream :: "u32 \<Rightarrow> u32 \<Rightarrow> u32 \<Rightarrow> HybmStream" where
  "new_stream dev pr fl = \<lparr>deviceId = dev, prio = pr, flags = fl, tsId = UINT32_MAX, sqId = 0, cqId = 0, logicCq = 0,
     streamId = UINT32_MAX, sqHead = 0, sqTail = 0, taskList = [], wqeFlag = False, inited = False\<rparr>"

definition AllocStreamId :: "'d hal \<Rightarrow> HybmStream \<Rightarrow> 'd \<Rightarrow> result \<times> HybmStream \<times> 'd" where
  "AllocStreamId h s d =
     (if streamId s \<noteq> UINT32_MAX then (BM_OK, s, d)
      else let (ret, resId, d) = HalResourceIdAlloc h (deviceId s) DRV_STREAM_ID (tsId s) d
      in if ret \<noteq> 0 then (BM_ERROR, s, d) else (BM_OK, s\<lparr>streamId := resId\<rparr>, d))"

text \<open>The array \<open>info\<close> is filled through \<open>StreamAllocInfo\<close>; of its third word only the bit \<open>satMode\<close> is set.\<close>

definition AllocSqcq :: "'d hal \<Rightarrow> HybmStream \<Rightarrow> 'd \<Rightarrow> result \<times> HybmStream \<times> 'd" where
  "AllocSqcq h s d =
     (let input = \<lparr>iType = DRV_NORMAL_TYPE, iTsId = tsId s, sqeSize = 64, cqeSize = 12, sqeDepth = HYBM_SQCQ_DEPTH,
            cqeDepth = HYBM_SQCQ_DEPTH, iFlag = flags s, iCqId = 0, iInfo = [streamId s, 0, 2, 1, UINT32_MAX]\<rparr>;
          (ret, out, d) = HalSqCqAllocate h (deviceId s) input d
      in if ret \<noteq> 0 then (ret, s, d) else (BM_OK, s\<lparr>sqId := oSqId out, cqId := oCqId out\<rparr>, d))"

definition AllocLogicCq :: "'d hal \<Rightarrow> HybmStream \<Rightarrow> 'd \<Rightarrow> result \<times> HybmStream \<times> 'd" where
  "AllocLogicCq h s d =
     (let realTid = gettid h d in
      if realTid < 0 then (BM_ERROR, s, d)
      else let input = \<lparr>iType = DRV_LOGIC_TYPE, iTsId = tsId s, sqeSize = 0, cqeSize = 32, sqeDepth = 0,
                 cqeDepth = 4096, iFlag = 0, iCqId = 65535, iInfo = [streamId s, of_int realTid, 0, 0, 0]\<rparr>;
               (ret, out, d) = HalSqCqAllocate h (deviceId s) input d
      in if ret \<noteq> 0 then (ret, s, d)
         else let s = s\<lparr>logicCq := oCqId out\<rparr>;
                  (ret, d) = HalResourceConfig h (deviceId s) (tsId s) (streamId s) (logicCq s) d
         in if ret \<noteq> 0 then
              (ret, s, snd (HalSqCqFree h (deviceId s) DRV_LOGIC_TYPE (tsId s) (oSqId out) (oCqId out) d))
            else (BM_OK, s, d))"

definition resized :: "StreamTask list \<Rightarrow> StreamTask list" where
  "resized ts = take 2048 ts @ replicate (2048 - length ts) no_task"

definition Initialize :: "'d hal \<Rightarrow> HybmStream \<Rightarrow> 'd \<Rightarrow> result \<times> HybmStream \<times> 'd" where
  "Initialize h s d =
     (let (ret, s, d) = AllocStreamId h (s\<lparr>tsId := 0\<rparr>) d in
      if ret \<noteq> 0 then (ret, s, d)
      else let (ret, s, d) = AllocSqcq h s d in
      if ret \<noteq> 0 then (ret, s, d)
      else let (ret, s, d) = AllocLogicCq h s d in
      if ret \<noteq> 0 then (ret, s, d)
      else (BM_OK, s\<lparr>taskList := resized (taskList s), inited := True\<rparr>, d))"

definition Destroy :: "'d hal \<Rightarrow> HybmStream \<Rightarrow> 'd \<Rightarrow> HybmStream \<times> 'd" where
  "Destroy h s d =
     (if \<not> inited s then (s, d)
      else let (ret, d) = HalSqCqFree h (deviceId s) DRV_NORMAL_TYPE (tsId s) (sqId s) (cqId s) d in
      if ret \<noteq> 0 then (s, d)
      else let (ret, d) = HalResourceIdFree h (deviceId s) DRV_STREAM_ID (tsId s) (streamId s) d in
      if ret \<noteq> 0 then (s, d)
      else (s\<lparr>tsId := UINT32_MAX, sqId := 0, cqId := 0, streamId := UINT32_MAX, inited := False\<rparr>, d))"

definition TaskInRange :: "HybmStream \<Rightarrow> u32 \<Rightarrow> bool" where
  "TaskInRange s task \<longleftrightarrow> task = UINT32_MAX \<or>
     (if sqHead s \<le> sqTail s then sqHead s \<le> task \<and> task < sqTail s else sqHead s \<le> task \<or> task < sqTail s)"

definition GetCqeStatus :: "'d hal \<Rightarrow> HybmStream \<Rightarrow> 'd \<Rightarrow> bool \<times> 'd" where
  "GetCqeStatus h s d =
     (let (ret, v, d) = HalSqCqQuery h (deviceId s) (tsId s) (sqId s) DRV_SQCQ_PROP_SQ_CQE_STATUS d
      in (ret = 0 \<and> v \<noteq> 0, d))"

definition GetSqHead :: "'d hal \<Rightarrow> HybmStream \<Rightarrow> u32 \<Rightarrow> 'd \<Rightarrow> result \<times> u32 \<times> 'd" where
  "GetSqHead h s head d =
     (let (ret, v, d) = HalSqCqQuery h (deviceId s) (tsId s) (sqId s) DRV_SQCQ_PROP_SQ_HEAD d
      in if ret \<noteq> 0 then (BM_ERROR, head, d)
         else let head = ucast (ucast v :: u16) in (if head \<noteq> 0xffff then BM_OK else BM_ERROR, head, d))"

text \<open>
  The reports of one call, up to the announced number; the printed entry of a failed task is looked up in the
  ring by the reported number.
\<close>

definition no_report :: rtLogicCqReport_t where
  "no_report = \<lparr>repStreamId = 0, repTaskId = 0, repErrorCode = 0, repErrorType = 0, repSqeType = 0\<rparr>"

fun read_reports :: "HybmStream \<Rightarrow> rtLogicCqReport_t list \<Rightarrow> u32 \<Rightarrow> result \<Rightarrow> (u32 \<times> result) cpp" where
  "read_reports s [] lastTask retFlag = Some (lastTask, retFlag)"
| "read_reports s (r # rs) lastTask retFlag =
     (if repErrorCode r \<noteq> 0 then
        (if unat (repTaskId r) < length (taskList s) then read_reports s rs (ucast (repTaskId r)) BM_ERROR else None)
      else read_reports s rs (ucast (repTaskId r)) retFlag)"

partial_function (option) receive_loop ::
    "'d hal \<Rightarrow> HybmStream \<Rightarrow> u32 \<Rightarrow> result \<Rightarrow> 'd \<Rightarrow> (result \<times> u32 \<times> 'd) cpp" where
  "receive_loop h s lastTask retFlag d =
     (let (ret, num, reports, d) = HalCqReportRecv h (deviceId s) (tsId s) (logicCq s) (streamId s) d in
      if ret \<noteq> 0 then Some (BM_DL_FUNCTION_FAILED, lastTask, d)
      else if num > RT_MILAN_MAX_QUERY_CQE_NUM then Some (BM_INVALID_PARAM, lastTask, d)
      else Option.bind (read_reports s (take (unat num) (reports @ replicate 32 no_report)) lastTask retFlag) (\<lambda>(lastTask, retFlag).
        if num = 0 then Some (retFlag, lastTask, d) else receive_loop h s lastTask retFlag d))"

definition ReceiveCqe :: "'d hal \<Rightarrow> HybmStream \<Rightarrow> u32 \<Rightarrow> 'd \<Rightarrow> (result \<times> u32 \<times> 'd) cpp" where
  "ReceiveCqe h s lastTask d = receive_loop h s lastTask BM_OK d"

text \<open>The inner loop, which ends when the head is reached.\<close>

partial_function (option) advance :: "u32 \<Rightarrow> HybmStream \<Rightarrow> HybmStream cpp" where
  "advance head s =
     (if sqHead s \<noteq> head then advance head (s\<lparr>sqHead := (sqHead s + 1) mod HYBM_SQCQ_DEPTH\<rparr>) else Some s)"

abbreviation (input) SYNC_MAX_RETRY :: nat where "SYNC_MAX_RETRY \<equiv> 1000000"

text \<open>The loop of \<open>Synchronize\<close>, with the tries that are left.\<close>

definition sync_body :: "'d hal \<Rightarrow> HybmStream \<Rightarrow> 'd \<Rightarrow> ((result + result) \<times> HybmStream \<times> 'd) cpp" where
  "sync_body h s d =
     (let (ret, head, d) = GetSqHead h s UINT16_MAX d in
      if ret \<noteq> 0 then Some (Inl ret, s, d)
      else if \<not> head < HYBM_SQCQ_DEPTH then Some (Inl BM_ERROR, s, d)
      else let (cqe, d) = GetCqeStatus h s d in
      if \<not> cqe then Option.bind (advance head s) (\<lambda>s. Some (Inr ret, s, d))
      else Option.bind (ReceiveCqe h s UINT16_MAX d) (\<lambda>(ret, lastTask, d).
        let s = (if lastTask \<noteq> UINT16_MAX then s\<lparr>sqHead := (lastTask + 1) mod HYBM_SQCQ_DEPTH\<rparr> else s)
        in Some (if ret \<noteq> 0 then Inl ret else Inr ret, s, d)))"

fun sync_loop :: "'d hal \<Rightarrow> u32 \<Rightarrow> nat \<Rightarrow> result \<Rightarrow> HybmStream \<Rightarrow> 'd \<Rightarrow> (result \<times> HybmStream \<times> 'd) cpp" where
  "sync_loop h task 0 ret s d = Some (BM_TIMEOUT, s, d)"
| "sync_loop h task (Suc tries) ret s d =
     (if sqHead s \<noteq> sqTail s \<and> TaskInRange s task then
        Option.bind (sync_body h s d) (\<lambda>(r, s, d).
          case r of Inl ret \<Rightarrow> Some (ret, s, d) | Inr ret \<Rightarrow> sync_loop h task tries ret s d)
      else Some (ret, s, d))"

definition Synchronize :: "'d hal \<Rightarrow> u32 \<Rightarrow> HybmStream \<Rightarrow> 'd \<Rightarrow> (result \<times> HybmStream \<times> 'd) cpp" where
  "Synchronize h task s d =
     (if \<not> inited s then Some (BM_NOT_INITIALIZED, s, d) else sync_loop h task SYNC_MAX_RETRY BM_OK s d)"

definition SubmitTasks :: "'d hal \<Rightarrow> StreamTask \<Rightarrow> HybmStream \<Rightarrow> 'd \<Rightarrow> (result \<times> HybmStream \<times> 'd) cpp" where
  "SubmitTasks h tasks s d =
     (if \<not> inited s then Some (BM_NOT_INITIALIZED, s, d)
      else Option.bind (if (sqTail s + 40) mod HYBM_SQCQ_DEPTH = sqHead s then Synchronize h (sqHead s) s d
                        else Some (BM_OK, s, d)) (\<lambda>(ret, s, d).
        if ret \<noteq> BM_OK then Some (BM_ERROR, s, d)
        else if (sqTail s + 1) mod HYBM_SQCQ_DEPTH = sqHead s then Some (BM_NOT_INITIALIZED, s, d)
        else if length (taskList s) \<le> unat (sqTail s) then None
        else
          let taskId = sqTail s;
              entry = tasks\<lparr>sqe := set_task_id taskId (sqe tasks)\<rparr>;
              s = s\<lparr>sqTail := (sqTail s + 1) mod HYBM_SQCQ_DEPTH, taskList := (taskList s)[unat taskId := entry]\<rparr>;
              (ret, d) = HalSqTaskSend h (deviceId s) (tsId s) (sqId s) (sqe entry) d
          in Some (if ret \<noteq> 0 then BM_DL_FUNCTION_FAILED else BM_OK, s, d)))"

section \<open>Notify\<close>

record HybmStreamNotify =
  notifyid :: u32
  noffset :: u64

definition NotifyIdAlloc :: "'d hal \<Rightarrow> u32 \<Rightarrow> u32 \<Rightarrow> u32 \<Rightarrow> 'd \<Rightarrow> result \<times> u32 \<times> 'd" where
  "NotifyIdAlloc h devId ts notifyId d =
     (let (ret, resId, d) = HalResourceIdAlloc h devId DRV_NOTIFY_ID ts d
      in if ret \<noteq> 0 then (BM_ERROR, notifyId, d) else (BM_OK, resId, d))"

definition notify_Init :: "'d hal \<Rightarrow> HybmStream option \<Rightarrow> HybmStreamNotify \<Rightarrow> 'd \<Rightarrow> result \<times> HybmStreamNotify \<times> 'd" where
  "notify_Init h stream n d =
     (case stream of None \<Rightarrow> (BM_ERROR, n, d)
      | Some s \<Rightarrow>
          let (ret, nid, d) = NotifyIdAlloc h (deviceId s) (tsId s) (notifyid n) d; n = n\<lparr>notifyid := nid\<rparr> in
          if ret \<noteq> 0 then (ret, n, d)
          else let (ret, off, d) = DrvNotifyIdAddrOffset h (deviceId s) (tsId s) (notifyid n) d in
          if ret \<noteq> 0 then (ret, n, d) else (BM_OK, n\<lparr>noffset := off\<rparr>, d))"

definition wait_task :: "HybmStreamNotify \<Rightarrow> HybmStream \<Rightarrow> StreamTask" where
  "wait_task n s = \<lparr>taskType = STREAM_TASK_TYPE_NOTIFY, sqe = notifySqe (zero_notify\<lparr>
     nHeader := zero_header\<lparr>hType := RT_STARS_SQE_TYPE_NOTIFY_WAIT, wr_cqe := of_bool (wqeFlag s), rt_stream_id := ucast (streamId s)\<rparr>,
     nKernel_credit := RT_STARS_NEVER_TIMEOUT_KERNEL_CREDIT, notify_id := ucast (notifyid n), nTimeout := TASK_WAIT_TIME_OUT\<rparr>)\<rparr>"

definition notify_Wait :: "'d hal \<Rightarrow> HybmStreamNotify \<Rightarrow> HybmStream \<Rightarrow> 'd \<Rightarrow> (result \<times> HybmStream \<times> 'd) cpp" where
  "notify_Wait h n s d = do {
     (ret, s, d) \<leftarrow> SubmitTasks h (wait_task n s) s d;
     if ret \<noteq> 0 then Some (ret, s, d) else Synchronize h UINT32_MAX s d
   }"

section \<open>The streams of all threads\<close>

text \<open>A pointer to a stream is the thread it belongs to. The second look under the exclusive lock finds what the first did.\<close>

definition GetThreadHybmStream ::
    "'d hal \<Rightarrow> int \<Rightarrow> u32 \<Rightarrow> (int \<times> HybmStream) list \<Rightarrow> 'd \<Rightarrow> int option \<times> (int \<times> HybmStream) list \<times> 'd" where
  "GetThreadHybmStream h thisId devId streams d =
     (if map_of streams thisId \<noteq> None then (Some thisId, streams, d)
      else let (ret, s, d) = Initialize h (new_stream devId 0 0) d
      in if ret \<noteq> BM_OK then (None, streams, snd (Destroy h s d))
         else (Some thisId, um_set thisId s streams, d))"

definition DestroyAllThreadHybmStream :: "'d hal \<Rightarrow> (int \<times> HybmStream) list \<Rightarrow> 'd \<Rightarrow> (int \<times> HybmStream) list \<times> 'd" where
  "DestroyAllThreadHybmStream h streams d = ([], fold (\<lambda>(_, s) d. snd (Destroy h s d)) streams d)"

end
