(* ===== verification/Task_Stream_Properties.thy ===== *)
theory Task_Stream_Properties
  imports Task_Stream
begin

text \<open>
  What the streams guarantee: the indices stay in the ring whatever the driver answers; over a driver that counts tasks
  properly no task is overwritten before it is finished and the stream never fills up; waiting ends with
  everything finished.
\<close>

section \<open>Arithmetic of the ring\<close>

definition slot :: "nat \<Rightarrow> u32" where
  "slot k = of_nat (k mod 2048)"

lemma unat_slot [simp]: "unat (slot k) = k mod 2048"
proof -
  have "k mod 2048 < 2048"
    by simp
  then have "k mod 2048 < 2 ^ 32"
    by (rule less_trans) simp
  then show ?thesis
    unfolding slot_def by (simp add: unsigned_of_nat take_bit_nat_eq_self)
qed

lemma slot_less [simp]: "slot k < 2048"
  by (simp add: word_less_nat_alt)

lemma slot_eq_iff: "slot j = slot k \<longleftrightarrow> j mod 2048 = k mod 2048"
  by (simp add: word_unat_eq_iff)

lemma unat_plus_mod:
  assumes "(w :: u32) < 2048" and "unat a < 2048"
  shows "unat ((w + a) mod 2048) = (unat w + unat a) mod 2048"
proof -
  have "unat (w + a) = unat w + unat a"
    using assms by (subst unat_add_lem [symmetric]) (simp add: word_less_nat_alt)
  then show ?thesis
    by (simp add: unat_mod)
qed

lemma slot_add: "unat a < 2048 \<Longrightarrow> (slot k + a) mod 2048 = slot (k + unat a)"
  by (simp add: word_unat_eq_iff unat_plus_mod mod_add_left_eq)

lemma slot_Suc: "(slot k + 1) mod 2048 = slot (Suc k)"
  using slot_add [of 1 k] by simp

lemma slot_unat: "w < 2048 \<Longrightarrow> slot (unat w) = w"
  by (simp add: word_unat_eq_iff word_less_nat_alt)

lemma slot_apart: "j < k \<Longrightarrow> k < j + 2048 \<Longrightarrow> slot j \<noteq> slot k"
proof (simp add: slot_eq_iff, rule notI)
  assume "j < k" "k < j + 2048" "j mod 2048 = k mod 2048"
  then have "2048 dvd k - j"
    using mod_eq_dvd_iff_nat [of j k 2048] by simp
  with \<open>j < k\<close> \<open>k < j + 2048\<close> show False
    by (auto dest: dvd_imp_le)
qed

text \<open>The inner loop reaches every place of the ring.\<close>

lemma advance_slot: "sqHead s = slot j \<Longrightarrow> advance (slot (j + n)) s = Some (s\<lparr>sqHead := slot (j + n)\<rparr>)"
proof (induction n arbitrary: j s)
  case 0
  then show ?case
    by (subst advance.simps) simp
next
  case (Suc n)
  show ?case
  proof (cases "slot j = slot (j + Suc n)")
    case True
    then show ?thesis
      using Suc.prems by (subst advance.simps) simp
  next
    case False
    then show ?thesis
      using Suc.prems Suc.IH [of "s\<lparr>sqHead := slot (Suc j)\<rparr>" "Suc j"]
      by (subst advance.simps) (simp add: slot_Suc)
  qed
qed

lemma advance_total:
  assumes "head < 2048" and "sqHead s < 2048"
  shows "advance head s = Some (s\<lparr>sqHead := head\<rparr>)"
proof -
  have "slot (unat (sqHead s) + (unat head + 2048 - unat (sqHead s))) = slot (unat head)"
    using assms(2) by (simp add: slot_eq_iff word_less_nat_alt)
  then show ?thesis
    using advance_slot [of s "unat (sqHead s)" "unat head + 2048 - unat (sqHead s)"]
      slot_unat [OF assms(1)] slot_unat [OF assms(2)] by simp
qed

section \<open>Indices stay in the ring\<close>

definition ring_ok :: "HybmStream \<Rightarrow> bool" where
  "ring_ok s \<longleftrightarrow> sqHead s < 2048 \<and> sqTail s < 2048 \<and> (inited s \<longrightarrow> length (taskList s) = 2048)"

lemma mod_ring_less: "(w :: u32) mod 2048 < 2048"
  by (simp add: word_mod_less_divisor)

lemma sync_body_ring: "sync_body h s d = Some (r, s', d') \<Longrightarrow> ring_ok s \<Longrightarrow> ring_ok s'"
  by (auto simp: sync_body_def ring_ok_def mod_ring_less advance_total bind_eq_Some_conv Let_def split: prod.splits if_splits)

lemma sync_loop_ring: "sync_loop h task n ret s d = Some (r, s', d') \<Longrightarrow> ring_ok s \<Longrightarrow> ring_ok s'"
proof (induction n arbitrary: ret s d)
  case (Suc n)
  show ?case
  proof (cases "sqHead s \<noteq> sqTail s \<and> TaskInRange s task")
    case True
    then obtain a s1 d1 where "sync_body h s d = Some (a, s1, d1)"
      using Suc.prems(1) by (auto simp: bind_eq_Some_conv)
    with True Suc show ?thesis
      by (cases a) (auto dest: sync_body_ring)
  qed (use Suc.prems in \<open>auto split: if_splits\<close>)
qed simp

lemma Synchronize_ring: "Synchronize h task s d = Some (r, s', d') \<Longrightarrow> ring_ok s \<Longrightarrow> ring_ok s'"
  by (auto simp: Synchronize_def split: if_splits dest: sync_loop_ring)

lemma SubmitTasks_ring:
  assumes "SubmitTasks h t s d = Some (r, s', d')" and "ring_ok s"
  shows "ring_ok s'"
proof (cases "inited s")
  case True
  then obtain r1 s1 d1 where s1: "(if (sqTail s + 40) mod 2048 = sqHead s then Synchronize h (sqHead s) s d else Some (BM_OK, s, d)) = Some (r1, s1, d1)"
    "ring_ok s1"
    using assms by (auto simp: SubmitTasks_def bind_eq_Some_conv split: if_splits dest: Synchronize_ring)
  show ?thesis
    using assms(1) True s1(2) unfolding SubmitTasks_def s1(1)
    by (auto simp: ring_ok_def mod_ring_less Let_def split: if_splits prod.splits)
qed (use assms in \<open>simp add: SubmitTasks_def\<close>)

lemma alloc_ring:
  "AllocStreamId h s d = (r, s', d') \<Longrightarrow> ring_ok s \<Longrightarrow> ring_ok s'"
  "AllocSqcq h s d = (r, s', d') \<Longrightarrow> ring_ok s \<Longrightarrow> ring_ok s'"
  "AllocLogicCq h s d = (r, s', d') \<Longrightarrow> ring_ok s \<Longrightarrow> ring_ok s'"
  by (auto simp: AllocStreamId_def AllocSqcq_def AllocLogicCq_def ring_ok_def Let_def split: if_splits prod.splits)

lemma Initialize_ring: "Initialize h s d = (r, s', d') \<Longrightarrow> ring_ok s \<Longrightarrow> ring_ok s'"
  by (auto simp: Initialize_def Let_def split: if_splits prod.splits dest!: alloc_ring)
    (auto simp: ring_ok_def resized_def)

text \<open>Any sequence of operations on a stream.\<close>

datatype stream_op = OpInitialize | OpSubmit StreamTask | OpSynchronize u32 | OpDestroy

fun stream_exec :: "'d hal \<Rightarrow> stream_op list \<Rightarrow> HybmStream \<Rightarrow> 'd \<Rightarrow> (HybmStream \<times> 'd) cpp" where
  "stream_exec h [] s d = Some (s, d)"
| "stream_exec h (OpInitialize # ops) s d = (let (_, s, d) = Initialize h s d in stream_exec h ops s d)"
| "stream_exec h (OpSubmit t # ops) s d = Option.bind (SubmitTasks h t s d) (\<lambda>(_, s, d). stream_exec h ops s d)"
| "stream_exec h (OpSynchronize t # ops) s d = Option.bind (Synchronize h t s d) (\<lambda>(_, s, d). stream_exec h ops s d)"
| "stream_exec h (OpDestroy # ops) s d = (let (s, d) = Destroy h s d in stream_exec h ops s d)"

lemma Destroy_ring: "Destroy h s d = (s', d') \<Longrightarrow> ring_ok s \<Longrightarrow> ring_ok s'"
  by (auto simp: Destroy_def ring_ok_def Let_def split: if_splits prod.splits)

lemma stream_exec_ring: "stream_exec h ops s d = Some (s', d') \<Longrightarrow> ring_ok s \<Longrightarrow> ring_ok s'"
  by (induction ops arbitrary: s d rule: list.induct, simp)
    (rename_tac x ops s d, case_tac x;
      fastforce simp: bind_eq_Some_conv Let_def split: prod.splits
        dest: Initialize_ring SubmitTasks_ring Synchronize_ring Destroy_ring)

text \<open>
  C18. The indices of a stream stay in its ring: after any sequence of operations on a new stream, over a driver that may
  answer anything, head and tail are below 2048, and the ring of an initialised stream has 2048
  entries, so every access at head or tail is inside it.
\<close>

theorem stream_indices_in_ring:
  assumes "stream_exec h ops (new_stream dev pr fl) d = Some (s, d')"
  shows "unat (sqHead s) < 2048 \<and> unat (sqTail s) < 2048 \<and> (inited s \<longrightarrow> length (taskList s) = 2048)"
proof -
  have "ring_ok (new_stream dev pr fl)"
    by (simp add: ring_ok_def new_stream_def)
  with stream_exec_ring [OF assms] show ?thesis
    by (simp add: ring_ok_def word_less_nat_alt)
qed

section \<open>A driver that counts\<close>

text \<open>
  What the stream relies on: the driver counts the entries it accepted and those it finished, in order; the head it reports
  is the finished count in the ring, and it reports no completion entries, which only failing tasks write.
\<close>

definition counts :: "'d hal \<Rightarrow> ('d \<Rightarrow> nat) \<Rightarrow> ('d \<Rightarrow> nat) \<Rightarrow> bool" where
  "counts h acc fin \<longleftrightarrow> (\<forall>d. fin d \<le> acc d) \<and>
     (\<forall>dev ts sq e d. let (ret, d') = HalSqTaskSend h dev ts sq e d
        in acc d' = (if ret = 0 then Suc (acc d) else acc d) \<and> fin d \<le> fin d') \<and>
     (\<forall>dev ts sq d. let (ret, v, d') = HalSqCqQuery h dev ts sq DRV_SQCQ_PROP_SQ_HEAD d
        in ret = 0 \<and> v = slot (fin d') \<and> acc d' = acc d \<and> fin d \<le> fin d') \<and>
     (\<forall>dev ts sq d. let (ret, v, d') = HalSqCqQuery h dev ts sq DRV_SQCQ_PROP_SQ_CQE_STATUS d
        in v = 0 \<and> acc d' = acc d \<and> fin d \<le> fin d')"

lemma counts_send:
  assumes "counts h acc fin"
  obtains ret d' where "HalSqTaskSend h dev ts sq e d = (ret, d')" and "acc d' = (if ret = 0 then Suc (acc d) else acc d)" and "fin d \<le> fin d'"
proof -
  have "let (ret, d') = HalSqTaskSend h dev ts sq e d
        in acc d' = (if ret = 0 then Suc (acc d) else acc d) \<and> fin d \<le> fin d'"
    using assms unfolding counts_def by blast
  then show thesis
    by (cases "HalSqTaskSend h dev ts sq e d") (auto intro: that)
qed

lemma ucast_slot [simp]: "ucast (ucast (slot k) :: u16) = slot k"
proof -
  have "unat (slot k) < 2 ^ 16"
    unfolding unat_slot by (rule less_trans [OF mod_less_divisor]) simp_all
  then show ?thesis
    by (simp add: word_unat_eq_iff unsigned_ucast_eq unsigned_take_bit_eq take_bit_nat_eq_self)
qed

lemma slot_not_max: "slot k \<noteq> 0xffff"
proof
  assume "slot k = 0xffff"
  then have "k mod 2048 = 65535"
    using unat_slot [of k] by simp
  moreover have "k mod 2048 < 2048"
    by simp
  ultimately show False
    by linarith
qed

lemma counts_query:
  assumes "counts h acc fin"
  obtains e where "HalSqCqQuery h dev ts sq DRV_SQCQ_PROP_SQ_HEAD d = (0, slot (fin e), e)" and "acc e = acc d" and "fin d \<le> fin e"
proof -
  have "let (ret, v, d') = HalSqCqQuery h dev ts sq DRV_SQCQ_PROP_SQ_HEAD d
        in ret = 0 \<and> v = slot (fin d') \<and> acc d' = acc d \<and> fin d \<le> fin d'"
    using assms unfolding counts_def by blast
  then show thesis
    by (cases "HalSqCqQuery h dev ts sq DRV_SQCQ_PROP_SQ_HEAD d") (auto intro: that)
qed

lemma counts_status:
  assumes "counts h acc fin"
  obtains r e where "HalSqCqQuery h dev ts sq DRV_SQCQ_PROP_SQ_CQE_STATUS d = (r, 0, e)" and "acc e = acc d" and "fin d \<le> fin e"
proof -
  have "let (ret, v, d') = HalSqCqQuery h dev ts sq DRV_SQCQ_PROP_SQ_CQE_STATUS d
        in v = 0 \<and> acc d' = acc d \<and> fin d \<le> fin d'"
    using assms unfolding counts_def by blast
  then show thesis
    by (cases "HalSqCqQuery h dev ts sq DRV_SQCQ_PROP_SQ_CQE_STATUS d") (auto intro: that)
qed

lemma counts_body:
  assumes "counts h acc fin" and "sqHead s < 2048"
  obtains e d' where "sync_body h s d = Some (Inr BM_OK, s\<lparr>sqHead := slot (fin e)\<rparr>, d')"
    and "HalSqCqQuery h (deviceId s) (tsId s) (sqId s) DRV_SQCQ_PROP_SQ_HEAD d = (0, slot (fin e), e)"
    and "fin d \<le> fin e" and "fin e \<le> fin d'" and "acc d' = acc d"
proof -
  obtain e where e: "HalSqCqQuery h (deviceId s) (tsId s) (sqId s) DRV_SQCQ_PROP_SQ_HEAD d = (0, slot (fin e), e)" "acc e = acc d" "fin d \<le> fin e"
    using counts_query [OF assms(1)] .
  obtain r d' where d': "HalSqCqQuery h (deviceId s) (tsId s) (sqId s) DRV_SQCQ_PROP_SQ_CQE_STATUS e = (r, 0, d')" "acc d' = acc e" "fin e \<le> fin d'"
    using counts_status [OF assms(1)] .
  show thesis
    by (rule that [of e d'])
      (use e d' assms(2) in \<open>simp_all add: sync_body_def GetSqHead_def GetCqeStatus_def slot_not_max advance_total\<close>)
qed

section \<open>No task is overwritten\<close>

definition stamped :: "nat \<Rightarrow> StreamTask \<Rightarrow> StreamTask" where
  "stamped k t = t\<lparr>sqe := set_task_id (slot k) (sqe t)\<rparr>"

text \<open>
  The stream and the driver after the tasks \<open>ts\<close>: the host's head is behind the finished count by nothing that matters, at
  most 2008 places of the ring are in use, and they hold the tasks.
\<close>

definition holds :: "nat \<Rightarrow> StreamTask list \<Rightarrow> HybmStream \<Rightarrow> bool" where
  "holds H ts s \<longleftrightarrow> inited s \<and> length (taskList s) = 2048 \<and> sqTail s = slot (length ts) \<and> sqHead s = slot H \<and>
     H \<le> length ts \<and> length ts \<le> H + 2008 \<and> (\<forall>k. H \<le> k \<and> k < length ts \<longrightarrow> taskList s ! (k mod 2048) = stamped k (ts ! k))"

lemma holds_head: "holds H ts s \<Longrightarrow> H \<le> H' \<Longrightarrow> H' \<le> length ts \<Longrightarrow> holds H' ts (s\<lparr>sqHead := slot H'\<rparr>)"
  by (auto simp: holds_def)

lemma holds_empty_iff: "holds H ts s \<Longrightarrow> sqHead s = sqTail s \<longleftrightarrow> H = length ts"
  using slot_apart [of H "length ts"] by (cases "H = length ts") (auto simp: holds_def)

lemma TaskInRange_head: "sqHead s \<noteq> sqTail s \<Longrightarrow> TaskInRange s (sqHead s)"
  by (auto simp: TaskInRange_def)

lemma sync_loop_holds:
  assumes "counts h acc fin" and "holds H ts s" and "length ts = acc d" and "H \<le> fin d"
  shows "\<exists>r s' d' H'. sync_loop h task n BM_OK s d = Some (r, s', d') \<and> holds H' ts s' \<and> length ts = acc d' \<and> H \<le> H' \<and> H' \<le> fin d' \<and>
    fin d \<le> fin d' \<and> (r = BM_TIMEOUT \<or> r = BM_OK \<and> \<not> (sqHead s' \<noteq> sqTail s' \<and> TaskInRange s' task))"
  using assms(2-)
proof (induction n arbitrary: H s d)
  case 0
  then show ?case
    by auto
next
  case (Suc n)
  show ?case
  proof (cases "sqHead s \<noteq> sqTail s \<and> TaskInRange s task")
    case True
    have "sqHead s < 2048"
      using Suc.prems(1) by (simp add: holds_def)
    then obtain e d1 where body: "sync_body h s d = Some (Inr BM_OK, s\<lparr>sqHead := slot (fin e)\<rparr>, d1)"
      and e: "fin d \<le> fin e" "fin e \<le> fin d1" "acc d1 = acc d"
      using counts_body [OF assms(1)] by metis
    have le: "fin d1 \<le> acc d1"
      using assms(1) by (simp add: counts_def)
    have "holds (fin e) ts (s\<lparr>sqHead := slot (fin e)\<rparr>)"
      using Suc.prems e le by (intro holds_head [OF Suc.prems(1)]) simp_all
    from Suc.IH [OF this, of d1] Suc.prems e have "\<exists>r s' d' H'. sync_loop h task n BM_OK (s\<lparr>sqHead := slot (fin e)\<rparr>) d1 = Some (r, s', d') \<and>
        holds H' ts s' \<and> length ts = acc d' \<and> fin e \<le> H' \<and> H' \<le> fin d' \<and> fin d1 \<le> fin d' \<and>
        (r = BM_TIMEOUT \<or> r = BM_OK \<and> \<not> (sqHead s' \<noteq> sqTail s' \<and> TaskInRange s' task))"
      by simp
    then obtain r s' d' H' where "sync_loop h task n BM_OK (s\<lparr>sqHead := slot (fin e)\<rparr>) d1 = Some (r, s', d')"
      "holds H' ts s'" "length ts = acc d'" "fin e \<le> H'" "H' \<le> fin d'" "fin d1 \<le> fin d'"
      "r = BM_TIMEOUT \<or> r = BM_OK \<and> \<not> (sqHead s' \<noteq> sqTail s' \<and> TaskInRange s' task)"
      by blast
    with True body e Suc.prems(3) show ?thesis
      by (intro exI [of _ r] exI [of _ s'] exI [of _ d'] exI [of _ H'] conjI) simp_all
  next
    case False
    with Suc.prems show ?thesis
      by auto
  qed
qed

lemma SubmitTasks_holds:
  assumes "counts h acc fin" and "holds H ts s" and "length ts = acc d" and "H \<le> fin d"
  shows "\<exists>r s' d'. SubmitTasks h t s d = Some (r, s', d') \<and> fin d \<le> fin d' \<and>
    (r = BM_ERROR \<and> (\<exists>H'. holds H' ts s' \<and> length ts = acc d' \<and> H' \<le> fin d') \<or>
     r = BM_OK \<and> (\<exists>H'. holds H' (ts @ [t]) s' \<and> Suc (length ts) = acc d' \<and> H' \<le> fin d') \<or>
     r = BM_DL_FUNCTION_FAILED \<and> (\<exists>H'. holds H' (ts @ [t]) s' \<and> length ts = acc d' \<and> H' \<le> fin d'))"
proof -
  have init: "inited s"
    using assms(2) by (simp add: holds_def)
  obtain r1 s1 d1 H1 where first: "(if (sqTail s + 40) mod 2048 = sqHead s then Synchronize h (sqHead s) s d else Some (BM_OK, s, d)) = Some (r1, s1, d1)"
    and h1: "holds H1 ts s1" "length ts = acc d1" "H1 \<le> fin d1" "fin d \<le> fin d1" and r1: "r1 = BM_TIMEOUT \<or> r1 = BM_OK \<and> length ts \<le> H1 + 2007"
  proof (cases "(sqTail s + 40) mod 2048 = sqHead s")
    case True
    obtain r s' d' H' where l: "sync_loop h (sqHead s) 1000000 BM_OK s d = Some (r, s', d')" "holds H' ts s'" "length ts = acc d'" "H \<le> H'"
      "H' \<le> fin d'" "fin d \<le> fin d'" "r = BM_TIMEOUT \<or> r = BM_OK \<and> \<not> (sqHead s' \<noteq> sqTail s' \<and> TaskInRange s' (sqHead s))"
      using sync_loop_holds [OF assms, of "sqHead s" 1000000] by blast
    have "length ts \<le> H' + 2007" if "r = BM_OK"
    proof (cases "H' = H")
      case True
      then have "sqHead s' = sqTail s'"
        using that l(2,7) assms(2) TaskInRange_head [of s'] by (auto simp: holds_def)
      then show ?thesis
        using holds_empty_iff [OF l(2)] by simp
    next
      case False
      then show ?thesis
        using l(4) assms(2) by (simp add: holds_def)
    qed
    with l True init show thesis
      by (intro that [of r s' d' H']) (auto simp: Synchronize_def)
  next
    case False
    have "length ts \<noteq> H + 2008"
    proof
      assume "length ts = H + 2008"
      then have "(sqTail s + 40) mod 2048 = slot (2048 + H)"
        using assms(2) slot_add [of 40 "length ts"] by (simp add: holds_def)
      with False assms(2) show False
        by (simp add: holds_def slot_eq_iff)
    qed
    with assms False show thesis
      by (intro that [of BM_OK s d H]) (auto simp: holds_def)
  qed
  show ?thesis
  proof (cases "r1 = BM_OK")
    case True
    then have room: "length ts \<le> H1 + 2007"
      using r1 by simp
    have full: "(sqTail s1 + 1) mod 2048 \<noteq> sqHead s1"
      using h1(1) room slot_apart [of H1 "Suc (length ts)"] by (auto simp: holds_def slot_Suc)
    let ?e = "stamped (length ts) t"
    let ?s = "s1\<lparr>sqTail := slot (Suc (length ts)), taskList := (taskList s1)[length ts mod 2048 := ?e]\<rparr>"
    obtain ret d' where send: "HalSqTaskSend h (deviceId s1) (tsId s1) (sqId s1) (sqe ?e) d1 = (ret, d')"
      "acc d' = (if ret = 0 then Suc (acc d1) else acc d1)" "fin d1 \<le> fin d'"
      using counts_send [OF assms(1)] .
    have "length ts mod 2048 \<noteq> k mod 2048" if "H1 \<le> k" "k < length ts" for k
      using slot_apart [of k "length ts"] that room by (simp add: slot_eq_iff)
    then have "holds H1 (ts @ [t]) ?s"
      using h1(1) room by (auto simp: holds_def nth_append less_Suc_eq)
    moreover have "SubmitTasks h t s d = Some (if ret \<noteq> 0 then BM_DL_FUNCTION_FAILED else BM_OK, ?s, d')"
      using init first True full send(1) h1(1)
      by (simp add: SubmitTasks_def Let_def holds_def slot_Suc stamped_def)
    ultimately show ?thesis
      using send(2,3) h1(2-4) by (cases "ret = 0") (auto intro!: exI [of _ H1])
  next
    case False
    then have "SubmitTasks h t s d = Some (BM_ERROR, s1, d1)"
      using init first by (simp add: SubmitTasks_def)
    with h1 show ?thesis
      by blast
  qed
qed

text \<open>Submitting a list of tasks, whatever the single results are.\<close>

fun submit_all :: "'d hal \<Rightarrow> StreamTask list \<Rightarrow> HybmStream \<Rightarrow> 'd \<Rightarrow> (result list \<times> HybmStream \<times> 'd) cpp" where
  "submit_all h [] s d = Some ([], s, d)"
| "submit_all h (t # ts) s d = do {
     (r, s, d) \<leftarrow> SubmitTasks h t s d;
     (rs, s, d) \<leftarrow> submit_all h ts s d;
     Some (r # rs, s, d)
   }"

definition accepted :: "StreamTask list \<Rightarrow> result list \<Rightarrow> StreamTask list" where
  "accepted ts rs = map fst (filter (\<lambda>(t, r). r = BM_OK) (zip ts rs))"

definition sends_succeed :: "'d hal \<Rightarrow> bool" where
  "sends_succeed h \<longleftrightarrow> (\<forall>dev ts sq e d. fst (HalSqTaskSend h dev ts sq e d) = 0)"

lemma SubmitTasks_not_failed: "sends_succeed h \<Longrightarrow> SubmitTasks h t s d \<noteq> Some (BM_DL_FUNCTION_FAILED, s', d')"
  unfolding SubmitTasks_def sends_succeed_def
  by (auto simp: bind_eq_Some_conv Let_def split: if_splits prod.splits dest: arg_cong [of _ _ fst])

lemma submit_all_holds:
  assumes "counts h acc fin" and "sends_succeed h" and "holds H ts s" and "length ts = acc d" and "H \<le> fin d"
  shows "\<exists>rs s' d' H'. submit_all h us s d = Some (rs, s', d') \<and> length rs = length us \<and> set rs \<subseteq> {BM_OK, BM_ERROR} \<and>
    holds H' (ts @ accepted us rs) s' \<and> length (ts @ accepted us rs) = acc d' \<and> H' \<le> fin d'"
  using assms(3-)
proof (induction us arbitrary: H ts s d)
  case Nil
  then show ?case
    by (auto simp: accepted_def)
next
  case (Cons u us)
  obtain r s1 d1 H1 where step: "SubmitTasks h u s d = Some (r, s1, d1)" "r \<in> {BM_OK, BM_ERROR}"
    "holds H1 (if r = BM_OK then ts @ [u] else ts) s1" "length (if r = BM_OK then ts @ [u] else ts) = acc d1" "H1 \<le> fin d1"
    using SubmitTasks_holds [OF assms(1) Cons.prems, of u] SubmitTasks_not_failed [OF assms(2), of u s d]
    by (elim exE conjE disjE) auto
  obtain rs s' d' H' where "submit_all h us s1 d1 = Some (rs, s', d')" "length rs = length us" "set rs \<subseteq> {BM_OK, BM_ERROR}"
    "holds H' ((if r = BM_OK then ts @ [u] else ts) @ accepted us rs) s'"
    "length ((if r = BM_OK then ts @ [u] else ts) @ accepted us rs) = acc d'" "H' \<le> fin d'"
    using Cons.IH [OF step(3-5)] by blast
  with step(1,2) show ?case
    by (intro exI [of _ "r # rs"] exI [of _ s'] exI [of _ d'] exI [of _ H']) (auto simp: accepted_def split: if_splits)
qed

lemma Initialize_holds:
  assumes "Initialize h (new_stream dev pr fl) d0 = (BM_OK, s, d)"
  shows "holds 0 [] s"
proof -
  have "inited s \<and> length (taskList s) = 2048 \<and> sqHead s = 0 \<and> sqTail s = 0"
    using assms by (auto simp: Initialize_def AllocStreamId_def AllocSqcq_def AllocLogicCq_def new_stream_def resized_def Let_def
      split: if_splits prod.splits)
  then show ?thesis
    by (simp add: holds_def slot_def)
qed

text \<open>
  C10. The ring is safe: over a driver that counts and takes every entry, tasks submitted one after the other to a
  fresh stream are each accepted, or refused because waiting for room timed out; never is the ring reported full. Every
  accepted task that the device has not finished is still in its place of the ring, with the number of
  that place, which is where the device reads it.
\<close>

theorem unfinished_tasks_kept:
  assumes "counts h acc fin" and "sends_succeed h" and "Initialize h (new_stream dev pr fl) d0 = (BM_OK, s, d)" and "acc d = 0"
  shows "\<exists>rs s' d'. submit_all h tasks s d = Some (rs, s', d') \<and> length rs = length tasks \<and> set rs \<subseteq> {BM_OK, BM_ERROR} \<and>
    acc d' = length (accepted tasks rs) \<and>
    (\<forall>k. fin d' \<le> k \<and> k < acc d' \<longrightarrow> taskList s' ! (k mod 2048) = stamped k (accepted tasks rs ! k))"
proof -
  obtain rs s' d' H' where "submit_all h tasks s d = Some (rs, s', d')" "length rs = length tasks" "set rs \<subseteq> {BM_OK, BM_ERROR}"
    "holds H' ([] @ accepted tasks rs) s'" "length ([] @ accepted tasks rs) = acc d'" "H' \<le> fin d'"
    using submit_all_holds [OF assms(1,2) Initialize_holds [OF assms(3)], of d tasks] assms(4) by auto
  then show ?thesis
    by (intro exI [of _ rs] exI [of _ s'] exI [of _ d']) (auto simp: holds_def)
qed

text \<open>A driver for examples: its state counts accepted and finished entries; asking for the head finishes one more.\<close>

definition example_hal :: "(nat \<times> nat) hal" where
  "example_hal = \<lparr>HalResourceIdAlloc = (\<lambda>_ _ _ d. (0, 1, d)), HalResourceIdFree = (\<lambda>_ _ _ _ d. (0, d)),
     HalResourceConfig = (\<lambda>_ _ _ _ d. (0, d)), HalSqCqAllocate = (\<lambda>_ _ d. (0, \<lparr>oSqId = 1, oCqId = 1\<rparr>, d)),
     HalSqCqFree = (\<lambda>_ _ _ _ _ d. (0, d)), HalSqTaskSend = (\<lambda>_ _ _ _ (a, f). (0, Suc a, min a f)),
     HalSqCqQuery = (\<lambda>_ _ _ p (a, f). if p = DRV_SQCQ_PROP_SQ_HEAD then (0, slot (min a (Suc f)), a, min a (Suc f)) else (0, 0, a, f)),
     HalCqReportRecv = (\<lambda>_ _ _ _ d. (0, 0, [], d)), DrvNotifyIdAddrOffset = (\<lambda>_ _ _ d. (0, 0, d)), gettid = (\<lambda>_. 1)\<rparr>"

lemma example_counts: "counts example_hal fst (\<lambda>(a, f). min a f)" "sends_succeed example_hal"
  by (auto simp: counts_def sends_succeed_def example_hal_def)

definition example_stream :: HybmStream where
  "example_stream = fst (snd (Initialize example_hal (new_stream 0 0 0) (0, 0)))"

lemma example_init: "Initialize example_hal (new_stream 0 0 0) (0, 0) = (BM_OK, example_stream, (0, 0))"
  by (simp add: example_stream_def Initialize_def AllocStreamId_def AllocSqcq_def AllocLogicCq_def new_stream_def example_hal_def)

theorem unfinished_tasks_kept_witness:
  "\<exists>rs s' d'. submit_all example_hal [no_task, no_task] example_stream (0, 0) = Some (rs, s', d') \<and> set rs \<subseteq> {BM_OK, BM_ERROR} \<and>
    fst d' = length (accepted [no_task, no_task] rs)"
  using unfinished_tasks_kept [OF example_counts example_init, of "[no_task, no_task]"] by auto

section \<open>Waiting\<close>

definition progresses :: "'d hal \<Rightarrow> ('d \<Rightarrow> nat) \<Rightarrow> ('d \<Rightarrow> nat) \<Rightarrow> bool" where
  "progresses h acc fin \<longleftrightarrow>
     (\<forall>dev ts sq d. let (_, _, d') = HalSqCqQuery h dev ts sq DRV_SQCQ_PROP_SQ_HEAD d in fin d < fin d' \<or> fin d' = acc d')"

lemma progresses_query:
  assumes "progresses h acc fin" and "HalSqCqQuery h dev ts sq DRV_SQCQ_PROP_SQ_HEAD d = (a, b, e)"
  shows "fin d < fin e \<or> fin e = acc e"
proof -
  have "let (_, _, d') = HalSqCqQuery h dev ts sq DRV_SQCQ_PROP_SQ_HEAD d in fin d < fin d' \<or> fin d' = acc d'"
    using assms(1) unfolding progresses_def by blast
  then show ?thesis
    by (simp add: assms(2))
qed

lemma sync_loop_finishes:
  assumes "counts h acc fin" and "progresses h acc fin" and "holds H ts s" and "length ts = acc d" and "H \<le> fin d" and "length ts - H < n"
  shows "\<exists>s' d'. sync_loop h UINT32_MAX n BM_OK s d = Some (BM_OK, s', d') \<and> holds (length ts) ts s' \<and> acc d' = length ts \<and> fin d' = length ts"
  using assms(3-)
proof (induction n arbitrary: H s d)
  case (Suc n)
  have le: "fin x \<le> acc x" for x
    using assms(1) by (simp add: counts_def)
  show ?case
  proof (cases "sqHead s = sqTail s")
    case True
    then have "H = length ts"
      using holds_empty_iff [OF Suc.prems(1)] by simp
    with True Suc.prems le [of d] show ?thesis
      by (intro exI [of _ s] exI [of _ d]) auto
  next
    case False
    have "sqHead s < 2048"
      using Suc.prems(1) by (simp add: holds_def)
    then obtain e d1 where body: "sync_body h s d = Some (Inr BM_OK, s\<lparr>sqHead := slot (fin e)\<rparr>, d1)"
      and q: "HalSqCqQuery h (deviceId s) (tsId s) (sqId s) DRV_SQCQ_PROP_SQ_HEAD d = (0, slot (fin e), e)"
      and e: "fin d \<le> fin e" "fin e \<le> fin d1" "acc d1 = acc d"
      using counts_body [OF assms(1)] by metis
    have "acc e = acc d"
      by (rule counts_query [OF assms(1), of "deviceId s" "tsId s" "sqId s" d]) (simp add: q)
    moreover have "fin d < fin e \<or> fin e = acc e"
      using progresses_query [OF assms(2) q] .
    moreover have "H < length ts"
      using False Suc.prems(1) holds_empty_iff [OF Suc.prems(1)] by (simp add: holds_def order_less_le)
    ultimately have less: "H < fin e"
      using Suc.prems(2,3) by auto
    have "fin e \<le> length ts"
      using le [of d1] e Suc.prems(2) by simp
    then have "holds (fin e) ts (s\<lparr>sqHead := slot (fin e)\<rparr>)"
      using less by (intro holds_head [OF Suc.prems(1)]) simp_all
    moreover have "length ts - fin e < n"
      using less \<open>H < length ts\<close> Suc.prems(4) by linarith
    ultimately have "\<exists>s' d'. sync_loop h UINT32_MAX n BM_OK (s\<lparr>sqHead := slot (fin e)\<rparr>) d1 = Some (BM_OK, s', d') \<and>
        holds (length ts) ts s' \<and> acc d' = length ts \<and> fin d' = length ts"
      using Suc.prems(2) e by (intro Suc.IH) simp_all
    with False body show ?thesis
      by (simp add: TaskInRange_def)
  qed
qed simp

lemma sync_loop_times_out:
  assumes "counts h acc fin" and "holds H ts s" and "acc d < length ts" and "H \<le> fin d"
  shows "\<exists>s' d' H'. sync_loop h UINT32_MAX n BM_OK s d = Some (BM_TIMEOUT, s', d') \<and> holds H' ts s' \<and> acc d' < length ts \<and> H' \<le> fin d'"
  using assms(2-)
proof (induction n arbitrary: H s d)
  case (Suc n)
  have le: "fin x \<le> acc x" for x
    using assms(1) by (simp add: counts_def)
  have head: "sqHead s < 2048" "sqHead s \<noteq> sqTail s"
    using Suc.prems le [of d] holds_empty_iff [OF Suc.prems(1)] by (simp_all add: holds_def)
  then obtain e d1 where body: "sync_body h s d = Some (Inr BM_OK, s\<lparr>sqHead := slot (fin e)\<rparr>, d1)"
    and e: "fin d \<le> fin e" "fin e \<le> fin d1" "acc d1 = acc d"
    using counts_body [OF assms(1)] by metis
  have "holds (fin e) ts (s\<lparr>sqHead := slot (fin e)\<rparr>)"
    using Suc.prems e le [of d1] by (intro holds_head [OF Suc.prems(1)]) simp_all
  from Suc.IH [OF this, of d1] Suc.prems(2) e head(2) body show ?case
    by (simp add: TaskInRange_def)
qed auto


lemma example_progresses: "progresses example_hal fst (\<lambda>(a, f). min a f)"
  by (auto simp: progresses_def example_hal_def)


text \<open>
  C37. A failed send blocks the stream: \<open>SubmitTasks\<close> moves the tail before it hands the entry to the driver and does not move
  it back when the driver refuses the entry. From then on the head of the device never reaches the tail, and
  \<open>Synchronize\<close> waits its million tries and reports a timeout although the device has finished all it was given.
\<close>

theorem failed_send_blocks_stream:
  assumes "counts h acc fin" and "Initialize h (new_stream dev pr fl) d0 = (BM_OK, s, d)" and "acc d = 0"
    and "SubmitTasks h t s d = Some (BM_DL_FUNCTION_FAILED, s1, d1)"
  shows "acc d1 = 0 \<and> (\<exists>s2 d2. Synchronize h UINT32_MAX s1 d1 = Some (BM_TIMEOUT, s2, d2))"
proof -
  have start: "length [] = acc d" "0 \<le> fin d"
    using assms(3) by simp_all
  obtain H1 where h1: "holds H1 ([] @ [t]) s1" "length [] = acc d1" "H1 \<le> fin d1"
    using SubmitTasks_holds [OF assms(1) Initialize_holds [OF assms(2)] start, of t] assms(4) by auto
  then have "acc d1 < length ([] @ [t])" "inited s1"
    by (simp_all add: holds_def)
  with sync_loop_times_out [OF assms(1) h1(1) _ h1(3), of 1000000] h1(2) show ?thesis
    by (auto simp: Synchronize_def)
qed

definition refusing_hal :: "(nat \<times> nat) hal" where
  "refusing_hal = example_hal\<lparr>HalSqTaskSend := (\<lambda>_ _ _ _ d. (1, d))\<rparr>"

theorem failed_send_blocks_stream_witness:
  "\<exists>s1 d1 s2 d2. SubmitTasks refusing_hal no_task example_stream (0, 0) = Some (BM_DL_FUNCTION_FAILED, s1, d1) \<and>
    Synchronize refusing_hal UINT32_MAX s1 d1 = Some (BM_TIMEOUT, s2, d2)"
proof -
  have counts: "counts refusing_hal fst (\<lambda>(a, f). min a f)"
    by (auto simp: counts_def refusing_hal_def example_hal_def)
  have init: "Initialize refusing_hal (new_stream 0 0 0) (0, 0) = (BM_OK, example_stream, (0, 0))"
    by (simp add: refusing_hal_def example_stream_def Initialize_def AllocStreamId_def AllocSqcq_def AllocLogicCq_def new_stream_def
      example_hal_def)
  have "(sqTail example_stream + 40) mod 2048 \<noteq> sqHead example_stream" "(sqTail example_stream + 1) mod 2048 \<noteq> sqHead example_stream"
    "inited example_stream" "length (taskList example_stream) = 2048" "sqTail example_stream = 0"
    using Initialize_holds [OF example_init] by (simp_all add: holds_def slot_def)
  then obtain s1 where sub: "SubmitTasks refusing_hal no_task example_stream (0, 0) = Some (BM_DL_FUNCTION_FAILED, s1, (0, 0))"
    by (simp add: SubmitTasks_def refusing_hal_def Let_def)
  with failed_send_blocks_stream [OF counts init _ sub] show ?thesis
    by auto
qed

theorem stream_indices_in_ring_witness:
  "\<exists>s d. stream_exec example_hal [OpInitialize, OpDestroy] (new_stream 0 0 0) (0, 0) = Some (s, d) \<and> unat (sqHead s) < 2048"
proof -
  obtain s d where exec: "stream_exec example_hal [OpInitialize, OpDestroy] (new_stream 0 0 0) (0, 0) = Some (s, d)"
    by (cases "Destroy example_hal example_stream (0, 0)") (simp add: example_init)
  with stream_indices_in_ring [OF exec] show ?thesis
    by auto
qed

end
