(* ===== verification/Data_Op_Sdma.thy ===== *)
theory Data_Op_Sdma
  imports Task_Stream_Properties Va_Manager
begin

text \<open>
  The data operator over SDMA (\<^verbatim>\<open>src/hybm/csrc/data_operation/host/hybm_data_op_sdma.cpp\<close>) and the base class
  \<open>DataOperator\<close> (\<^verbatim>\<open>src/hybm/csrc/data_operation/hybm_data_operator.h\<close>): single copies, copies through a temporary
  device buffer, batches that merge neighbouring copies, and the parameter blocks of the copy kernel.

  Addresses are 64-bit words, null is 0. The runtime behind \<open>DlAclApi\<close> and \<open>DlHybmExtendApi\<close> is the parameter \<open>'d acl\<close>, like
  the driver \<open>'d hal\<close>, on the same device state. The words that mark parameter blocks as free are
  shared with the copy kernel: the calls that start kernels or wait for them may change them.
\<close>

unbundle bit_operations_syntax

section \<open>Ranks of global addresses\<close>

record gva_space =
  gvaOf :: u64
  localSpaceSize :: u64
  rankCount :: u64

type_synonym gva_spaces = "hybm_mem_type \<Rightarrow> gva_space"

definition UpdateGvaSpace :: "hybm_mem_type \<Rightarrow> u64 \<Rightarrow> u64 \<Rightarrow> u64 \<Rightarrow> gva_spaces \<Rightarrow> gva_spaces" where
  "UpdateGvaSpace type g space ranks sp =
     (if type = HYBM_MEM_TYPE_BUTT \<or> space = 0 then sp
      else sp(type := \<lparr>gvaOf = g, localSpaceSize = space, rankCount = ranks\<rparr>))"

definition in_space :: "gva_space \<Rightarrow> u64 \<Rightarrow> bool" where
  "in_space p g \<longleftrightarrow> gvaOf p \<le> g \<and> g < gvaOf p + rankCount p * localSpaceSize p"

definition GetRankIdByGva :: "u64 \<Rightarrow> gva_spaces \<Rightarrow> u32" where
  "GetRankIdByGva g sp =
     (if in_space (sp HYBM_MEM_TYPE_DEVICE) g then
        ucast ((g - gvaOf (sp HYBM_MEM_TYPE_DEVICE)) div localSpaceSize (sp HYBM_MEM_TYPE_DEVICE))
      else if in_space (sp HYBM_MEM_TYPE_HOST) g then
        ucast ((g - gvaOf (sp HYBM_MEM_TYPE_HOST)) div localSpaceSize (sp HYBM_MEM_TYPE_HOST))
      else UINT32_MAX)"

section \<open>Runtime and state\<close>

datatype aclrtMemcpyKind = ACL_MEMCPY_HOST_TO_HOST | ACL_MEMCPY_HOST_TO_DEVICE | ACL_MEMCPY_DEVICE_TO_HOST

record 'd acl =
  AclrtMallocHost :: "u64 \<Rightarrow> 'd \<Rightarrow> result \<times> u64 \<times> 'd"
  AclrtFreeHost :: "u64 \<Rightarrow> 'd \<Rightarrow> 'd"
  HalHostRegister :: "u64 \<Rightarrow> u64 \<Rightarrow> u32 \<Rightarrow> 'd \<Rightarrow> result \<times> u64 \<times> 'd"
  HalHostUnregisterEx :: "u64 \<Rightarrow> u32 \<Rightarrow> 'd \<Rightarrow> 'd"
  AclrtMalloc :: "u64 \<Rightarrow> 'd \<Rightarrow> result \<times> u64 \<times> 'd"
  AclrtFree :: "u64 \<Rightarrow> 'd \<Rightarrow> 'd"
  AclrtMemcpy :: "u64 \<Rightarrow> u64 \<Rightarrow> u64 \<Rightarrow> aclrtMemcpyKind \<Rightarrow> 'd \<Rightarrow> result \<times> 'd"
  RtMemcpyAsync :: "u64 \<Rightarrow> u64 \<Rightarrow> u64 \<Rightarrow> u64 \<Rightarrow> 'd \<Rightarrow> result \<times> 'd"
  AclrtCreateStream :: "u32 \<Rightarrow> 'd \<Rightarrow> result \<times> u64 \<times> 'd"
  AclrtSynchronizeStream :: "u64 \<Rightarrow> u64 list \<Rightarrow> 'd \<Rightarrow> result \<times> u64 list \<times> 'd"
  HybmCopyExtend :: "u64 \<Rightarrow> u64 \<Rightarrow> u64 \<Rightarrow> u64 \<Rightarrow> 'd \<Rightarrow> result \<times> 'd"
  HybmBatchCopyExtend :: "u64 \<Rightarrow> (u64 \<times> u64 \<times> u64) list \<Rightarrow> u64 \<Rightarrow> u64 \<Rightarrow> u64 list \<Rightarrow> 'd \<Rightarrow> result \<times> u64 list \<times> 'd"

text \<open>The parts of the environment that do not change: driver, runtime, the device in use and the calling thread.\<close>

record 'd sdma_env =
  halOf :: "'d hal"
  aclOf :: "'d acl"
  devIdOf :: u32
  tidOf :: int

text \<open>
  The operator, the streams of all threads, the runtime streams the threads made, and the device.
  \<open>paramMask\<close> holds the words at every eighth place behind \<open>HYBM_PARAM_SPACE_META_OFFSET\<close>.
\<close>

record 'd sdma =
  sdmaInited :: bool
  paramSpace :: u64
  paramOffset :: u64
  paramSpaceIdx :: u32
  paramMask :: "u64 list"
  threadStreams :: "(int \<times> HybmStream) list"
  aclStreams :: "(int \<times> u64) list"
  device :: 'd

record hybm_copy_params =
  cpSrc :: u64
  cpDest :: u64
  dataSize :: u64

record hybm_batch_copy_params =
  sources :: "u64 list"
  destinations :: "u64 list"
  dataSizes :: "u64 list"
  batchSize :: u32

record ExtOptions =
  srcRankId :: u32
  destRankId :: u32
  extStream :: u64
  extFlags :: u32
  groupMap :: "((u32 \<times> u32) \<times> u32 list) list"

abbreviation (input) ASYNC_COPY_FLAG :: u32 where "ASYNC_COPY_FLAG \<equiv> 1"
abbreviation (input) COPY_EXTEND_FLAG :: u32 where "COPY_EXTEND_FLAG \<equiv> 2"
abbreviation (input) HYBM_SINGLE_PARAM_NUM :: u32 where "HYBM_SINGLE_PARAM_NUM \<equiv> 16384"
abbreviation (input) HYBM_SINGLE_PARAM_SIZE :: u64 where "HYBM_SINGLE_PARAM_SIZE \<equiv> 393216"
abbreviation (input) HYBM_PARAM_SPACE_CAP :: nat where "HYBM_PARAM_SPACE_CAP \<equiv> 170"
abbreviation (input) HYBM_PARAM_SPACE_SIZE :: u64 where "HYBM_PARAM_SPACE_SIZE \<equiv> 67108864"
abbreviation (input) HYBM_PARAM_SPACE_META_OFFSET :: u64 where "HYBM_PARAM_SPACE_META_OFFSET \<equiv> 66846720"
abbreviation (input) HYBM_EXTEND_CONCURRENT :: u64 where "HYBM_EXTEND_CONCURRENT \<equiv> 32"

definition sdma_Initialize :: "'d sdma_env \<Rightarrow> 'd sdma \<Rightarrow> result \<times> 'd sdma" where
  "sdma_Initialize e s =
     (if sdmaInited s then (BM_OK, s)
      else let (ret, p, d) = AclrtMallocHost (aclOf e) HYBM_PARAM_SPACE_SIZE (device s);
               s = s\<lparr>device := d, paramSpace := p\<rparr>
      in if \<not> (ret = 0 \<and> p \<noteq> 0) then (BM_MALLOC_FAILED, s)
         else let (ret, output, d) = HalHostRegister (aclOf e) p HYBM_PARAM_SPACE_SIZE (devIdOf e) (device s)
         in if ret \<noteq> BM_OK then (BM_ERROR, s\<lparr>device := AclrtFreeHost (aclOf e) p d, paramSpace := 0\<rparr>)
            else (BM_OK, s\<lparr>device := d, paramMask := replicate HYBM_PARAM_SPACE_CAP HYBM_EXTEND_CONCURRENT,
              paramOffset := output - p, paramSpaceIdx := 0, sdmaInited := True\<rparr>))"

definition sdma_UnInitialize :: "'d sdma_env \<Rightarrow> 'd sdma \<Rightarrow> 'd sdma" where
  "sdma_UnInitialize e s =
     (if \<not> sdmaInited s then s
      else let s = (if paramSpace s \<noteq> 0 then
             s\<lparr>device := AclrtFreeHost (aclOf e) (paramSpace s) (HalHostUnregisterEx (aclOf e) (paramSpace s) (devIdOf e) (device s)),
               paramSpace := 0\<rparr> else s)
      in s\<lparr>sdmaInited := False\<rparr>)"

section \<open>Streams of the calling thread\<close>

definition my_stream :: "'d sdma_env \<Rightarrow> 'd sdma \<Rightarrow> int option \<times> 'd sdma" where
  "my_stream e s =
     (let (p, ss, d) = GetThreadHybmStream (halOf e) (tidOf e) (devIdOf e) (threadStreams s) (device s)
      in (p, s\<lparr>threadStreams := ss, device := d\<rparr>))"

text \<open>A method of the stream a pointer leads to.\<close>

definition on_stream ::
    "int \<Rightarrow> (HybmStream \<Rightarrow> 'd \<Rightarrow> (result \<times> HybmStream \<times> 'd) cpp) \<Rightarrow> 'd sdma \<Rightarrow> (result \<times> 'd sdma) cpp" where
  "on_stream p f s =
     (case map_of (threadStreams s) p of
        None \<Rightarrow> None
      | Some st \<Rightarrow> map_option (\<lambda>(ret, st, d). (ret, s\<lparr>threadStreams := um_set p st (threadStreams s), device := d\<rparr>)) (f st (device s)))"

definition GetThreadAclStream :: "'d sdma_env \<Rightarrow> 'd sdma \<Rightarrow> u64 \<times> 'd sdma" where
  "GetThreadAclStream e s =
     (case map_of (aclStreams s) (tidOf e) of
        Some st \<Rightarrow> (st, s)
      | None \<Rightarrow>
          let (ret, st, d) = AclrtCreateStream (aclOf e) 3 (device s); s = s\<lparr>device := d\<rparr>
          in if ret \<noteq> 0 then (0, s)
             else (st, if st = 0 then s else s\<lparr>aclStreams := um_set (tidOf e) st (aclStreams s)\<rparr>))"

section \<open>Copies on the device\<close>

definition g2g_base :: "u32 \<Rightarrow> bool \<Rightarrow> StreamTask" where
  "g2g_base sid wqe = \<lparr>taskType = STREAM_TASK_TYPE_SDMA, sqe = memcpyAsyncSqe (zero_memcpy\<lparr>
     mHeader := zero_header\<lparr>hType := RT_STARS_SQE_TYPE_SDMA, wr_cqe := of_bool wqe, rt_stream_id := ucast sid\<rparr>,
     kernelCredit := RT_STARS_DEFAULT_KERNEL_CREDIT, sssv := 1, dssv := 1, sns := 1, dns := 1, qos := 6\<rparr>)\<rparr>"

definition InitG2GStreamTask :: "'d sdma_env \<Rightarrow> 'd sdma \<Rightarrow> StreamTask \<times> 'd sdma" where
  "InitG2GStreamTask e s =
     (let (p, s) = my_stream e s in
      case p of None \<Rightarrow> (no_task, s)
      | Some t \<Rightarrow>
          (case map_of (threadStreams s) t of
             None \<Rightarrow> (no_task, s)
           | Some st \<Rightarrow> (g2g_base (streamId st) (wqeFlag st), s)))"

text \<open>The field \<open>length\<close> of an entry has 32 bits, \<open>count\<close> has 64.\<close>

fun fill_sqe :: "u64 \<Rightarrow> u64 \<Rightarrow> u64 \<Rightarrow> rtStarsSqe_t \<Rightarrow> rtStarsSqe_t" where
  "fill_sqe dest src count (memcpyAsyncSqe m) = memcpyAsyncSqe (m\<lparr>mLength := ucast count,
     src_addr_low := ucast (src AND 0xFFFFFFFF), src_addr_high := ucast (drop_bit 32 (src AND 0xFFFFFFFF00000000)),
     dst_addr_low := ucast (dest AND 0xFFFFFFFF), dst_addr_high := ucast (drop_bit 32 (dest AND 0xFFFFFFFF00000000))\<rparr>)"
| "fill_sqe dest src count (notifySqe n) = notifySqe n"

definition g2g_task :: "u64 \<Rightarrow> u64 \<Rightarrow> u64 \<Rightarrow> StreamTask \<Rightarrow> StreamTask" where
  "g2g_task dest src count task = task\<lparr>sqe := fill_sqe dest src count (sqe task)\<rparr>"

definition CopyG2G :: "'d sdma_env \<Rightarrow> u64 \<Rightarrow> u64 \<Rightarrow> u64 \<Rightarrow> u32 \<Rightarrow> u64 \<Rightarrow> 'd sdma \<Rightarrow> (result \<times> 'd sdma) cpp" where
  "CopyG2G e destVA srcVA count fl stream s =
     (if fl AND COPY_EXTEND_FLAG \<noteq> 0 then
        let (st, s) = (if stream \<noteq> 0 then (stream, s) else GetThreadAclStream e s);
            (ret, d) = HybmCopyExtend (aclOf e) srcVA destVA count st (device s); s = s\<lparr>device := d\<rparr>
        in if ret \<noteq> BM_OK then Some (ret, s)
           else let (ret, m, d) = AclrtSynchronizeStream (aclOf e) st (paramMask s) (device s)
           in Some (if ret = BM_OK then BM_OK else BM_ERROR, s\<lparr>paramMask := m, device := d\<rparr>)
      else
        let (task, s) = InitG2GStreamTask e s; (p, s) = my_stream e s in
        case p of None \<Rightarrow> Some (BM_ERROR, s)
        | Some t \<Rightarrow> do {
            (ret, s) \<leftarrow> on_stream t (SubmitTasks (halOf e) (g2g_task destVA srcVA count task)) s;
            if ret \<noteq> 0 then Some (BM_ERROR, s)
            else do {
              (ret, s) \<leftarrow> on_stream t (Synchronize (halOf e) UINT32_MAX) s;
              Some (if ret \<noteq> 0 then BM_ERROR else BM_OK, s)
            }
          })"

definition CopyG2GAsync :: "'d sdma_env \<Rightarrow> u64 \<Rightarrow> u64 \<Rightarrow> u64 \<Rightarrow> u32 \<Rightarrow> u64 \<Rightarrow> 'd sdma \<Rightarrow> (result \<times> 'd sdma) cpp" where
  "CopyG2GAsync e destVA srcVA count fl stream s =
     (if fl AND ASYNC_COPY_FLAG \<noteq> 0 \<and> stream \<noteq> 0 then
        let (ret, d) = (if fl AND COPY_EXTEND_FLAG \<noteq> 0 then HybmCopyExtend (aclOf e) srcVA destVA count stream (device s)
                        else RtMemcpyAsync (aclOf e) destVA srcVA count stream (device s))
        in Some (ret, s\<lparr>device := d\<rparr>)
      else
        let (task, s) = InitG2GStreamTask e s; (p, s) = my_stream e s in
        case p of None \<Rightarrow> Some (BM_ERROR, s)
        | Some t \<Rightarrow> do {
            (ret, s) \<leftarrow> on_stream t (SubmitTasks (halOf e) (g2g_task destVA srcVA count task)) s;
            Some (if ret \<noteq> 0 then BM_ERROR else BM_OK, s)
          })"

definition sdma_Wait :: "'d sdma_env \<Rightarrow> 'd sdma \<Rightarrow> (result \<times> 'd sdma) cpp" where
  "sdma_Wait e s =
     (let (p, s) = my_stream e s in
      case p of None \<Rightarrow> Some (BM_ERROR, s) | Some t \<Rightarrow> on_stream t (Synchronize (halOf e) UINT32_MAX) s)"

definition sdma_CleanUp :: "'d sdma_env \<Rightarrow> 'd sdma \<Rightarrow> 'd sdma" where
  "sdma_CleanUp e s =
     (let (ss, d) = DestroyAllThreadHybmStream (halOf e) (threadStreams s) (device s)
      in s\<lparr>threadStreams := ss, device := d\<rparr>)"

section \<open>Copies through a temporary buffer\<close>

text \<open>\<open>CopyLH2GD\<close> and \<open>CopyLH2GH\<close> have the same body, and so have \<open>CopyGD2LH\<close> and \<open>CopyGH2LH\<close>.\<close>

definition CopyLH2GD :: "'d sdma_env \<Rightarrow> u64 \<Rightarrow> u64 \<Rightarrow> u64 \<Rightarrow> 'd sdma \<Rightarrow> (result \<times> 'd sdma) cpp" where
  "CopyLH2GD e gvaAddr hostAddr count s =
     (let (ret, copyDevice, d) = AclrtMalloc (aclOf e) count (device s); s = s\<lparr>device := d\<rparr> in
      if ret \<noteq> 0 then Some (BM_DL_FUNCTION_FAILED, s)
      else let (ret, d) = AclrtMemcpy (aclOf e) copyDevice hostAddr count ACL_MEMCPY_HOST_TO_DEVICE (device s); s = s\<lparr>device := d\<rparr> in
      if ret \<noteq> 0 then Some (BM_DL_FUNCTION_FAILED, s\<lparr>device := AclrtFree (aclOf e) copyDevice (device s)\<rparr>)
      else do {
        (result, s) \<leftarrow> CopyG2G e gvaAddr copyDevice count 0 0 s;
        Some (result, s\<lparr>device := AclrtFree (aclOf e) copyDevice (device s)\<rparr>)
      })"

definition CopyGD2LH :: "'d sdma_env \<Rightarrow> u64 \<Rightarrow> u64 \<Rightarrow> u64 \<Rightarrow> 'd sdma \<Rightarrow> (result \<times> 'd sdma) cpp" where
  "CopyGD2LH e hostAddr gvaAddr count s =
     (let (ret, copyDevice, d) = AclrtMalloc (aclOf e) count (device s); s = s\<lparr>device := d\<rparr> in
      if ret \<noteq> 0 then Some (BM_DL_FUNCTION_FAILED, s)
      else do {
        (result, s) \<leftarrow> CopyG2G e copyDevice gvaAddr count 0 0 s;
        if result \<noteq> BM_OK then Some (result, s\<lparr>device := AclrtFree (aclOf e) copyDevice (device s)\<rparr>)
        else let (ret, d) = AclrtMemcpy (aclOf e) hostAddr copyDevice count ACL_MEMCPY_DEVICE_TO_HOST (device s)
             in Some (if ret \<noteq> 0 then BM_DL_FUNCTION_FAILED else BM_OK, s\<lparr>device := AclrtFree (aclOf e) copyDevice d\<rparr>)
      })"

definition CopyLH2GH :: "'d sdma_env \<Rightarrow> u64 \<Rightarrow> u64 \<Rightarrow> u64 \<Rightarrow> 'd sdma \<Rightarrow> (result \<times> 'd sdma) cpp" where
  "CopyLH2GH e destVA srcVA len s = CopyLH2GD e destVA srcVA len s"

definition CopyGH2LH :: "'d sdma_env \<Rightarrow> u64 \<Rightarrow> u64 \<Rightarrow> u64 \<Rightarrow> 'd sdma \<Rightarrow> (result \<times> 'd sdma) cpp" where
  "CopyGH2LH e destVA srcVA len s = CopyGD2LH e destVA srcVA len s"

section \<open>Single copies\<close>

definition DataCopyAsync ::
    "'d sdma_env \<Rightarrow> hybm_copy_params \<Rightarrow> hybm_data_copy_direction \<Rightarrow> ExtOptions \<Rightarrow> 'd sdma \<Rightarrow> (result \<times> 'd sdma) cpp" where
  "DataCopyAsync e p dir opt s =
     (case dir of
        HYBM_LOCAL_HOST_TO_GLOBAL_DEVICE \<Rightarrow> CopyLH2GD e (cpDest p) (cpSrc p) (dataSize p) s
      | HYBM_GLOBAL_DEVICE_TO_LOCAL_HOST \<Rightarrow> CopyGD2LH e (cpDest p) (cpSrc p) (dataSize p) s
      | HYBM_LOCAL_HOST_TO_GLOBAL_HOST \<Rightarrow> CopyLH2GH e (cpDest p) (cpSrc p) (dataSize p) s
      | HYBM_GLOBAL_HOST_TO_LOCAL_HOST \<Rightarrow> CopyGH2LH e (cpDest p) (cpSrc p) (dataSize p) s
      | HYBM_DATA_COPY_DIRECTION_AUTO \<Rightarrow> Some (BM_INVALID_PARAM, s)
      | HYBM_DATA_COPY_DIRECTION_BUTT \<Rightarrow> Some (BM_INVALID_PARAM, s)
      | _ \<Rightarrow> CopyG2GAsync e (cpDest p) (cpSrc p) (dataSize p) (extFlags opt) (extStream opt) s)"

definition DataCopy ::
    "'d sdma_env \<Rightarrow> hybm_copy_params \<Rightarrow> hybm_data_copy_direction \<Rightarrow> ExtOptions \<Rightarrow> 'd sdma \<Rightarrow> (result \<times> 'd sdma) cpp" where
  "DataCopy e p dir opt s =
     (if \<not> sdmaInited s then Some (BM_NOT_INITIALIZED, s)
      else if extFlags opt AND ASYNC_COPY_FLAG \<noteq> 0 then DataCopyAsync e p dir opt s
      else case dir of
        HYBM_LOCAL_HOST_TO_GLOBAL_DEVICE \<Rightarrow> CopyLH2GD e (cpDest p) (cpSrc p) (dataSize p) s
      | HYBM_GLOBAL_DEVICE_TO_LOCAL_HOST \<Rightarrow> CopyGD2LH e (cpDest p) (cpSrc p) (dataSize p) s
      | HYBM_LOCAL_HOST_TO_GLOBAL_HOST \<Rightarrow> CopyLH2GH e (cpDest p) (cpSrc p) (dataSize p) s
      | HYBM_GLOBAL_HOST_TO_LOCAL_HOST \<Rightarrow> CopyGH2LH e (cpDest p) (cpSrc p) (dataSize p) s
      | HYBM_DATA_COPY_DIRECTION_AUTO \<Rightarrow> Some (BM_INVALID_PARAM, s)
      | HYBM_DATA_COPY_DIRECTION_BUTT \<Rightarrow> Some (BM_INVALID_PARAM, s)
      | _ \<Rightarrow> CopyG2G e (cpDest p) (cpSrc p) (dataSize p) (extFlags opt) (extStream opt) s)"

section \<open>Batches\<close>

text \<open>The \<open>i\<close>-th source, destination and size; reading past an array is undefined.\<close>

definition batch_entry :: "hybm_batch_copy_params \<Rightarrow> nat \<Rightarrow> (u64 \<times> u64 \<times> u64) cpp" where
  "batch_entry p i =
     (if i < length (sources p) \<and> i < length (destinations p) \<and> i < length (dataSizes p)
      then Some (sources p ! i, destinations p ! i, dataSizes p ! i) else None)"

text \<open>The search for a free block, \<open>n\<close> places still to look at: the block and its mark, or none.\<close>

fun find_param_space :: "u64 list \<Rightarrow> u32 \<Rightarrow> nat \<Rightarrow> nat \<Rightarrow> nat option" where
  "find_param_space m st i 0 = None"
| "find_param_space m st i (Suc n) =
     (let k = unat ((of_nat i + st) mod 170) in
      if m ! k = HYBM_EXTEND_CONCURRENT then Some k else find_param_space m st (Suc i) n)"

text \<open>Without a parameter space the marks are behind a null pointer.\<close>

definition TryGetOneParamSpace :: "'d sdma \<Rightarrow> (nat option \<times> 'd sdma) cpp" where
  "TryGetOneParamSpace s =
     (if paramSpace s = 0 \<or> length (paramMask s) < HYBM_PARAM_SPACE_CAP then None
      else case find_param_space (paramMask s) (paramSpaceIdx s) 0 HYBM_PARAM_SPACE_CAP of
        Some k \<Rightarrow> Some (Some k, s\<lparr>paramMask := (paramMask s)[k := 0], paramSpaceIdx := of_nat k + 1\<rparr>)
      | None \<Rightarrow> Some (None, s))"

fun read_entries :: "hybm_batch_copy_params \<Rightarrow> nat \<Rightarrow> nat \<Rightarrow> (u64 \<times> u64 \<times> u64) list cpp" where
  "read_entries p start 0 = Some []"
| "read_entries p start (Suc n) = do { x \<leftarrow> batch_entry p start; xs \<leftarrow> read_entries p (Suc start) n; Some (x # xs) }"

text \<open>A block, after one wait for the stream when none is free; \<open>Inl\<close> is an early return.\<close>

definition get_param_space :: "'d sdma_env \<Rightarrow> u64 \<Rightarrow> 'd sdma \<Rightarrow> ((result + nat) \<times> 'd sdma) cpp" where
  "get_param_space e st s = do {
     (space, s) \<leftarrow> TryGetOneParamSpace s;
     case space of
       Some k \<Rightarrow> Some (Inr k, s)
     | None \<Rightarrow>
         let (ret, m, d) = AclrtSynchronizeStream (aclOf e) st (paramMask s) (device s); s = s\<lparr>paramMask := m, device := d\<rparr> in
         if ret \<noteq> BM_OK then Some (Inl BM_ERROR, s)
         else do {
           (space, s) \<leftarrow> TryGetOneParamSpace s;
           Some (case space of None \<Rightarrow> Inl BM_ERROR | Some k \<Rightarrow> Inr k, s)
         }
   }"

definition extend_step ::
    "'d sdma_env \<Rightarrow> hybm_batch_copy_params \<Rightarrow> u64 \<Rightarrow> u32 \<Rightarrow> 'd sdma \<Rightarrow> ((result + unit) \<times> 'd sdma) cpp" where
  "extend_step e p st idx s = do {
     let start = idx * HYBM_SINGLE_PARAM_NUM;
     let num = min (start + HYBM_SINGLE_PARAM_NUM) (batchSize p) - start;
     (space, s) \<leftarrow> get_param_space e st s;
     case space of
       Inl ret \<Rightarrow> Some (Inl ret, s)
     | Inr k \<Rightarrow> do {
         tmpParam \<leftarrow> read_entries p (unat start) (unat num);
         let remoteAddr = paramSpace s + of_nat k * HYBM_SINGLE_PARAM_SIZE + paramOffset s;
         let maskAddr = paramSpace s + HYBM_PARAM_SPACE_META_OFFSET + of_nat k * 64 + paramOffset s;
         let (ret, m, d) = HybmBatchCopyExtend (aclOf e) remoteAddr tmpParam maskAddr st (paramMask s) (device s);
         let s = s\<lparr>paramMask := m, device := d\<rparr>;
         Some (if ret \<noteq> 0 then (Inl BM_ERROR, s\<lparr>paramMask := (paramMask s)[k := HYBM_EXTEND_CONCURRENT]\<rparr>) else (Inr (), s))
       }
   }"

fun extend_loop ::
    "'d sdma_env \<Rightarrow> hybm_batch_copy_params \<Rightarrow> u64 \<Rightarrow> u32 \<Rightarrow> nat \<Rightarrow> 'd sdma \<Rightarrow> ((result + unit) \<times> 'd sdma) cpp" where
  "extend_loop e p st idx 0 s = Some (Inr (), s)"
| "extend_loop e p st idx (Suc n) s =
     Option.bind (extend_step e p st idx s) (\<lambda>(r, s).
       case r of Inl ret \<Rightarrow> Some (Inl ret, s) | Inr _ \<Rightarrow> extend_loop e p st (idx + 1) n s)"

definition BatchCopyExtend :: "'d sdma_env \<Rightarrow> hybm_batch_copy_params \<Rightarrow> u64 \<Rightarrow> u32 \<Rightarrow> 'd sdma \<Rightarrow> (result \<times> 'd sdma) cpp" where
  "BatchCopyExtend e p stream fl s =
     (let (st, s) = (if stream \<noteq> 0 then (stream, s) else GetThreadAclStream e s);
          taskNum = (batchSize p + HYBM_SINGLE_PARAM_NUM - 1) div HYBM_SINGLE_PARAM_NUM
      in Option.bind (extend_loop e p st 0 (unat taskNum) s) (\<lambda>(r, s).
           case r of Inl ret \<Rightarrow> Some (ret, s)
           | Inr _ \<Rightarrow>
               if fl AND ASYNC_COPY_FLAG = 0 then
                 let (ret, m, d) = AclrtSynchronizeStream (aclOf e) st (paramMask s) (device s)
                 in Some (if ret = BM_OK then BM_OK else BM_ERROR, s\<lparr>paramMask := m, device := d\<rparr>)
               else Some (BM_OK, s)))"

text \<open>The loop that merges copies: the pending copy, the last error, and the entries from \<open>i\<close> on.\<close>

definition flush_copy ::
    "'d sdma_env \<Rightarrow> ExtOptions \<Rightarrow> u64 \<times> u64 \<times> u64 \<Rightarrow> result \<Rightarrow> 'd sdma \<Rightarrow> (result \<times> 'd sdma) cpp" where
  "flush_copy e opt = (\<lambda>(src, dest, len) ret s. do {
     (asyncRet, s) \<leftarrow> CopyG2GAsync e dest src len (extFlags opt) (extStream opt) s;
     Some (if asyncRet \<noteq> 0 then asyncRet else ret, s)
   })"

fun merge_loop ::
    "'d sdma_env \<Rightarrow> hybm_batch_copy_params \<Rightarrow> ExtOptions \<Rightarrow> nat \<Rightarrow> nat \<Rightarrow> u64 \<times> u64 \<times> u64 \<Rightarrow> result \<Rightarrow> 'd sdma \<Rightarrow>
      (result \<times> 'd sdma) cpp" where
  "merge_loop e p opt i 0 pending ret s = flush_copy e opt pending ret s"
| "merge_loop e p opt i (Suc n) (src, dest, len) ret s = do {
     (srcAddr, destAddr, count) \<leftarrow> batch_entry p i;
     if len > 0 \<and> src + len = srcAddr \<and> dest + len = destAddr then merge_loop e p opt (Suc i) n (src, dest, len + count) ret s
     else do {
       (ret, s) \<leftarrow> (if len > 0 then flush_copy e opt (src, dest, len) ret s else Some (ret, s));
       merge_loop e p opt (Suc i) n (srcAddr, destAddr, count) ret s
     }
   }"

definition BatchCopyG2G :: "'d sdma_env \<Rightarrow> hybm_batch_copy_params \<Rightarrow> ExtOptions \<Rightarrow> 'd sdma \<Rightarrow> (result \<times> 'd sdma) cpp" where
  "BatchCopyG2G e p opt s =
     (if extFlags opt AND COPY_EXTEND_FLAG \<noteq> 0 then BatchCopyExtend e p (extStream opt) (extFlags opt) s
      else do {
        (ret, s) \<leftarrow> merge_loop e p opt 0 (unat (batchSize p)) (0, 0, 0) 0 s;
        if extFlags opt AND ASYNC_COPY_FLAG = 0 then do {
          (asyncRet, s) \<leftarrow> sdma_Wait e s;
          Some (if asyncRet \<noteq> 0 then asyncRet else ret, s)
        }
        else Some (ret, s)
      })"

text \<open>One copy after the other, up to the first that fails; \<open>copy\<close> is one of the four copies through a buffer.\<close>

fun batch_each ::
    "(u64 \<Rightarrow> u64 \<Rightarrow> u64 \<Rightarrow> 'd sdma \<Rightarrow> (result \<times> 'd sdma) cpp) \<Rightarrow> hybm_batch_copy_params \<Rightarrow> nat \<Rightarrow> nat \<Rightarrow> 'd sdma \<Rightarrow> (result \<times> 'd sdma) cpp" where
  "batch_each copy p i 0 s = Some (BM_OK, s)"
| "batch_each copy p i (Suc n) s = do {
     (src, dest, count) \<leftarrow> batch_entry p i;
     (ret, s) \<leftarrow> copy dest src count s;
     if ret \<noteq> 0 then Some (ret, s) else batch_each copy p (Suc i) n s
   }"

definition BatchDataCopy ::
    "'d sdma_env \<Rightarrow> hybm_batch_copy_params \<Rightarrow> hybm_data_copy_direction \<Rightarrow> ExtOptions \<Rightarrow> 'd sdma \<Rightarrow> (result \<times> 'd sdma) cpp" where
  "BatchDataCopy e p dir opt s =
     (case dir of
        HYBM_LOCAL_HOST_TO_GLOBAL_DEVICE \<Rightarrow> batch_each (CopyLH2GD e) p 0 (unat (batchSize p)) s
      | HYBM_GLOBAL_DEVICE_TO_LOCAL_HOST \<Rightarrow> batch_each (CopyGD2LH e) p 0 (unat (batchSize p)) s
      | HYBM_LOCAL_HOST_TO_GLOBAL_HOST \<Rightarrow> batch_each (CopyLH2GH e) p 0 (unat (batchSize p)) s
      | HYBM_GLOBAL_HOST_TO_LOCAL_HOST \<Rightarrow> batch_each (CopyGH2LH e) p 0 (unat (batchSize p)) s
      | _ \<Rightarrow> BatchCopyG2G e p opt s)"

end
