(* ===== verification/Data_Op_Sdma_Properties.thy ===== *)
theory Data_Op_Sdma_Properties
  imports Data_Op_Sdma
begin

text \<open>
  What the SDMA operator guarantees: a batch makes the device execute exactly the byte moves of its entries, as long as they
  stay below the 4 GiB an entry can describe, temporary buffers are released, addresses are attributed to the right rank.
\<close>

unbundle bit_operations_syntax

section \<open>Streams over a driver that makes progress\<close>

lemma sync_loop_no_timeout:
  assumes "counts h acc fin" and "progresses h acc fin" and "holds H ts s" and "length ts = acc d" and "H \<le> fin d" and "length ts - H < n"
  shows "sync_loop h task n BM_OK s d \<noteq> Some (BM_TIMEOUT, s', d')"
  using assms(3-)
proof (induction n arbitrary: H s d)
  case (Suc n)
  have le: "fin x \<le> acc x" for x
    using assms(1) by (simp add: counts_def)
  show ?case
  proof (cases "sqHead s \<noteq> sqTail s \<and> TaskInRange s task")
    case True
    have "sqHead s < 2048"
      using Suc.prems(1) by (simp add: holds_def)
    then obtain e d1 where body: "sync_body h s d = Some (Inr BM_OK, s\<lparr>sqHead := slot (fin e)\<rparr>, d1)"
      and q: "HalSqCqQuery h (deviceId s) (tsId s) (sqId s) DRV_SQCQ_PROP_SQ_HEAD d = (0, slot (fin e), e)"
      and e: "fin d \<le> fin e" "fin e \<le> fin d1" "acc d1 = acc d"
      using counts_body [OF assms(1)] by metis
    have "acc e = acc d"
      by (rule counts_query [OF assms(1), of "deviceId s" "tsId s" "sqId s" d]) (simp add: q)
    moreover have "fin d < fin e \<or> fin e = acc e"
      using progresses_query [OF assms(2) q] .
    moreover have "H < length ts"
      using True Suc.prems(1) holds_empty_iff [OF Suc.prems(1)] by (simp add: holds_def order_less_le)
    ultimately have less: "H < fin e"
      using Suc.prems(2,3) by auto
    have "fin e \<le> length ts"
      using le [of d1] e Suc.prems(2) by simp
    then have "holds (fin e) ts (s\<lparr>sqHead := slot (fin e)\<rparr>)"
      using less by (intro holds_head [OF Suc.prems(1)]) simp_all
    moreover have "length ts - fin e < n"
      using less \<open>H < length ts\<close> Suc.prems(4) by linarith
    ultimately have "sync_loop h task n BM_OK (s\<lparr>sqHead := slot (fin e)\<rparr>) d1 \<noteq> Some (BM_TIMEOUT, s', d')"
      using Suc.prems(2) e by (intro Suc.IH) simp_all
    with True body show ?thesis
      by simp
  qed auto
qed simp

lemma sync_body_keeps: "sync_body h s d = Some (r, s', d') \<Longrightarrow> sqHead s < 2048 \<Longrightarrow> sqHead s' < 2048 \<and> s' = s\<lparr>sqHead := sqHead s'\<rparr>"
  by (auto simp: sync_body_def mod_ring_less advance_total bind_eq_Some_conv Let_def split: prod.splits if_splits)

lemma sync_loop_keeps: "sync_loop h task n ret s d = Some (r, s', d') \<Longrightarrow> sqHead s < 2048 \<Longrightarrow> s' = s\<lparr>sqHead := sqHead s'\<rparr>"
proof (induction n arbitrary: ret s d)
  case (Suc n)
  show ?case
  proof (cases "sqHead s \<noteq> sqTail s \<and> TaskInRange s task")
    case True
    then obtain a s1 d1 where b: "sync_body h s d = Some (a, s1, d1)"
      using Suc.prems(1) by (auto simp: bind_eq_Some_conv)
    have s1: "sqHead s1 < 2048" "s1 = s\<lparr>sqHead := sqHead s1\<rparr>"
      using sync_body_keeps [OF b Suc.prems(2)] by auto
    show ?thesis
    proof (cases a)
      case (Inr x)
      then have "s' = s1\<lparr>sqHead := sqHead s'\<rparr>"
        using Suc.IH [of x s1 d1] Suc.prems(1) True b s1(1) by simp
      also have "\<dots> = s\<lparr>sqHead := sqHead s'\<rparr>"
        by (subst s1(2)) simp
      finally show ?thesis .
    qed (use Suc.prems True b s1 in simp)
  qed (use Suc.prems in \<open>auto split: if_splits\<close>)
qed simp

lemma SubmitTasks_keeps:
  assumes "SubmitTasks h t s d = Some (r, s', d')" and "sqHead s < 2048"
  shows "streamId s' = streamId s \<and> wqeFlag s' = wqeFlag s"
proof (cases "inited s")
  case True
  then obtain r1 s1 d1 where s1: "(if (sqTail s + 40) mod 2048 = sqHead s then Synchronize h (sqHead s) s d else Some (BM_OK, s, d)) = Some (r1, s1, d1)"
    using assms by (auto simp: SubmitTasks_def bind_eq_Some_conv)
  have eq: "s1 = s\<lparr>sqHead := sqHead s1\<rparr>"
  proof (cases "(sqTail s + 40) mod 2048 = sqHead s")
    case sync: True
    then have "sync_loop h (sqHead s) 1000000 BM_OK s d = Some (r1, s1, d1)"
      using s1 True by (simp add: Synchronize_def)
    then show ?thesis
      using assms(2) by (rule sync_loop_keeps)
  qed (use s1 in simp)
  have "streamId s1 = streamId s" "wqeFlag s1 = wqeFlag s"
    using arg_cong [OF eq, of streamId] arg_cong [OF eq, of wqeFlag] by simp_all
  then show ?thesis
    using assms(1) True unfolding SubmitTasks_def s1(1) by (auto simp: Let_def split: if_splits prod.splits)
qed (use assms in \<open>simp add: SubmitTasks_def\<close>)

lemma SubmitTasks_accepts:
  assumes "counts h acc fin" and "sends_succeed h" and "progresses h acc fin" and "holds H ts s" and "length ts = acc d" and "H \<le> fin d"
  obtains s' d' H' where "SubmitTasks h t s d = Some (BM_OK, s', d')" and "holds H' (ts @ [t]) s'" and "length (ts @ [t]) = acc d'" and "H' \<le> fin d'"
    and "streamId s' = streamId s" and "wqeFlag s' = wqeFlag s"
proof -
  have head: "sqHead s < 2048" and init: "inited s" and room: "length ts \<le> H + 2008"
    using assms(4) by (simp_all add: holds_def)
  have "SubmitTasks h t s d \<noteq> Some (BM_ERROR, s', d')" for s' d'
  proof
    assume err: "SubmitTasks h t s d = Some (BM_ERROR, s', d')"
    obtain r1 s1 d1 where l: "sync_loop h (sqHead s) 1000000 BM_OK s d = Some (r1, s1, d1)" "r1 = BM_TIMEOUT \<or> r1 = BM_OK"
      using sync_loop_holds [OF assms(1,4-6), of "sqHead s" 1000000] by blast
    have "length ts - H < 1000000"
      using room by linarith
    then have "r1 = BM_OK"
      using sync_loop_no_timeout [OF assms(1,3-6), of 1000000 "sqHead s" s1 d1] l by auto
    with err init l show False
      by (auto simp: SubmitTasks_def Synchronize_def Let_def bind_eq_Some_conv split: if_splits prod.splits)
  qed
  then show thesis
    using SubmitTasks_holds [OF assms(1,4-6), of t] SubmitTasks_not_failed [OF assms(2), of t s d] SubmitTasks_keeps [OF _ head] that
    by (elim exE conjE disjE) (auto dest!: SubmitTasks_keeps [OF _ head])
qed

section \<open>Merged copies\<close>

text \<open>The bytes a copy moves, in order.\<close>

definition moves :: "u64 \<times> u64 \<times> u64 \<Rightarrow> (u64 \<times> u64) list" where
  "moves = (\<lambda>(src, dest, len). map (\<lambda>i. (src + of_nat i, dest + of_nat i)) [0..<unat len])"

fun merged :: "u64 \<times> u64 \<times> u64 \<Rightarrow> (u64 \<times> u64 \<times> u64) list \<Rightarrow> (u64 \<times> u64 \<times> u64) list" where
  "merged pending [] = [pending]"
| "merged (src, dest, len) ((srcAddr, destAddr, count) # es) =
     (if len > 0 \<and> src + len = srcAddr \<and> dest + len = destAddr then merged (src, dest, len + count) es
      else (if len > 0 then [(src, dest, len)] else []) @ merged (srcAddr, destAddr, count) es)"

definition total :: "(u64 \<times> u64 \<times> u64) list \<Rightarrow> nat" where
  "total es = (\<Sum>(_, _, len) \<leftarrow> es. unat len)"

lemma total_simps [simp]: "total [] = 0" "total ((a, b, len) # es) = unat len + total es"
  by (simp_all add: total_def)

lemma moves_zero [simp]: "moves (src, dest, 0) = []"
  by (simp add: moves_def)

lemma moves_join:
  assumes "unat len + unat count < 2 ^ 64"
  shows "moves (src, dest, len) @ moves (src + len, dest + len, count) = moves (src, dest, len + count)"
proof -
  have "unat (len + count) = unat len + unat count"
    using assms by (subst unat_add_lem [symmetric]) simp
  moreover have "[0..<unat len + unat count] = [0..<unat len] @ map (\<lambda>i. i + unat len) [0..<unat count]"
    using upt_add_eq_append [of 0 "unat len" "unat count"] map_add_upt [of "unat len" "unat count"] by (simp add: add.commute)
  ultimately show ?thesis
    by (simp add: moves_def comp_def add.assoc add.commute add.left_commute)
qed

lemma moves_merged:
  "unat len + total es < 2 ^ 64 \<Longrightarrow>
    concat (map moves (merged (src, dest, len) es)) = moves (src, dest, len) @ concat (map moves es)"
proof (induction "(src, dest, len)" es arbitrary: src dest len rule: merged.induct)
  case (2 src dest len srcAddr destAddr count es)
  show ?case
  proof (cases "len > 0 \<and> src + len = srcAddr \<and> dest + len = destAddr")
    case True
    have "unat len + unat count < 2 ^ 64"
      using 2(3) by simp
    moreover from this have "unat (len + count) = unat len + unat count"
      by (subst unat_add_lem [symmetric]) simp
    ultimately show ?thesis
      using True 2(1,3) moves_join [of len count src dest] by (simp add: append_assoc [symmetric] del: append_assoc)
  next
    case False
    then show ?thesis
      using 2(2,3) by (auto simp: word_gt_0)
  qed
qed simp

lemma total_merged: "unat len + total es < 2 ^ 64 \<Longrightarrow> total (merged (src, dest, len) es) = unat len + total es"
proof (induction "(src, dest, len)" es arbitrary: src dest len rule: merged.induct)
  case (2 src dest len srcAddr destAddr count es)
  show ?case
  proof (cases "len > 0 \<and> src + len = srcAddr \<and> dest + len = destAddr")
    case True
    have "unat (len + count) = unat len + unat count"
      using 2(3) by (subst unat_add_lem [symmetric]) simp
    then show ?thesis
      using True 2(1,3) by simp
  next
    case False
    then show ?thesis
      using 2(2,3) by (auto simp: word_gt_0)
  qed
qed simp

section \<open>What the driver receives\<close>

definition logs :: "'d hal \<Rightarrow> ('d \<Rightarrow> rtStarsSqe_t list) \<Rightarrow> bool" where
  "logs h lg \<longleftrightarrow>
     (\<forall>dev ts sq e d. lg (snd (HalSqTaskSend h dev ts sq e d)) = (if fst (HalSqTaskSend h dev ts sq e d) = 0 then lg d @ [e] else lg d)) \<and>
     (\<forall>dev ts sq p d. lg (snd (snd (HalSqCqQuery h dev ts sq p d))) = lg d)"

lemma logs_query: "logs h lg \<Longrightarrow> HalSqCqQuery h dev ts sq p d = (r, v, d') \<Longrightarrow> lg d' = lg d"
  unfolding logs_def by (metis snd_conv)

lemma sync_body_log:
  assumes "counts h acc fin" and "logs h lg" and "sync_body h s d = Some (r, s', d')"
  shows "lg d' = lg d"
proof -
  obtain e where e: "HalSqCqQuery h (deviceId s) (tsId s) (sqId s) DRV_SQCQ_PROP_SQ_HEAD d = (0, slot (fin e), e)"
    using counts_query [OF assms(1)] .
  obtain r1 d1 where d1: "HalSqCqQuery h (deviceId s) (tsId s) (sqId s) DRV_SQCQ_PROP_SQ_CQE_STATUS e = (r1, 0, d1)"
    using counts_status [OF assms(1)] .
  have "d' = d1"
    using assms(3) by (auto simp: sync_body_def GetSqHead_def GetCqeStatus_def e d1 slot_not_max bind_eq_Some_conv)
  then show ?thesis
    using logs_query [OF assms(2) e] logs_query [OF assms(2) d1] by simp
qed

lemma sync_loop_log:
  assumes "counts h acc fin" and "logs h lg"
  shows "sync_loop h task n ret s d = Some (r, s', d') \<Longrightarrow> lg d' = lg d"
proof (induction n arbitrary: ret s d)
  case (Suc n)
  show ?case
  proof (cases "sqHead s \<noteq> sqTail s \<and> TaskInRange s task")
    case True
    then obtain a s1 d1 where "sync_body h s d = Some (a, s1, d1)"
      using Suc.prems(1) by (auto simp: bind_eq_Some_conv)
    with True Suc sync_body_log [OF assms this] show ?thesis
      by (cases a) auto
  qed (use Suc.prems in \<open>auto split: if_splits\<close>)
qed simp

lemma SubmitTasks_log:
  assumes "counts h acc fin" and "logs h lg" and "SubmitTasks h t s d = Some (BM_OK, s', d')" and "sqHead s < 2048" and "inited s"
  shows "lg d' = lg d @ [set_task_id (sqTail s) (sqe t)]"
proof -
  obtain r1 s1 d1 where s1: "(if (sqTail s + 40) mod 2048 = sqHead s then Synchronize h (sqHead s) s d else Some (BM_OK, s, d)) = Some (r1, s1, d1)"
    using assms(3,5) by (auto simp: SubmitTasks_def bind_eq_Some_conv)
  have eq: "s1 = s\<lparr>sqHead := sqHead s1\<rparr>" and lg: "lg d1 = lg d"
  proof -
    show "s1 = s\<lparr>sqHead := sqHead s1\<rparr>"
    proof (cases "(sqTail s + 40) mod 2048 = sqHead s")
      case True
      then have "sync_loop h (sqHead s) 1000000 BM_OK s d = Some (r1, s1, d1)"
        using s1 assms(5) by (simp add: Synchronize_def)
      then show ?thesis
        using assms(4) by (rule sync_loop_keeps)
    qed (use s1 in simp)
    show "lg d1 = lg d"
    proof (cases "(sqTail s + 40) mod 2048 = sqHead s")
      case True
      then have "sync_loop h (sqHead s) 1000000 BM_OK s d = Some (r1, s1, d1)"
        using s1 assms(5) by (simp add: Synchronize_def)
      then show ?thesis
        by (rule sync_loop_log [OF assms(1,2)])
    qed (use s1 in simp)
  qed
  have tail: "sqTail s1 = sqTail s"
    using arg_cong [OF eq, of sqTail] by simp
  have send: "lg (snd (HalSqTaskSend h dev ts sq e x)) = (if fst (HalSqTaskSend h dev ts sq e x) = 0 then lg x @ [e] else lg x)" for dev ts sq e x
    using assms(2) by (simp add: logs_def)
  show ?thesis
    using assms(3,5) send [of "deviceId s1" "tsId s1" "sqId s1" "set_task_id (sqTail s) (sqe t)" d1]
    unfolding SubmitTasks_def s1(1) by (auto simp: Let_def tail lg split: if_splits prod.splits)
qed

section \<open>Copies of a batch\<close>

text \<open>The copy an entry of the queue stands for.\<close>

definition wide :: "u32 \<Rightarrow> u32 \<Rightarrow> u64" where
  "wide low high = push_bit 32 (ucast high) OR ucast low"

fun sqe_copy :: "rtStarsSqe_t \<Rightarrow> u64 \<times> u64 \<times> u64" where
  "sqe_copy (memcpyAsyncSqe m) = (wide (src_addr_low m) (src_addr_high m), wide (dst_addr_low m) (dst_addr_high m), ucast (mLength m))"
| "sqe_copy (notifySqe n) = (0, 0, 0)"

lemma ucast_mask: "(ucast (x AND 0xFFFFFFFF) :: u32) = ucast (x :: u64)"
proof -
  have "x AND 0xFFFFFFFF = take_bit 32 x"
    by (simp add: take_bit_eq_mask mask_eq_exp_minus_1)
  then show ?thesis
    by (intro bit_word_eqI) (simp only: bit_unsigned_iff bit_take_bit_iff, auto)
qed

lemma wide_split: "wide (ucast (a AND 0xFFFFFFFF)) (ucast (drop_bit 32 a AND 0xFFFFFFFF)) = (a :: u64)"
  unfolding ucast_mask wide_def by (rule bit_word_eqI) (auto simp: bit_simps)

lemma sqe_copy_fill: "sqe_copy (set_task_id k (sqe (g2g_task dest src count (g2g_base sid wqe)))) = (src, dest, ucast (ucast count :: u32))"
  by (simp add: g2g_task_def g2g_base_def wide_split)

lemma ucast_small: "unat (w :: u64) < 2 ^ 32 \<Longrightarrow> ucast (ucast w :: u32) = w"
  by (simp add: word_unat_eq_iff unsigned_ucast_eq unsigned_take_bit_eq take_bit_nat_eq_self)

text \<open>The thread has a stream on which the tasks \<open>ts\<close> were submitted.\<close>

definition ready :: "'d sdma_env \<Rightarrow> ('d \<Rightarrow> nat) \<Rightarrow> ('d \<Rightarrow> nat) \<Rightarrow> StreamTask list \<Rightarrow> 'd sdma \<Rightarrow> bool" where
  "ready e acc fin ts s \<longleftrightarrow> (\<exists>st H. map_of (threadStreams s) (tidOf e) = Some st \<and> holds H ts st \<and> length ts = acc (device s) \<and> H \<le> fin (device s))"

text \<open>A driver on which everything works: it counts, accepts, makes progress and keeps a log.\<close>

definition healthy :: "'d hal \<Rightarrow> ('d \<Rightarrow> nat) \<Rightarrow> ('d \<Rightarrow> nat) \<Rightarrow> ('d \<Rightarrow> rtStarsSqe_t list) \<Rightarrow> bool" where
  "healthy h acc fin lg \<longleftrightarrow> counts h acc fin \<and> sends_succeed h \<and> progresses h acc fin \<and> logs h lg"

lemma my_stream_ready: "ready e acc fin ts s \<Longrightarrow> my_stream e s = (Some (tidOf e), s)"
  by (auto simp: ready_def my_stream_def GetThreadHybmStream_def)

lemma CopyG2GAsync_ready:
  assumes "healthy (halOf e) acc fin lg" and "ready e acc fin ts s" and "fl AND ASYNC_COPY_FLAG = 0 \<or> stream = 0"
  obtains u s' sq where "CopyG2GAsync e dest src count fl stream s = Some (BM_OK, s')" and "ready e acc fin (ts @ [u]) s'"
    and "lg (device s') = lg (device s) @ [sq]" and "sqe_copy sq = (src, dest, ucast (ucast count :: u32))"
proof -
  have h: "counts (halOf e) acc fin" "sends_succeed (halOf e)" "progresses (halOf e) acc fin" "logs (halOf e) lg"
    using assms(1) by (simp_all add: healthy_def)
  obtain st H where st: "map_of (threadStreams s) (tidOf e) = Some st" "holds H ts st" "length ts = acc (device s)" "H \<le> fin (device s)"
    using assms(2) by (auto simp: ready_def)
  let ?u = "g2g_task dest src count (g2g_base (streamId st) (wqeFlag st))"
  obtain st' d' H' where sub: "SubmitTasks (halOf e) ?u st (device s) = Some (BM_OK, st', d')" "holds H' (ts @ [?u]) st'"
    "length (ts @ [?u]) = acc d'" "H' \<le> fin d'"
    by (rule SubmitTasks_accepts [OF h(1-3) st(2-4), of ?u])
  have "lg d' = lg (device s) @ [set_task_id (sqTail st) (sqe ?u)]"
    using st(2) by (intro SubmitTasks_log [OF h(1,4) sub(1)]) (simp_all add: holds_def)
  moreover have "ready e acc fin (ts @ [?u]) (s\<lparr>threadStreams := um_set (tidOf e) st' (threadStreams s), device := d'\<rparr>)"
    using sub(2-4) by (auto simp: ready_def)
  moreover have "(fl AND 1 \<noteq> 0 \<and> stream \<noteq> 0) = False"
    using assms(3) by auto
  then have "CopyG2GAsync e dest src count fl stream s = Some (BM_OK, s\<lparr>threadStreams := um_set (tidOf e) st' (threadStreams s), device := d'\<rparr>)"
    unfolding CopyG2GAsync_def by (simp only: if_False) (simp add: InitG2GStreamTask_def my_stream_ready [OF assms(2)] st(1) on_stream_def sub(1))
  ultimately show thesis
    using that [of _ ?u] by (simp add: sqe_copy_fill)
qed

lemma flush_copy_ready:
  assumes "healthy (halOf e) acc fin lg" and "ready e acc fin ts s" and "extFlags opt AND ASYNC_COPY_FLAG = 0 \<or> extStream opt = 0"
    and "unat len < 2 ^ 32"
  obtains u s' sq where "flush_copy e opt (src, dest, len) ret s = Some (ret, s')" and "ready e acc fin (ts @ [u]) s'"
    and "lg (device s') = lg (device s) @ [sq]" and "sqe_copy sq = (src, dest, len)"
proof -
  obtain u s' sq where "CopyG2GAsync e dest src len (extFlags opt) (extStream opt) s = Some (BM_OK, s')" "ready e acc fin (ts @ [u]) s'"
    "lg (device s') = lg (device s) @ [sq]" "sqe_copy sq = (src, dest, ucast (ucast len :: u32))"
    by (rule CopyG2GAsync_ready [OF assms(1-3)])
  then show thesis
    by (intro that [of s' u sq]) (simp_all add: flush_copy_def ucast_small [OF assms(4)])
qed

text \<open>The arguments of a batch, from a list of copies.\<close>

definition batch_of :: "(u64 \<times> u64 \<times> u64) list \<Rightarrow> hybm_batch_copy_params" where
  "batch_of es = \<lparr>sources = map fst es, destinations = map (fst \<circ> snd) es, dataSizes = map (snd \<circ> snd) es, batchSize = of_nat (length es)\<rparr>"

lemma batch_entry_of: "i < length es \<Longrightarrow> batch_entry (batch_of es) i = Some (es ! i)"
  by (simp add: batch_entry_def batch_of_def)

lemma merge_loop_ready:
  assumes "healthy (halOf e) acc fin lg" and "extFlags opt AND ASYNC_COPY_FLAG = 0 \<or> extStream opt = 0"
  shows "drop i es = rest \<Longrightarrow> ready e acc fin ts s \<Longrightarrow> unat len + total rest < 2 ^ 32 \<Longrightarrow>
    \<exists>us sqs s'. merge_loop e (batch_of es) opt i (length rest) (src, dest, len) ret s = Some (ret, s') \<and> ready e acc fin (ts @ us) s' \<and>
      lg (device s') = lg (device s) @ sqs \<and> map sqe_copy sqs = merged (src, dest, len) rest"
proof (induction rest arbitrary: i src dest len ts s)
  case Nil
  have "unat len < 2 ^ 32"
    using Nil by simp
  from flush_copy_ready [OF assms(1) Nil(2) assms(2) this, of src dest ret] obtain u s' sq where
    "flush_copy e opt (src, dest, len) ret s = Some (ret, s')" "ready e acc fin (ts @ [u]) s'"
    "lg (device s') = lg (device s) @ [sq]" "sqe_copy sq = (src, dest, len)" .
  then show ?case
    by (intro exI [of _ "[u]"] exI [of _ "[sq]"] exI [of _ s']) simp
next
  case (Cons x rest)
  obtain a b c where x: "x = (a, b, c)"
    by (cases x)
  have i: "i < length es" "es ! i = (a, b, c)" "drop (Suc i) es = rest"
    using Cons.prems(1) x by (metis drop_eq_Nil list.discI not_le, metis Cons_nth_drop_Suc drop_eq_Nil list.discI list.inject not_le,
      metis drop_Suc list.sel(3) tl_drop)
  have entry: "batch_entry (batch_of es) i = Some (a, b, c)"
    using batch_entry_of [OF i(1)] i(2) by simp
  have small: "unat len < 2 ^ 32" "unat len + unat c < 2 ^ 64" "unat c + total rest < 2 ^ 32"
    using Cons.prems(3) by (simp_all add: x)
  show ?case
  proof (cases "len > 0 \<and> src + len = a \<and> dest + len = b")
    case True
    have "unat (len + c) = unat len + unat c"
      using small(2) by (subst unat_add_lem [symmetric]) simp
    then show ?thesis
      using Cons.IH [OF i(3) Cons.prems(2), of "len + c" src dest] Cons.prems(3) True by (simp add: entry x)
  next
    case False
    show ?thesis
    proof (cases "len > 0")
      case True
      from flush_copy_ready [OF assms(1) Cons.prems(2) assms(2) small(1), of src dest ret] obtain u s1 sq where f:
        "flush_copy e opt (src, dest, len) ret s = Some (ret, s1)" "ready e acc fin (ts @ [u]) s1"
        "lg (device s1) = lg (device s) @ [sq]" "sqe_copy sq = (src, dest, len)" .
      from Cons.IH [OF i(3) f(2) small(3), of a b] obtain us sqs s' where
        "merge_loop e (batch_of es) opt (Suc i) (length rest) (a, b, c) ret s1 = Some (ret, s')" "ready e acc fin ((ts @ [u]) @ us) s'"
        "lg (device s') = lg (device s1) @ sqs" "map sqe_copy sqs = merged (a, b, c) rest"
        by blast
      with f False True show ?thesis
        by (intro exI [of _ "u # us"] exI [of _ "sq # sqs"] exI [of _ s']) (auto simp: entry x)
    next
      case zero: False
      from Cons.IH [OF i(3) Cons.prems(2) small(3), of a b] show ?thesis
        using False zero by (simp add: entry x)
    qed
  qed
qed

lemma sdma_Wait_ready:
  assumes "healthy (halOf e) acc fin lg" and "ready e acc fin ts s"
  obtains s' where "sdma_Wait e s = Some (BM_OK, s')" and "ready e acc fin ts s'" and "lg (device s') = lg (device s)" and "fin (device s') = acc (device s')"
proof -
  have h: "counts (halOf e) acc fin" "progresses (halOf e) acc fin" "logs (halOf e) lg"
    using assms(1) by (simp_all add: healthy_def)
  obtain st H where st: "map_of (threadStreams s) (tidOf e) = Some st" "holds H ts st" "length ts = acc (device s)" "H \<le> fin (device s)"
    using assms(2) by (auto simp: ready_def)
  have init: "inited st" "length ts \<le> H + 2008"
    using st(2) by (simp_all add: holds_def)
  then have "length ts - H < 1000000"
    by linarith
  then obtain st' d' where l: "sync_loop (halOf e) UINT32_MAX 1000000 BM_OK st (device s) = Some (BM_OK, st', d')" "holds (length ts) ts st'"
    "acc d' = length ts" "fin d' = length ts"
    using sync_loop_finishes [OF h(1,2) st(2-4)] by blast
  have "lg d' = lg (device s)"
    by (rule sync_loop_log [OF h(1,3) l(1)])
  then show thesis
    using l init by (intro that [of "s\<lparr>threadStreams := um_set (tidOf e) st' (threadStreams s), device := d'\<rparr>"])
      (auto simp: sdma_Wait_def my_stream_ready [OF assms(2)] on_stream_def st(1) Synchronize_def ready_def)
qed

text \<open>
  C4. A batch on the device copies exactly the bytes of its entries, in their order: when the calling thread has a stream, the
  driver is healthy and the sizes sum up to less than 4 GiB, \<open>BatchCopyG2G\<close> succeeds, and the entries it adds to the queue of the
  device, in which neighbouring copies are merged, stand for the same sequence of single-byte copies as the batch; without the flag for
  asynchronous copies the device has finished all of them.
\<close>

theorem batch_copies_every_byte:
  assumes "healthy (halOf e) acc fin lg" and "ready e acc fin ts s" and "extFlags opt AND COPY_EXTEND_FLAG = 0"
    and "extFlags opt AND ASYNC_COPY_FLAG = 0 \<or> extStream opt = 0" and "length es < 2 ^ 32" and "total es < 2 ^ 32"
  shows "\<exists>s' sqs. BatchCopyG2G e (batch_of es) opt s = Some (BM_OK, s') \<and> lg (device s') = lg (device s) @ sqs \<and>
    concat (map (moves \<circ> sqe_copy) sqs) = concat (map moves es) \<and>
    (extFlags opt AND ASYNC_COPY_FLAG = 0 \<longrightarrow> fin (device s') = acc (device s'))"
proof -
  have len: "unat (batchSize (batch_of es)) = length es"
    using assms(5) by (simp add: batch_of_def unsigned_of_nat take_bit_nat_eq_self)
  obtain us sqs s1 where m: "merge_loop e (batch_of es) opt 0 (length es) (0, 0, 0) 0 s = Some (0, s1)" "ready e acc fin (ts @ us) s1"
    "lg (device s1) = lg (device s) @ sqs" "map sqe_copy sqs = merged (0, 0, 0) es"
    using merge_loop_ready [OF assms(1,4) _ assms(2), of 0 es es 0 0 0 0] assms(6) by auto
  have moves: "concat (map (moves \<circ> sqe_copy) sqs) = concat (map moves es)"
    using moves_merged [of 0 es 0 0] assms(6) by (simp only: map_map [symmetric] m(4)) simp
  obtain s2 where "sdma_Wait e s1 = Some (BM_OK, s2)" "lg (device s2) = lg (device s1)" "fin (device s2) = acc (device s2)"
    by (rule sdma_Wait_ready [OF assms(1) m(2)])
  with m moves show ?thesis
    by (auto simp: BatchCopyG2G_def len assms(3))
qed

text \<open>A driver for examples: it keeps the accepted entries and finishes one more whenever it is asked for the head.\<close>

type_synonym recording = "rtStarsSqe_t list \<times> nat"

definition recording_hal :: "recording hal" where
  "recording_hal = \<lparr>HalResourceIdAlloc = (\<lambda>_ _ _ d. (0, 1, d)), HalResourceIdFree = (\<lambda>_ _ _ _ d. (0, d)),
     HalResourceConfig = (\<lambda>_ _ _ _ d. (0, d)), HalSqCqAllocate = (\<lambda>_ _ d. (0, \<lparr>oSqId = 1, oCqId = 1\<rparr>, d)),
     HalSqCqFree = (\<lambda>_ _ _ _ _ d. (0, d)), HalSqTaskSend = (\<lambda>_ _ _ q (es, f). (0, es @ [q], min (length es) f)),
     HalSqCqQuery = (\<lambda>_ _ _ p (es, f). if p = DRV_SQCQ_PROP_SQ_HEAD then (0, slot (min (length es) (Suc f)), es, min (length es) (Suc f))
       else (0, 0, es, f)),
     HalCqReportRecv = (\<lambda>_ _ _ _ d. (0, 0, [], d)), DrvNotifyIdAddrOffset = (\<lambda>_ _ _ d. (0, 0, d)), gettid = (\<lambda>_. 1)\<rparr>"

definition idle_acl :: "recording acl" where
  "idle_acl = \<lparr>AclrtMallocHost = (\<lambda>_ d. (0, 4096, d)), AclrtFreeHost = (\<lambda>_ d. d), HalHostRegister = (\<lambda>p _ _ d. (0, p, d)),
     HalHostUnregisterEx = (\<lambda>_ _ d. d), AclrtMalloc = (\<lambda>_ d. (0, 8192, d)), AclrtFree = (\<lambda>_ d. d), AclrtMemcpy = (\<lambda>_ _ _ _ d. (0, d)),
     RtMemcpyAsync = (\<lambda>_ _ _ _ d. (0, d)), AclrtCreateStream = (\<lambda>_ d. (0, 1, d)), AclrtSynchronizeStream = (\<lambda>_ m d. (0, m, d)),
     HybmCopyExtend = (\<lambda>_ _ _ _ d. (0, d)), HybmBatchCopyExtend = (\<lambda>_ _ _ _ m d. (0, m, d))\<rparr>"

definition example_env :: "recording sdma_env" where
  "example_env = \<lparr>halOf = recording_hal, aclOf = idle_acl, devIdOf = 0, tidOf = 7\<rparr>"

definition example_sdma :: "recording sdma" where
  "example_sdma = snd (my_stream example_env \<lparr>sdmaInited = True, paramSpace = 4096, paramOffset = 0, paramSpaceIdx = 0,
     paramMask = replicate 170 32, threadStreams = [], aclStreams = [], device = ([], 0)\<rparr>)"

definition example_options :: ExtOptions where
  "example_options = \<lparr>srcRankId = 0, destRankId = 1, extStream = 0, extFlags = 0, groupMap = []\<rparr>"

lemma recording_healthy: "healthy (halOf example_env) (length \<circ> fst) (\<lambda>(es, f). min (length es) f) fst"
  by (auto simp: healthy_def counts_def sends_succeed_def progresses_def logs_def example_env_def recording_hal_def)

lemma example_ready: "ready example_env (length \<circ> fst) (\<lambda>(es, f). min (length es) f) [] example_sdma"
proof -
  obtain r st d where init: "Initialize recording_hal (new_stream 0 0 0) ([], 0) = (r, st, d)"
    by (cases "Initialize recording_hal (new_stream 0 0 0) ([], 0)")
  then have ok: "r = BM_OK" "d = ([], 0)"
    by (auto simp: Initialize_def AllocStreamId_def AllocSqcq_def AllocLogicCq_def new_stream_def recording_hal_def)
  have "holds 0 [] st"
    using init unfolding ok(1) by (rule Initialize_holds)
  then show ?thesis
    by (auto simp: ready_def example_sdma_def my_stream_def GetThreadHybmStream_def example_env_def init ok)
qed

theorem batch_copies_every_byte_witness:
  "\<exists>s' sqs. BatchCopyG2G example_env (batch_of [(100, 200, 2), (102, 202, 3)]) example_options example_sdma = Some (BM_OK, s') \<and>
    fst (device s') = fst (device example_sdma) @ sqs \<and>
    concat (map (moves \<circ> sqe_copy) sqs) = [(100, 200), (101, 201), (102, 202), (103, 203), (104, 204)]"
  using batch_copies_every_byte [OF recording_healthy example_ready, of example_options "[(100, 200, 2), (102, 202, 3)]"]
  by (auto simp: example_options_def moves_def upt_conv_Cons)

text \<open>
  C36. Merged copies can lose their data: the size of an entry has 32 bits, and \<open>BatchCopyG2G\<close> merges without a bound. Two neighbouring
  copies that together have exactly 4 GiB become one entry of size zero; the device moves no byte, and the
  batch reports success.
\<close>

theorem merged_copy_truncated:
  assumes "healthy (halOf e) acc fin lg" and "ready e acc fin ts s" and "extFlags opt = 0"
    and "a > 0" and "unat a + unat b = 2 ^ 32"
  shows "\<exists>s' sq. BatchCopyG2G e (batch_of [(src, dest, a), (src + a, dest + a, b)]) opt s = Some (BM_OK, s') \<and>
    lg (device s') = lg (device s) @ [sq] \<and> moves (sqe_copy sq) = []"
proof -
  have ab: "a + b = 2 ^ 32"
    using assms(5) by (simp add: word_unat_eq_iff unat_word_ariths)
  have free: "extFlags opt AND ASYNC_COPY_FLAG = 0 \<or> extStream opt = 0"
    by (simp add: assms(3))
  obtain u s1 sq where c: "CopyG2GAsync e dest src (a + b) (extFlags opt) (extStream opt) s = Some (BM_OK, s1)" "ready e acc fin (ts @ [u]) s1"
    "lg (device s1) = lg (device s) @ [sq]" "sqe_copy sq = (src, dest, ucast (ucast (a + b) :: u32))"
    by (rule CopyG2GAsync_ready [OF assms(1,2) free])
  obtain s2 where w: "sdma_Wait e s1 = Some (BM_OK, s2)" "lg (device s2) = lg (device s1)"
    by (rule sdma_Wait_ready [OF assms(1) c(2)])
  have "moves (sqe_copy sq) = []"
    by (simp add: c(4) ab moves_def)
  moreover have "BatchCopyG2G e (batch_of [(src, dest, a), (src + a, dest + a, b)]) opt s = Some (BM_OK, s2)"
  proof -
    let ?p = "batch_of [(src, dest, a), (src + a, dest + a, b)]"
    have "merge_loop e ?p opt 0 (Suc (Suc 0)) (0, 0, 0) 0 s = Some (0, s1)"
      using assms(4) c(1) by (simp add: batch_of_def batch_entry_def flush_copy_def)
    moreover have "unat (batchSize ?p) = Suc (Suc 0)"
      by (simp add: batch_of_def)
    ultimately show ?thesis
      unfolding BatchCopyG2G_def by (simp add: assms(3) w(1))
  qed
  ultimately show ?thesis
    using c(3) w(2) by auto
qed

theorem merged_copy_truncated_witness:
  "\<exists>s' sq. BatchCopyG2G example_env (batch_of [(0, 2 ^ 40, 2 ^ 31), (2 ^ 31, 2 ^ 40 + 2 ^ 31, 2 ^ 31)]) example_options example_sdma = Some (BM_OK, s') \<and>
    fst (device s') = fst (device example_sdma) @ [sq] \<and> moves (sqe_copy sq) = []"
  using merged_copy_truncated [OF recording_healthy example_ready, of example_options "2 ^ 31" "2 ^ 31" 0 "2 ^ 40"]
  by (auto simp: example_options_def)

section \<open>Temporary buffers\<close>

text \<open>
  What is documented of the runtime: \<open>AclrtMalloc\<close> that succeeds gives a block that was not allocated, \<open>AclrtFree\<close> gives one back,
  no other call allocates or frees device memory. \<open>live\<close> is the set of allocated blocks.
\<close>

definition hal_keeps :: "'d hal \<Rightarrow> ('d \<Rightarrow> u64 set) \<Rightarrow> bool" where
  "hal_keeps h live \<longleftrightarrow>
     (\<forall>a b c d. live (snd (snd (HalResourceIdAlloc h a b c d))) = live d) \<and>
     (\<forall>a b c e d. live (snd (HalResourceIdFree h a b c e d)) = live d) \<and>
     (\<forall>a b c e d. live (snd (HalResourceConfig h a b c e d)) = live d) \<and>
     (\<forall>a b d. live (snd (snd (HalSqCqAllocate h a b d))) = live d) \<and>
     (\<forall>a b c e f d. live (snd (HalSqCqFree h a b c e f d)) = live d) \<and>
     (\<forall>a b c e d. live (snd (HalSqTaskSend h a b c e d)) = live d) \<and>
     (\<forall>a b c e d. live (snd (snd (HalSqCqQuery h a b c e d))) = live d) \<and>
     (\<forall>a b c e d. live (snd (snd (snd (HalCqReportRecv h a b c e d)))) = live d)"

definition tracks :: "'d sdma_env \<Rightarrow> ('d \<Rightarrow> u64 set) \<Rightarrow> bool" where
  "tracks e live \<longleftrightarrow> hal_keeps (halOf e) live \<and>
     (\<forall>n d ret p d'. AclrtMalloc (aclOf e) n d = (ret, p, d') \<longrightarrow>
        (if ret = 0 then p \<notin> live d \<and> live d' = insert p (live d) else live d' = live d)) \<and>
     (\<forall>p d. live (AclrtFree (aclOf e) p d) = live d - {p}) \<and>
     (\<forall>a b c k d. live (snd (AclrtMemcpy (aclOf e) a b c k d)) = live d) \<and>
     (\<forall>a b c k d. live (snd (RtMemcpyAsync (aclOf e) a b c k d)) = live d) \<and>
     (\<forall>a d. live (snd (snd (AclrtCreateStream (aclOf e) a d))) = live d) \<and>
     (\<forall>a m d. live (snd (snd (AclrtSynchronizeStream (aclOf e) a m d))) = live d) \<and>
     (\<forall>a b c k d. live (snd (HybmCopyExtend (aclOf e) a b c k d)) = live d)"

lemma hal_keepsD:
  assumes "hal_keeps h live"
  shows "HalResourceIdAlloc h a1 a2 a3 d = (r, x, d') \<Longrightarrow> live d' = live d"
    and "HalResourceIdFree h b1 b2 b3 b4 d = (r, d') \<Longrightarrow> live d' = live d"
    and "HalResourceConfig h c1 c2 c3 c4 d = (r, d') \<Longrightarrow> live d' = live d"
    and "HalSqCqAllocate h e1 e2 d = (r, y, d') \<Longrightarrow> live d' = live d"
    and "HalSqCqFree h f1 f2 f3 f4 f5 d = (r, d') \<Longrightarrow> live d' = live d"
    and "HalSqTaskSend h g1 g2 g3 g4 d = (r, d') \<Longrightarrow> live d' = live d"
    and "HalSqCqQuery h q1 q2 q3 q4 d = (r, v, d') \<Longrightarrow> live d' = live d"
    and "HalCqReportRecv h l1 l2 l3 l4 d = (r, n, rs, d') \<Longrightarrow> live d' = live d"
  using assms unfolding hal_keeps_def by (metis snd_conv)+

lemma free_keeps: "hal_keeps h live \<Longrightarrow> live (snd (HalSqCqFree h f1 f2 f3 f4 f5 d)) = live d"
  by (simp add: hal_keeps_def)

lemma Initialize_live:
  assumes "hal_keeps h live" and "Initialize h s d = (r, s', d')"
  shows "live d' = live d"
  using assms(2) by (auto simp: Initialize_def AllocStreamId_def AllocSqcq_def AllocLogicCq_def Let_def free_keeps [OF assms(1)] split: if_splits prod.splits
    dest!: hal_keepsD [OF assms(1)])

lemma Destroy_live:
  assumes "hal_keeps h live" and "Destroy h s d = (s', d')"
  shows "live d' = live d"
  using assms(2) by (auto simp: Destroy_def Let_def split: if_splits prod.splits dest!: hal_keepsD [OF assms(1)])

lemma receive_loop_live: "receive_loop h s lastTask retFlag d = Some y \<Longrightarrow> hal_keeps h live \<longrightarrow> live (snd (snd y)) = live d"
proof (rule receive_loop.raw_induct [where P = "\<lambda>h s lastTask retFlag d y. hal_keeps h live \<longrightarrow> live (snd (snd y)) = live d"], rule impI)
  fix rec h s lastTask retFlag d y
  assume IH: "\<And>h s lastTask retFlag d y. rec h s lastTask retFlag d = Some y \<Longrightarrow> hal_keeps h live \<longrightarrow> live (snd (snd y)) = live d"
    and eq: "(let (ret, num, reports, d) = HalCqReportRecv h (deviceId s) (tsId s) (logicCq s) (streamId s) d in
      if ret \<noteq> 0 then Some (BM_DL_FUNCTION_FAILED, lastTask, d)
      else if num > RT_MILAN_MAX_QUERY_CQE_NUM then Some (BM_INVALID_PARAM, lastTask, d)
      else Option.bind (read_reports s (take (unat num) (reports @ replicate 32 no_report)) lastTask retFlag) (\<lambda>(lastTask, retFlag).
        if num = 0 then Some (retFlag, lastTask, d) else rec h s lastTask retFlag d)) = Some y"
    and keeps: "hal_keeps h live"
  obtain ret num reports d1 where recv: "HalCqReportRecv h (deviceId s) (tsId s) (logicCq s) (streamId s) d = (ret, num, reports, d1)"
    by (cases "HalCqReportRecv h (deviceId s) (tsId s) (logicCq s) (streamId s) d")
  have "live (snd (snd y)) = live d1"
    using eq keeps by (auto simp: recv bind_eq_Some_conv split: if_splits dest!: IH)
  then show "live (snd (snd y)) = live d"
    using hal_keepsD(8) [OF keeps recv] by simp
qed

lemma sync_body_live:
  assumes "hal_keeps h live" and "sync_body h s d = Some (r, s', d')"
  shows "live d' = live d"
  using assms(2) by (auto simp: sync_body_def GetSqHead_def GetCqeStatus_def ReceiveCqe_def bind_eq_Some_conv Let_def assms(1) split: if_splits prod.splits
    dest!: hal_keepsD(7) [OF assms(1)] receive_loop_live [where live = live])

lemma sync_loop_live: "hal_keeps h live \<Longrightarrow> sync_loop h task n ret s d = Some (r, s', d') \<Longrightarrow> live d' = live d"
proof (induction n arbitrary: ret s d)
  case (Suc n)
  show ?case
  proof (cases "sqHead s \<noteq> sqTail s \<and> TaskInRange s task")
    case True
    then obtain a s1 d1 where "sync_body h s d = Some (a, s1, d1)"
      using Suc.prems by (auto simp: bind_eq_Some_conv)
    with True Suc sync_body_live [OF Suc.prems(1) this] show ?thesis
      by (cases a) auto
  qed (use Suc.prems in \<open>auto split: if_splits\<close>)
qed simp

lemma Synchronize_live: "hal_keeps h live \<Longrightarrow> Synchronize h task s d = Some (r, s', d') \<Longrightarrow> live d' = live d"
  by (auto simp: Synchronize_def split: if_splits dest: sync_loop_live)

lemma SubmitTasks_live:
  assumes "hal_keeps h live" and "SubmitTasks h t s d = Some (r, s', d')"
  shows "live d' = live d"
  using assms(2) by (auto simp: SubmitTasks_def bind_eq_Some_conv Let_def split: if_splits prod.splits
    dest!: Synchronize_live [OF assms(1)] hal_keepsD(6) [OF assms(1)])

lemma tracks_hal: "tracks e live \<Longrightarrow> hal_keeps (halOf e) live"
  by (simp add: tracks_def)

lemma tracksD:
  assumes "tracks e live"
  shows "AclrtMemcpy (aclOf e) a1 a2 a3 a4 d = (r, d') \<Longrightarrow> live d' = live d"
    and "RtMemcpyAsync (aclOf e) b1 b2 b3 b4 d = (r, d') \<Longrightarrow> live d' = live d"
    and "AclrtCreateStream (aclOf e) c1 d = (r, st, d') \<Longrightarrow> live d' = live d"
    and "AclrtSynchronizeStream (aclOf e) f1 f2 d = (r, m, d') \<Longrightarrow> live d' = live d"
    and "HybmCopyExtend (aclOf e) g1 g2 g3 g4 d = (r, d') \<Longrightarrow> live d' = live d"
    and "live (AclrtFree (aclOf e) p d) = live d - {p}"
  using assms unfolding tracks_def by (metis snd_conv)+

lemma tracks_malloc:
  assumes "tracks e live" and "AclrtMalloc (aclOf e) n d = (r, p, d')"
  shows "if r = 0 then p \<notin> live d \<and> live d' = insert p (live d) else live d' = live d"
  using assms by (simp add: tracks_def)

lemma my_stream_live:
  assumes "tracks e live" and "my_stream e s = (p, s')"
  shows "live (device s') = live (device s)"
proof (cases "map_of (threadStreams s) (tidOf e)")
  case None
  obtain r st d1 where init: "Initialize (halOf e) (new_stream (devIdOf e) 0 0) (device s) = (r, st, d1)"
    by (cases "Initialize (halOf e) (new_stream (devIdOf e) 0 0) (device s)")
  obtain st2 d2 where des: "Destroy (halOf e) st d1 = (st2, d2)"
    by (cases "Destroy (halOf e) st d1")
  have "live d1 = live (device s)" "live d2 = live d1"
    using Initialize_live [OF tracks_hal [OF assms(1)] init] Destroy_live [OF tracks_hal [OF assms(1)] des] by simp_all
  then show ?thesis
    using assms(2) None by (auto simp: my_stream_def GetThreadHybmStream_def init des split: if_splits)
qed (use assms(2) in \<open>auto simp: my_stream_def GetThreadHybmStream_def\<close>)

lemma on_stream_live:
  assumes "\<And>st r st' d'. f st (device s) = Some (r, st', d') \<Longrightarrow> live d' = live (device s)" and "on_stream p f s = Some (r, s')"
  shows "live (device s') = live (device s)"
  using assms by (auto simp: on_stream_def split: option.splits)

lemma InitG2G_live: "tracks e live \<Longrightarrow> InitG2GStreamTask e s = (t, s') \<Longrightarrow> live (device s') = live (device s)"
  by (auto simp: InitG2GStreamTask_def split: prod.splits option.splits dest: my_stream_live)

lemma acl_stream_live: "tracks e live \<Longrightarrow> GetThreadAclStream e s = (t, s') \<Longrightarrow> live (device s') = live (device s)"
  by (auto simp: GetThreadAclStream_def Let_def split: prod.splits option.splits if_splits dest: tracksD(3))

lemma submit_stream_live: "tracks e live \<Longrightarrow> on_stream p (SubmitTasks (halOf e) t) s = Some (r, s') \<Longrightarrow> live (device s') = live (device s)"
  by (erule on_stream_live [rotated]) (auto dest: SubmitTasks_live [OF tracks_hal])

lemma sync_stream_live: "tracks e live \<Longrightarrow> on_stream p (Synchronize (halOf e) t) s = Some (r, s') \<Longrightarrow> live (device s') = live (device s)"
  by (erule on_stream_live [rotated]) (auto dest: Synchronize_live [OF tracks_hal])

text \<open>The start both copies on a stream have in common.\<close>

lemma prepare_live:
  assumes "tracks e live" and "InitG2GStreamTask e s = (task, s1)" and "my_stream e s1 = (p, s2)"
  shows "live (device s2) = live (device s)"
  using InitG2G_live [OF assms(1,2)] my_stream_live [OF assms(1,3)] by simp

lemma CopyG2GAsync_live:
  assumes "tracks e live" and "CopyG2GAsync e dest src count fl stream s = Some (r, s')"
  shows "live (device s') = live (device s)"
proof (cases "fl AND 1 \<noteq> 0 \<and> stream \<noteq> 0")
  case True
  obtain ret d where q: "(if fl AND COPY_EXTEND_FLAG \<noteq> 0 then HybmCopyExtend (aclOf e) src dest count stream (device s)
      else RtMemcpyAsync (aclOf e) dest src count stream (device s)) = (ret, d)"
    by (metis surj_pair)
  have "live d = live (device s)"
  proof (cases "fl AND COPY_EXTEND_FLAG \<noteq> 0")
    case True
    from q [unfolded if_P [OF True]] show ?thesis
      by (rule tracksD(5) [OF assms(1)])
  next
    case False
    from q [unfolded if_not_P [OF False]] show ?thesis
      by (rule tracksD(2) [OF assms(1)])
  qed
  moreover have "s' = s\<lparr>device := d\<rparr>"
    using assms(2) unfolding CopyG2GAsync_def if_P [OF True] q by simp
  ultimately show ?thesis
    by simp
next
  case False
  obtain task s1 where init: "InitG2GStreamTask e s = (task, s1)"
    by (cases "InitG2GStreamTask e s")
  obtain p s2 where "my_stream e s1 = (p, s2)"
    by (cases "my_stream e s1")
  note pre = init this
  have eq: "CopyG2GAsync e dest src count fl stream s = (case p of None \<Rightarrow> Some (BM_ERROR, s2)
      | Some t \<Rightarrow> Option.bind (on_stream t (SubmitTasks (halOf e) (g2g_task dest src count task)) s2)
          (\<lambda>(ret, s). Some (if ret \<noteq> 0 then BM_ERROR else BM_OK, s)))"
    unfolding CopyG2GAsync_def if_not_P [OF False] by (simp add: pre)
  show ?thesis
    using assms(2) prepare_live [OF assms(1) pre] unfolding eq
    by (cases p) (auto simp: bind_eq_Some_conv dest!: submit_stream_live [OF assms(1)])
qed

lemma CopyG2G_live:
  assumes "tracks e live" and "CopyG2G e dest src count fl stream s = Some (r, s')"
  shows "live (device s') = live (device s)"
proof (cases "fl AND 2 \<noteq> 0")
  case True
  obtain st s1 where st: "(if stream \<noteq> 0 then (stream, s) else GetThreadAclStream e s) = (st, s1)"
    by (metis surj_pair)
  then have "live (device s1) = live (device s)"
    by (auto split: if_splits dest: acl_stream_live [OF assms(1)])
  moreover obtain ret d where ext: "HybmCopyExtend (aclOf e) src dest count st (device s1) = (ret, d)"
    by (cases "HybmCopyExtend (aclOf e) src dest count st (device s1)")
  moreover obtain ret2 m d2 where syn: "AclrtSynchronizeStream (aclOf e) st (paramMask s1) d = (ret2, m, d2)"
    by (cases "AclrtSynchronizeStream (aclOf e) st (paramMask s1) d")
  moreover have "device s' = (if ret \<noteq> BM_OK then d else d2)"
    using assms(2) unfolding CopyG2G_def if_P [OF True] st by (auto simp: ext syn split: if_splits)
  ultimately show ?thesis
    using tracksD(5) [OF assms(1) ext] tracksD(4) [OF assms(1) syn] by simp
next
  case False
  obtain task s1 where init: "InitG2GStreamTask e s = (task, s1)"
    by (cases "InitG2GStreamTask e s")
  obtain p s2 where "my_stream e s1 = (p, s2)"
    by (cases "my_stream e s1")
  note pre = init this
  have eq: "CopyG2G e dest src count fl stream s = (case p of None \<Rightarrow> Some (BM_ERROR, s2)
      | Some t \<Rightarrow> Option.bind (on_stream t (SubmitTasks (halOf e) (g2g_task dest src count task)) s2)
          (\<lambda>(ret, s). if ret \<noteq> 0 then Some (BM_ERROR, s)
             else Option.bind (on_stream t (Synchronize (halOf e) UINT32_MAX) s) (\<lambda>(ret, s). Some (if ret \<noteq> 0 then BM_ERROR else BM_OK, s))))"
    unfolding CopyG2G_def if_not_P [OF False] by (simp add: pre)
  show ?thesis
    using assms(2) prepare_live [OF assms(1) pre] unfolding eq
    by (cases p) (auto simp: bind_eq_Some_conv split: if_splits dest!: submit_stream_live [OF assms(1)] sync_stream_live [OF assms(1)])
qed

lemma CopyLH2GD_live:
  assumes "tracks e live" and "CopyLH2GD e g ha count s = Some (r, s')"
  shows "live (device s') = live (device s)"
proof -
  obtain ret p d where m: "AclrtMalloc (aclOf e) count (device s) = (ret, p, d)"
    by (cases "AclrtMalloc (aclOf e) count (device s)")
  obtain ret2 d2 where c: "AclrtMemcpy (aclOf e) p ha count ACL_MEMCPY_HOST_TO_DEVICE d = (ret2, d2)"
    by (cases "AclrtMemcpy (aclOf e) p ha count ACL_MEMCPY_HOST_TO_DEVICE d")
  have d2: "live d2 = live d"
    by (rule tracksD(1) [OF assms(1) c])
  show ?thesis
  proof (cases "ret = 0")
    case True
    then have live: "p \<notin> live (device s)" "live d = insert p (live (device s))"
      using tracks_malloc [OF assms(1) m] by simp_all
    have "\<exists>x. device s' = AclrtFree (aclOf e) p x \<and> live x = live d"
    proof (cases "ret2 = 0")
      case copied: True
      obtain r3 s3 where g: "CopyG2G e g p count 0 0 (s\<lparr>device := d2\<rparr>) = Some (r3, s3)" "device s' = AclrtFree (aclOf e) p (device s3)"
        using assms(2) True copied by (auto simp: CopyLH2GD_def m c Let_def bind_eq_Some_conv)
      then show ?thesis
        using CopyG2G_live [OF assms(1) g(1)] d2 by auto
    next
      case False
      then have "device s' = AclrtFree (aclOf e) p d2"
        using assms(2) True by (auto simp: CopyLH2GD_def m c Let_def)
      then show ?thesis
        using d2 by blast
    qed
    then show ?thesis
      using live tracksD(6) [OF assms(1)] by auto
  next
    case False
    then have "s' = s\<lparr>device := d\<rparr>" "live d = live (device s)"
      using assms(2) tracks_malloc [OF assms(1) m] by (auto simp only: CopyLH2GD_def m Let_def prod.case option.inject prod.inject if_True if_False
        simp_thms)
    then show ?thesis
      by simp
  qed
qed

lemma CopyGD2LH_live:
  assumes "tracks e live" and "CopyGD2LH e ha g count s = Some (r, s')"
  shows "live (device s') = live (device s)"
proof -
  obtain ret p d where m: "AclrtMalloc (aclOf e) count (device s) = (ret, p, d)"
    by (cases "AclrtMalloc (aclOf e) count (device s)")
  show ?thesis
  proof (cases "ret = 0")
    case True
    then have live: "p \<notin> live (device s)" "live d = insert p (live (device s))"
      using tracks_malloc [OF assms(1) m] by simp_all
    obtain r2 s2 where g: "CopyG2G e p g count 0 0 (s\<lparr>device := d\<rparr>) = Some (r2, s2)"
      using assms(2) True by (auto simp: CopyGD2LH_def m Let_def bind_eq_Some_conv)
    have s2: "live (device s2) = live d"
      using CopyG2G_live [OF assms(1) g] by simp
    obtain ret3 d3 where c: "AclrtMemcpy (aclOf e) ha p count ACL_MEMCPY_DEVICE_TO_HOST (device s2) = (ret3, d3)"
      by (cases "AclrtMemcpy (aclOf e) ha p count ACL_MEMCPY_DEVICE_TO_HOST (device s2)")
    have "device s' = AclrtFree (aclOf e) p (if r2 \<noteq> BM_OK then device s2 else d3)"
      using assms(2) True by (auto simp: CopyGD2LH_def m g c Let_def split: if_splits)
    then show ?thesis
      using live s2 tracksD(1) [OF assms(1) c] tracksD(6) [OF assms(1)] by auto
  next
    case False
    then have "s' = s\<lparr>device := d\<rparr>" "live d = live (device s)"
      using assms(2) tracks_malloc [OF assms(1) m] by (auto simp only: CopyGD2LH_def m Let_def prod.case option.inject prod.inject if_True if_False
        simp_thms)
    then show ?thesis
      by simp
  qed
qed

text \<open>
  C17. No copy leaks device memory: over a runtime whose \<open>AclrtMalloc\<close> and \<open>AclrtFree\<close> keep a set of allocated blocks, every call of
  \<open>DataCopy\<close>, in whatever direction, synchronous or not, and whatever fails on the way, ends with the same blocks allocated as before, so
  each temporary buffer was released exactly once.
\<close>

theorem copies_release_buffers:
  assumes "tracks e live" and "DataCopy e p dir opt s = Some (r, s')"
  shows "live (device s') = live (device s)"
proof -
  note single = CopyG2G_live [OF assms(1)] CopyG2GAsync_live [OF assms(1)] CopyLH2GD_live [OF assms(1)] CopyGD2LH_live [OF assms(1)]
  show ?thesis
    using assms(2)
    by (cases dir) (simp_all add: DataCopy_def DataCopyAsync_def CopyLH2GH_def CopyGH2LH_def split: if_splits, (elim single | fastforce)+)
qed

text \<open>A device for the example: its state is the set of allocated blocks, and it has no streams left.\<close>

definition full_hal :: "u64 set hal" where
  "full_hal = \<lparr>HalResourceIdAlloc = (\<lambda>_ _ _ d. (1, 0, d)), HalResourceIdFree = (\<lambda>_ _ _ _ d. (0, d)),
     HalResourceConfig = (\<lambda>_ _ _ _ d. (0, d)), HalSqCqAllocate = (\<lambda>_ _ d. (0, \<lparr>oSqId = 1, oCqId = 1\<rparr>, d)),
     HalSqCqFree = (\<lambda>_ _ _ _ _ d. (0, d)), HalSqTaskSend = (\<lambda>_ _ _ _ d. (0, d)), HalSqCqQuery = (\<lambda>_ _ _ _ d. (0, 0, d)),
     HalCqReportRecv = (\<lambda>_ _ _ _ d. (0, 0, [], d)), DrvNotifyIdAddrOffset = (\<lambda>_ _ _ d. (0, 0, d)), gettid = (\<lambda>_. 1)\<rparr>"

definition tracking_acl :: "u64 set acl" where
  "tracking_acl = \<lparr>AclrtMallocHost = (\<lambda>_ d. (0, 4096, d)), AclrtFreeHost = (\<lambda>_ d. d), HalHostRegister = (\<lambda>p _ _ d. (0, p, d)),
     HalHostUnregisterEx = (\<lambda>_ _ d. d), AclrtMalloc = (\<lambda>_ d. if 8192 \<in> d then (1, 0, d) else (0, 8192, insert 8192 d)),
     AclrtFree = (\<lambda>p d. d - {p}), AclrtMemcpy = (\<lambda>_ _ _ _ d. (0, d)),
     RtMemcpyAsync = (\<lambda>_ _ _ _ d. (0, d)), AclrtCreateStream = (\<lambda>_ d. (0, 1, d)), AclrtSynchronizeStream = (\<lambda>_ m d. (0, m, d)),
     HybmCopyExtend = (\<lambda>_ _ _ _ d. (0, d)), HybmBatchCopyExtend = (\<lambda>_ _ _ _ m d. (0, m, d))\<rparr>"

theorem copies_release_buffers_witness:
  "\<exists>s'. DataCopy \<lparr>halOf = full_hal, aclOf = tracking_acl, devIdOf = 0, tidOf = 7\<rparr> \<lparr>cpSrc = 1, cpDest = 2, dataSize = 3\<rparr>
      HYBM_LOCAL_HOST_TO_GLOBAL_DEVICE example_options \<lparr>sdmaInited = True, paramSpace = 4096, paramOffset = 0, paramSpaceIdx = 0,
        paramMask = [], threadStreams = [], aclStreams = [], device = {5}\<rparr> = Some (BM_ERROR, s') \<and>
    device s' = {5}"
proof -
  let ?e = "\<lparr>halOf = full_hal, aclOf = tracking_acl, devIdOf = 0, tidOf = 7\<rparr>"
  let ?s = "\<lparr>sdmaInited = True, paramSpace = 4096, paramOffset = 0, paramSpaceIdx = 0,
        paramMask = [], threadStreams = [], aclStreams = [], device = {5}\<rparr>"
  have "tracks ?e id"
    by (auto simp: tracks_def hal_keeps_def full_hal_def tracking_acl_def split: if_splits)
  moreover obtain s' where "DataCopy ?e \<lparr>cpSrc = 1, cpDest = 2, dataSize = 3\<rparr> HYBM_LOCAL_HOST_TO_GLOBAL_DEVICE example_options ?s = Some (BM_ERROR, s')"
    by (simp add: DataCopy_def CopyLH2GD_def CopyG2G_def InitG2GStreamTask_def my_stream_def GetThreadHybmStream_def Initialize_def AllocStreamId_def
      Destroy_def new_stream_def full_hal_def tracking_acl_def example_options_def)
  ultimately show ?thesis
    using copies_release_buffers [of ?e id] by fastforce
qed

section \<open>Ranks of addresses\<close>

text \<open>
  The rank an address belongs to, as \<open>UpdateGvaSpace\<close> laid the ranks out one after the other.
\<close>

lemma rank_of_address:
  assumes "type \<noteq> HYBM_MEM_TYPE_BUTT" and "r < unat n" and "off < unat space" and "unat g + unat n * unat space < 2 ^ 64" and "unat n < 2 ^ 32"
    and "type = HYBM_MEM_TYPE_HOST \<Longrightarrow> \<not> in_space (sp HYBM_MEM_TYPE_DEVICE) (g + of_nat (r * unat space + off))"
  shows "GetRankIdByGva (g + of_nat (r * unat space + off)) (UpdateGvaSpace type g space n sp) = of_nat r"
proof -
  let ?x = "r * unat space + off"
  have "Suc r * unat space \<le> unat n * unat space"
    using assms(2) by (intro mult_le_mono1) simp
  then have x: "?x < unat n * unat space"
    using assms(3) by simp
  then have small: "?x < 2 ^ 64" "unat n * unat space < 2 ^ 64" "unat g + ?x < 2 ^ 64"
    using assms(4) by linarith+
  have ux: "unat (of_nat ?x :: u64) = ?x"
    using small(1) by (simp add: unsigned_of_nat take_bit_nat_eq_self del: of_nat_add of_nat_mult)
  have ns: "unat (n * space) = unat n * unat space"
    using small(2) by (simp add: unat_mult_lem [THEN iffD1])
  have gx: "unat (g + of_nat ?x) = unat g + ?x"
    using small(3) ux by (subst unat_add_lem [THEN iffD1]) (simp_all del: of_nat_add of_nat_mult)
  have gn: "unat (g + n * space) = unat g + unat n * unat space"
    using assms(4) ns by (subst unat_add_lem [THEN iffD1]) simp_all
  have "in_space \<lparr>gvaOf = g, localSpaceSize = space, rankCount = n\<rparr> (g + of_nat ?x)"
    using x by (simp add: in_space_def word_le_nat_alt word_less_nat_alt gx gn del: of_nat_add of_nat_mult)
  moreover have "?x div unat space = r"
    using assms(3) by (simp add: div_add1_eq)
  then have "(ucast ((of_nat ?x :: u64) div space) :: u32) = of_nat r"
    using assms(2,5) by (simp add: word_unat_eq_iff unsigned_ucast_eq unsigned_take_bit_eq unat_div unsigned_of_nat
      take_bit_nat_eq_self [OF small(1)] del: of_nat_add of_nat_mult)
  moreover have "space \<noteq> 0"
    using assms(3) by auto
  ultimately show ?thesis
    using assms(1,6) by (cases type) (simp_all add: GetRankIdByGva_def UpdateGvaSpace_def del: of_nat_add of_nat_mult)
qed

end
