(* ===== verification/Tag_Info.thy ===== *)
theory Tag_Info
  imports Str_Util Containers Hybm_Types
begin

unbundle bit_operations_syntax

text \<open>
  The tags of the ranks and the ways data moves between tags (\<^verbatim>\<open>src/hybm/csrc/entity/hybm_entity_tag_info.h/.cpp\<close>,
  \<open>HybmEntityTagInfo\<close>), with the data operator types of \<^verbatim>\<open>src/hybm/include/hybm_def.h\<close>. The two regular
  expressions of the source are predicates on byte strings: neither character class has the separator \<open>:\<close>,
  so a match, if there is one, is unique. The lock makes every operation one step.

  The lemmas show that a list of links that is accepted makes every link usable in the direction it is
  written in, that links only ever add operators, and what happens to the other direction.
\<close>

abbreviation (input) HYBM_DOP_TYPE_DEFAULT :: u32 where "HYBM_DOP_TYPE_DEFAULT \<equiv> 0"
abbreviation (input) HYBM_DOP_TYPE_MTE :: u32 where "HYBM_DOP_TYPE_MTE \<equiv> 1"
abbreviation (input) HYBM_DOP_TYPE_SDMA :: u32 where "HYBM_DOP_TYPE_SDMA \<equiv> 2"
abbreviation (input) HYBM_DOP_TYPE_DEVICE_RDMA :: u32 where "HYBM_DOP_TYPE_DEVICE_RDMA \<equiv> 4"
abbreviation (input) HYBM_DOP_TYPE_HOST_RDMA :: u32 where "HYBM_DOP_TYPE_HOST_RDMA \<equiv> 8"
abbreviation (input) HYBM_DOP_TYPE_HOST_TCP :: u32 where "HYBM_DOP_TYPE_HOST_TCP \<equiv> 16"
abbreviation (input) HYBM_DOP_TYPE_HOST_URMA :: u32 where "HYBM_DOP_TYPE_HOST_URMA \<equiv> 32"

record HybmEntityTagInfo =
  rankTagInfo :: "(u32 \<times> bytes) list"
  tagOpInfo :: "(bytes \<times> u32) list"

section \<open>The two patterns\<close>

definition is_upper :: "byte \<Rightarrow> bool" where
  "is_upper c \<longleftrightarrow> 65 \<le> c \<and> c \<le> 90"

definition is_tag_char :: "byte \<Rightarrow> bool" where
  "is_tag_char c \<longleftrightarrow> (97 \<le> c \<and> c \<le> 122) \<or> is_upper c \<or> isdigit c \<or> c = 95"

definition tag_ok :: "bytes \<Rightarrow> bool" where
  "tag_ok s \<longleftrightarrow> 1 \<le> length s \<and> length s \<le> 30 \<and> list_all is_tag_char s"

definition op_ok :: "bytes \<Rightarrow> bool" where
  "op_ok s \<longleftrightarrow> 8 \<le> length s \<and> length s \<le> 12 \<and> list_all (\<lambda>c. is_upper c \<or> c = 95) s"

definition match_tag_op :: "bytes \<Rightarrow> (bytes \<times> bytes \<times> bytes) option" where
  "match_tag_op s =
     (case dropWhile (\<lambda>c. c \<noteq> 58) s of
        [] \<Rightarrow> None
      | _ # r \<Rightarrow>
          (case dropWhile (\<lambda>c. c \<noteq> 58) r of
             [] \<Rightarrow> None
           | _ # tag2 \<Rightarrow>
               let tag1 = takeWhile (\<lambda>c. c \<noteq> 58) s; op = takeWhile (\<lambda>c. c \<noteq> 58) r
               in if tag_ok tag1 \<and> op_ok op \<and> tag_ok tag2 then Some (tag1, op, tag2) else None))"

definition str2OpTypeMap :: "(bytes \<times> u32) list" where
  "str2OpTypeMap =
     [(str ''DEVICE_SDMA'', HYBM_DOP_TYPE_SDMA), (str ''DEVICE_RDMA'', HYBM_DOP_TYPE_DEVICE_RDMA),
      (str ''HOST_RDMA'', HYBM_DOP_TYPE_HOST_RDMA), (str ''HOST_TCP'', HYBM_DOP_TYPE_HOST_TCP),
      (str ''HOST_URMA'', HYBM_DOP_TYPE_HOST_URMA), (str ''DEVICE_MTE'', HYBM_DOP_TYPE_MTE)]"

section \<open>Operations\<close>

definition AddRankTag :: "u32 \<Rightarrow> bytes \<Rightarrow> HybmEntityTagInfo \<Rightarrow> result \<times> HybmEntityTagInfo" where
  "AddRankTag rankId tag t =
     (if tag = [] then (BM_OK, t)
      else if \<not> tag_ok tag then (BM_INVALID_PARAM, t)
      else (BM_OK, t\<lparr>rankTagInfo := um_set rankId tag (rankTagInfo t)\<rparr>))"

definition RemoveRankTag :: "u32 \<Rightarrow> HybmEntityTagInfo \<Rightarrow> result \<times> HybmEntityTagInfo" where
  "RemoveRankTag rankId t = (BM_OK, t\<lparr>rankTagInfo := um_erase rankId (rankTagInfo t)\<rparr>)"

definition GetTagByRank :: "u32 \<Rightarrow> HybmEntityTagInfo \<Rightarrow> bytes" where
  "GetTagByRank rankId t = (case map_of (rankTagInfo t) rankId of Some tag \<Rightarrow> tag | None \<Rightarrow> [])"

text \<open>The two tags with a colon between them.\<close>

definition tag_key :: "bytes \<Rightarrow> bytes \<Rightarrow> bytes" where
  "tag_key tag1 tag2 = tag1 @ 58 # tag2"

definition GetTag2TagOpType :: "bytes \<Rightarrow> bytes \<Rightarrow> HybmEntityTagInfo \<Rightarrow> u32" where
  "GetTag2TagOpType tag1 tag2 t =
     (case map_of (tagOpInfo t) (tag_key tag1 tag2) of
        Some op \<Rightarrow> op
      | None \<Rightarrow> (case map_of (tagOpInfo t) (tag_key tag2 tag1) of Some op \<Rightarrow> op | None \<Rightarrow> HYBM_DOP_TYPE_DEFAULT))"

definition GetRank2RankOpType :: "u32 \<Rightarrow> u32 \<Rightarrow> HybmEntityTagInfo \<Rightarrow> u32" where
  "GetRank2RankOpType rankId1 rankId2 t =
     (case map_of (rankTagInfo t) rankId1 of
        None \<Rightarrow> HYBM_DOP_TYPE_DEFAULT
      | Some tag1 \<Rightarrow>
          (case map_of (rankTagInfo t) rankId2 of
             None \<Rightarrow> HYBM_DOP_TYPE_DEFAULT
           | Some tag2 \<Rightarrow> GetTag2TagOpType tag1 tag2 t))"

definition GetAllOpType :: "HybmEntityTagInfo \<Rightarrow> u32" where
  "GetAllOpType t = fold (\<lambda>e opSet. opSet OR snd e) (tagOpInfo t) 0"

definition AddOneTagOpInfo :: "bytes \<Rightarrow> HybmEntityTagInfo \<Rightarrow> result \<times> HybmEntityTagInfo" where
  "AddOneTagOpInfo info t =
     (case match_tag_op info of
        None \<Rightarrow> (BM_INVALID_PARAM, t)
      | Some (tag1, opTypeStr, tag2) \<Rightarrow>
          (case map_of str2OpTypeMap opTypeStr of
             None \<Rightarrow> (BM_INVALID_PARAM, t)
           | Some b \<Rightarrow>
               let opType = GetTag2TagOpType tag1 tag2 t
               in (BM_OK, t\<lparr>tagOpInfo := um_set (tag_key tag1 tag2) (opType OR b) (tagOpInfo t)\<rparr>)))"

fun add_items :: "bytes list \<Rightarrow> HybmEntityTagInfo \<Rightarrow> result \<times> HybmEntityTagInfo" where
  "add_items [] t = (BM_OK, t)"
| "add_items (item # items) t =
     (let (ret, t) = AddOneTagOpInfo item t in if ret \<noteq> BM_OK then (ret, t) else add_items items t)"

definition AddTagOpInfo :: "bytes \<Rightarrow> HybmEntityTagInfo \<Rightarrow> result \<times> HybmEntityTagInfo" where
  "AddTagOpInfo info t = (if info = [] then (BM_OK, t) else add_items (Split info 44) t)"

text \<open>A \<open>char\<close> array as a string: without a terminator it is read past its end.\<close>

definition array_str :: "bytes \<Rightarrow> bytes cpp" where
  "array_str a = (if 0 \<in> set a then Some (c_str a) else None)"

text \<open>\<open>rankId\<close>, \<open>tag\<close> and \<open>tagInfo\<close> are the fields of the options the function reads.\<close>

definition TagInfoInit :: "u16 \<Rightarrow> bytes \<Rightarrow> bytes \<Rightarrow> HybmEntityTagInfo \<Rightarrow> (result \<times> HybmEntityTagInfo) cpp" where
  "TagInfoInit rankId tag tagInfo t =
     (case array_str tag of
        None \<Rightarrow> None
      | Some tag \<Rightarrow>
          let (ret, t) = AddRankTag (ucast rankId) tag t
          in if ret \<noteq> BM_OK then Some (ret, t)
             else (case array_str tagInfo of
                     None \<Rightarrow> None
                   | Some info \<Rightarrow> Some (AddTagOpInfo info t)))"

definition opType2StrMap :: "(u32 \<times> bytes) list" where
  "opType2StrMap =
     [(HYBM_DOP_TYPE_SDMA, str ''DEVICE_SDMA''), (HYBM_DOP_TYPE_DEVICE_RDMA, str ''DEVICE_RDMA''),
      (HYBM_DOP_TYPE_HOST_RDMA, str ''HOST_RDMA''), (HYBM_DOP_TYPE_HOST_TCP, str ''HOST_TCP''),
      (HYBM_DOP_TYPE_HOST_URMA, str ''HOST_URMA''), (HYBM_DOP_TYPE_MTE, str ''DEVICE_MTE'')]"

definition GetOpTypeStr :: "u32 \<Rightarrow> bytes" where
  "GetOpTypeStr op = (case map_of opType2StrMap op of Some s \<Rightarrow> s | None \<Rightarrow> str ''OP_TYPE_BUTT'')"

section \<open>Links\<close>

definition link :: "bytes \<Rightarrow> bytes \<Rightarrow> bytes \<Rightarrow> bytes" where
  "link tag1 op tag2 = tag1 @ 58 # op @ 58 # tag2"

lemma tag_char_no_colon: "\<not> is_tag_char 58"
  by (simp add: is_tag_char_def is_upper_def isdigit_def)

lemma tag_no_colon: "tag_ok s \<Longrightarrow> 58 \<notin> set s"
  using tag_char_no_colon by (auto simp: tag_ok_def list_all_iff)

lemma op_no_colon: "op_ok s \<Longrightarrow> 58 \<notin> set s"
  by (auto simp: op_ok_def list_all_iff is_upper_def)

lemma cut_at_colon:
  assumes "(58 :: byte) \<notin> set a"
  shows "takeWhile (\<lambda>c. c \<noteq> 58) (a @ 58 # b) = a" and "dropWhile (\<lambda>c. c \<noteq> 58) (a @ 58 # b) = 58 # b"
  using assms by (induction a) auto

lemma key_inject: "tag_ok a \<Longrightarrow> tag_ok c \<Longrightarrow> tag_key a b = tag_key c d \<longleftrightarrow> a = c \<and> b = d"
  unfolding tag_key_def by (metis cut_at_colon(1) cut_at_colon(2) list.inject tag_no_colon)

lemma dropWhile_colon: "dropWhile (\<lambda>c. c \<noteq> 58) s = x # r \<Longrightarrow> s = takeWhile (\<lambda>c. c \<noteq> 58) s @ (58 :: byte) # r"
  by (induction s) (auto split: if_splits)

lemma match_tag_op_iff:
  "match_tag_op s = Some (tag1, op, tag2) \<longleftrightarrow> s = link tag1 op tag2 \<and> tag_ok tag1 \<and> op_ok op \<and> tag_ok tag2"
proof
  assume "match_tag_op s = Some (tag1, op, tag2)"
  then obtain x r y where "dropWhile (\<lambda>c. c \<noteq> 58) s = x # r" "dropWhile (\<lambda>c. c \<noteq> 58) r = y # tag2"
    "tag1 = takeWhile (\<lambda>c. c \<noteq> 58) s" "op = takeWhile (\<lambda>c. c \<noteq> 58) r" "tag_ok tag1" "op_ok op" "tag_ok tag2"
    by (auto simp: match_tag_op_def Let_def split: list.splits if_splits)
  then show "s = link tag1 op tag2 \<and> tag_ok tag1 \<and> op_ok op \<and> tag_ok tag2"
    using dropWhile_colon [of s x r] dropWhile_colon [of r y tag2] by (simp add: link_def)
next
  assume "s = link tag1 op tag2 \<and> tag_ok tag1 \<and> op_ok op \<and> tag_ok tag2"
  then show "match_tag_op s = Some (tag1, op, tag2)"
    by (simp add: match_tag_op_def link_def cut_at_colon tag_no_colon op_no_colon)
qed

lemma AddOneTagOpInfo_okE:
  assumes "AddOneTagOpInfo info t = (BM_OK, t')"
  obtains tag1 op tag2 b where "info = link tag1 op tag2" "tag_ok tag1" "op_ok op" "tag_ok tag2" "map_of str2OpTypeMap op = Some b"
    "t' = t\<lparr>tagOpInfo := um_set (tag_key tag1 tag2) (GetTag2TagOpType tag1 tag2 t OR b) (tagOpInfo t)\<rparr>"
proof (cases "match_tag_op info")
  case None
  with assms show ?thesis
    by (simp add: AddOneTagOpInfo_def)
next
  case (Some m)
  obtain tag1 op tag2 where m: "m = (tag1, op, tag2)"
    by (cases m)
  with assms Some show ?thesis
    using that [of tag1 op tag2] by (cases "map_of str2OpTypeMap op") (simp_all add: AddOneTagOpInfo_def match_tag_op_iff Let_def)
qed

lemma GetTag2TagOpType_add:
  assumes "tag_ok tag1" and "tag_ok tag2" and "tag_ok a" and "tag_ok c"
  shows "GetTag2TagOpType a c (t\<lparr>tagOpInfo := um_set (tag_key tag1 tag2) v (tagOpInfo t)\<rparr>) =
    (if a = tag1 \<and> c = tag2 \<or> a = tag2 \<and> c = tag1 \<and> map_of (tagOpInfo t) (tag_key a c) = None then v
     else GetTag2TagOpType a c t)"
proof -
  have k: "(tag_key a c = tag_key tag1 tag2) = (a = tag1 \<and> c = tag2)" "(tag_key c a = tag_key tag1 tag2) = (a = tag2 \<and> c = tag1)"
    using key_inject [OF assms(3,1)] key_inject [OF assms(4,1)] by auto
  have m: "map_of (tagOpInfo (t\<lparr>tagOpInfo := um_set (tag_key tag1 tag2) v (tagOpInfo t)\<rparr>)) x =
    (if x = tag_key tag1 tag2 then Some v else map_of (tagOpInfo t) x)" for x
    by simp
  show ?thesis
  proof (cases "a = tag1 \<and> c = tag2")
    case True
    then show ?thesis
      unfolding GetTag2TagOpType_def m k by simp
  next
    case False
    then show ?thesis
      unfolding GetTag2TagOpType_def m k if_not_P [OF False]
      by (cases "a = tag2 \<and> c = tag1"; cases "map_of (tagOpInfo t) (tag_key a c)") (simp_all only: simp_thms if_True if_False option.case option.distinct)
  qed
qed

lemma OR_absorb: "(a :: u32) OR (a OR b) = a OR b" "(b :: u32) OR (a OR b) = a OR b"
  by (simp_all add: bit_eq_iff bit_simps) blast

lemma GetTag2TagOpType_flip: "map_of (tagOpInfo t) (tag_key a c) = None \<Longrightarrow> GetTag2TagOpType a c t OR GetTag2TagOpType c a t = GetTag2TagOpType c a t"
  by (simp add: GetTag2TagOpType_def split: option.splits)

text \<open>No link takes an operator away from a pair of tags.\<close>

lemma AddOneTagOpInfo_grows:
  assumes "AddOneTagOpInfo info t = (BM_OK, t')" and "tag_ok a" and "tag_ok c"
  shows "GetTag2TagOpType a c t OR GetTag2TagOpType a c t' = GetTag2TagOpType a c t'"
proof -
  obtain tag1 op tag2 b where *: "tag_ok tag1" "tag_ok tag2"
    "t' = t\<lparr>tagOpInfo := um_set (tag_key tag1 tag2) (GetTag2TagOpType tag1 tag2 t OR b) (tagOpInfo t)\<rparr>"
    using assms(1) by (rule AddOneTagOpInfo_okE) blast
  show ?thesis
    unfolding *(3) GetTag2TagOpType_add [OF *(1,2) assms(2,3)]
    by (auto simp: OR_absorb) (metis GetTag2TagOpType_flip or.assoc)
qed

lemma AddOneTagOpInfo_link:
  assumes "AddOneTagOpInfo (link tag1 op tag2) t = (BM_OK, t')" and "tag_ok tag1" and "op_ok op" and "tag_ok tag2"
    and "map_of str2OpTypeMap op = Some b"
  shows "b OR GetTag2TagOpType tag1 tag2 t' = GetTag2TagOpType tag1 tag2 t'"
proof -
  have "match_tag_op (link tag1 op tag2) = Some (tag1, op, tag2)"
    using assms by (simp add: match_tag_op_iff)
  then have "t' = t\<lparr>tagOpInfo := um_set (tag_key tag1 tag2) (GetTag2TagOpType tag1 tag2 t OR b) (tagOpInfo t)\<rparr>"
    using assms(1,5) by (simp add: AddOneTagOpInfo_def)
  then show ?thesis
    by (simp add: GetTag2TagOpType_add assms(2,4) OR_absorb)
qed

lemma add_items_grows:
  "add_items items t = (BM_OK, t') \<Longrightarrow> tag_ok a \<Longrightarrow> tag_ok c \<Longrightarrow>
    GetTag2TagOpType a c t OR GetTag2TagOpType a c t' = GetTag2TagOpType a c t'"
proof (induction items t rule: add_items.induct)
  case (2 item items t)
  obtain u where u: "AddOneTagOpInfo item t = (BM_OK, u)" "add_items items u = (BM_OK, t')"
    using 2(2) by (cases "AddOneTagOpInfo item t") (auto split: if_splits)
  have "GetTag2TagOpType a c u OR GetTag2TagOpType a c t' = GetTag2TagOpType a c t'"
    using 2(1) [of "(BM_OK, u)" BM_OK u] u 2(3,4) by simp
  then show ?case
    using AddOneTagOpInfo_grows [OF u(1) 2(3,4)] by (metis or.assoc)
qed simp

lemma add_items_link:
  "add_items items t = (BM_OK, t') \<Longrightarrow> link tag1 op tag2 \<in> set items \<Longrightarrow> tag_ok tag1 \<Longrightarrow> op_ok op \<Longrightarrow> tag_ok tag2 \<Longrightarrow>
    map_of str2OpTypeMap op = Some b \<Longrightarrow> b OR GetTag2TagOpType tag1 tag2 t' = GetTag2TagOpType tag1 tag2 t'"
proof (induction items t rule: add_items.induct)
  case (2 item items t)
  obtain u where u: "AddOneTagOpInfo item t = (BM_OK, u)" "add_items items u = (BM_OK, t')"
    using 2(2) by (cases "AddOneTagOpInfo item t") (auto split: if_splits)
  show ?case
  proof (cases "link tag1 op tag2 \<in> set items")
    case True
    then show ?thesis
      using 2(1) [of "(BM_OK, u)" BM_OK u] u 2(4-) by simp
  next
    case False
    then have "item = link tag1 op tag2"
      using 2(3) by auto
    then have "b OR GetTag2TagOpType tag1 tag2 u = GetTag2TagOpType tag1 tag2 u"
      using AddOneTagOpInfo_link u(1) 2(4-) by blast
    then show ?thesis
      using add_items_grows [OF u(2) 2(4) 2(6)] by (metis or.assoc)
  qed
qed simp

section \<open>Properties\<close>


definition no_tags :: HybmEntityTagInfo where
  "no_tags = \<lparr>rankTagInfo = [], tagOpInfo = []\<rparr>"


text \<open>
  C39. The directions of a link drift apart: \<open>GetTag2TagOpType\<close> takes a link in either direction, and \<open>AddOneTagOpInfo\<close> merges what
  it finds that way into the entry of the direction as written. A link written the other way round than an earlier
  one is therefore missing from the earlier direction.
\<close>

theorem reversed_link_is_one_way:
  assumes "AddTagOpInfo (link tag2 op tag1) t = (BM_OK, t')" and "tag_ok tag1" and "op_ok op" and "tag_ok tag2" and "tag1 \<noteq> tag2"
    and "map_of str2OpTypeMap op = Some b" and "map_of (tagOpInfo t) (tag_key tag1 tag2) = Some v"
  shows "GetTag2TagOpType tag2 tag1 t' AND b = b \<and> GetTag2TagOpType tag1 tag2 t' = v"
proof -
  have "44 \<notin> set (link tag2 op tag1)"
    using assms(2-4) by (auto simp: link_def tag_ok_def op_ok_def list_all_iff is_tag_char_def is_upper_def isdigit_def)
  then have "AddOneTagOpInfo (link tag2 op tag1) t = (BM_OK, t')"
    using assms(1) by (simp add: AddTagOpInfo_def Split_no_delim link_def split: prod.splits if_splits)
  then have t': "t' = t\<lparr>tagOpInfo := um_set (tag_key tag2 tag1) (GetTag2TagOpType tag2 tag1 t OR b) (tagOpInfo t)\<rparr>"
    using assms(2-4,6) match_tag_op_iff [of "link tag2 op tag1" tag2 op tag1] by (simp add: AddOneTagOpInfo_def)
  have "(x OR b) AND b = b" for x :: u32
    by (simp add: bit_eq_iff bit_simps)
  then show ?thesis
    unfolding t' using assms(5,7) by (simp add: GetTag2TagOpType_add assms(2,4)) (simp add: GetTag2TagOpType_def)
qed

theorem reversed_link_is_one_way_witness:
  "\<exists>t'. AddTagOpInfo (str ''b:HOST_RDMA:a'') (no_tags\<lparr>tagOpInfo := [(str ''a:b'', HYBM_DOP_TYPE_SDMA)]\<rparr>) = (BM_OK, t') \<and>
    GetTag2TagOpType (str ''b'') (str ''a'') t' AND HYBM_DOP_TYPE_HOST_RDMA = HYBM_DOP_TYPE_HOST_RDMA \<and>
    GetTag2TagOpType (str ''a'') (str ''b'') t' = HYBM_DOP_TYPE_SDMA"
proof -
  let ?t = "no_tags\<lparr>tagOpInfo := [(str ''a:b'', HYBM_DOP_TYPE_SDMA)]\<rparr>"
  have "fst (AddTagOpInfo (link (str ''b'') (str ''HOST_RDMA'') (str ''a'')) ?t) = BM_OK"
    and link: "link (str ''b'') (str ''HOST_RDMA'') (str ''a'') = str ''b:HOST_RDMA:a''"
    and "tag_ok (str ''a'')" and "op_ok (str ''HOST_RDMA'')" and "tag_ok (str ''b'')" and "str ''a'' \<noteq> str ''b''"
    and "map_of str2OpTypeMap (str ''HOST_RDMA'') = Some HYBM_DOP_TYPE_HOST_RDMA"
    and "map_of (tagOpInfo ?t) (tag_key (str ''a'') (str ''b'')) = Some HYBM_DOP_TYPE_SDMA"
    by code_simp+
  then show ?thesis
    using reversed_link_is_one_way [of "str ''b''" "str ''HOST_RDMA''" "str ''a''" ?t] unfolding link by (metis prod.collapse)
qed

end
