(* ===== verification/Transport.thy ===== *)
theory Transport
  imports Va_Manager Tag_Info
begin

unbundle bit_operations_syntax

text \<open>
  The interface of the transports (\<^verbatim>\<open>src/hybm/csrc/transport/hybm_transport_manager.h/.cpp\<close>,
  \<^verbatim>\<open>hybm_transport_common.h\<close> and \<open>CopyDescriptor\<close> of \<^verbatim>\<open>src/hybm/csrc/common/hybm_define.h\<close>). The virtual functions of
  \<open>TransportManager\<close> are the record \<open>'w transport\<close>, on a state \<open>'w\<close> that holds the object and the world it acts on; the
  host transport and the composed transport are values of this type, and the data operators take one as a
  parameter. A memory key is its 28 words: 14 for the device, 14 for the host.
\<close>

section \<open>Data\<close>

record TransportOptions =
  optRankId :: u32
  optRankCount :: u32
  optProtocol :: u32
  optNic :: bytes
  optTlsEnable :: bool

record TransportMemoryRegion =
  regAddr :: u64
  regSize :: u64
  regFlags :: u32

abbreviation (input) REG_MR_FLAG_DRAM :: u32 where "REG_MR_FLAG_DRAM \<equiv> 1"
abbreviation (input) REG_MR_FLAG_HBM :: u32 where "REG_MR_FLAG_HBM \<equiv> 2"
abbreviation (input) REG_MR_FLAG_SELF :: u32 where "REG_MR_FLAG_SELF \<equiv> 4"
abbreviation (input) KEY_SIZE :: nat where "KEY_SIZE \<equiv> 14"

type_synonym TransportMemoryKey = "u64 list"

definition zero_key :: TransportMemoryKey where
  "zero_key = replicate (KEY_SIZE * 2) 0"

text \<open>\<open>copy_n\<close> of words into an array: \<open>src\<close> replaces the words from position \<open>i\<close> on.\<close>

definition put_words :: "u64 list \<Rightarrow> nat \<Rightarrow> u64 list \<Rightarrow> u64 list" where
  "put_words src i dst = take i dst @ src @ drop (i + length src) dst"

definition ReadDeviceRdmaMemoryKey :: "TransportMemoryKey \<Rightarrow> TransportMemoryKey \<Rightarrow> TransportMemoryKey" where
  "ReadDeviceRdmaMemoryKey input output = put_words (take KEY_SIZE input) 0 output"

definition ReadHcomMemoryKey :: "TransportMemoryKey \<Rightarrow> TransportMemoryKey \<Rightarrow> TransportMemoryKey" where
  "ReadHcomMemoryKey input output = put_words (take KEY_SIZE (drop KEY_SIZE input)) 0 output"

definition WriteDeviceRdmaMemoryKey :: "TransportMemoryKey \<Rightarrow> TransportMemoryKey \<Rightarrow> TransportMemoryKey" where
  "WriteDeviceRdmaMemoryKey input output = put_words (take KEY_SIZE input) 0 output"

definition WriteHcomMemoryKey :: "TransportMemoryKey \<Rightarrow> TransportMemoryKey \<Rightarrow> TransportMemoryKey" where
  "WriteHcomMemoryKey input output = put_words (take KEY_SIZE input) KEY_SIZE output"

record TransportRankPrepareInfo =
  prepNic :: bytes
  prepMemKeys :: "TransportMemoryKey list"

type_synonym HybmTransPrepareOptions = "(u32 \<times> TransportRankPrepareInfo) list"

record CopyDescriptor =
  localAddrs :: "u64 list"
  globalAddrs :: "u64 list"
  cdCounts :: "u64 list"

text \<open>\<open>v[i]\<close> of a vector; outside it is undefined.\<close>

definition vec_at :: "'a list \<Rightarrow> u32 \<Rightarrow> 'a cpp" where
  "vec_at xs i = (if unat i < length xs then Some (xs ! unat i) else None)"

section \<open>The interface\<close>

record 'w transport =
  tmOpenDevice :: "TransportOptions \<Rightarrow> 'w \<Rightarrow> (result \<times> 'w) cpp"
  tmCloseDevice :: "'w \<Rightarrow> (result \<times> 'w) cpp"
  tmRegisterMemoryRegion :: "TransportMemoryRegion \<Rightarrow> 'w \<Rightarrow> (result \<times> 'w) cpp"
  tmUnregisterMemoryRegion :: "u64 \<Rightarrow> 'w \<Rightarrow> (result \<times> 'w) cpp"
  tmQueryHasRegistered :: "u64 \<Rightarrow> u64 \<Rightarrow> 'w \<Rightarrow> bool cpp"
  tmQueryMemoryKey :: "u64 \<Rightarrow> TransportMemoryKey \<Rightarrow> 'w \<Rightarrow> (result \<times> TransportMemoryKey) cpp"
  tmPrepare :: "HybmTransPrepareOptions \<Rightarrow> 'w \<Rightarrow> (result \<times> 'w) cpp"
  tmRemoveRanks :: "u32 list \<Rightarrow> 'w \<Rightarrow> (result \<times> 'w) cpp"
  tmConnect :: "'w \<Rightarrow> (result \<times> 'w) cpp"
  tmAsyncConnect :: "'w \<Rightarrow> (result \<times> 'w) cpp"
  tmWaitForConnected :: "int \<Rightarrow> 'w \<Rightarrow> (result \<times> 'w) cpp"
  tmUpdateRankOptions :: "HybmTransPrepareOptions \<Rightarrow> 'w \<Rightarrow> (result \<times> 'w) cpp"
  tmGetNic :: "'w \<Rightarrow> bytes"
  tmReadRemote :: "u32 \<Rightarrow> u64 \<Rightarrow> u64 \<Rightarrow> u64 \<Rightarrow> 'w \<Rightarrow> (result \<times> 'w) cpp"
  tmWriteRemote :: "u32 \<Rightarrow> u64 \<Rightarrow> u64 \<Rightarrow> u64 \<Rightarrow> 'w \<Rightarrow> (result \<times> 'w) cpp"
  tmReadRemoteAsync :: "u32 \<Rightarrow> u64 \<Rightarrow> u64 \<Rightarrow> u64 \<Rightarrow> 'w \<Rightarrow> (result \<times> 'w) cpp"
  tmWriteRemoteAsync :: "u32 \<Rightarrow> u64 \<Rightarrow> u64 \<Rightarrow> u64 \<Rightarrow> 'w \<Rightarrow> (result \<times> 'w) cpp"
  tmSynchronize :: "u32 \<Rightarrow> 'w \<Rightarrow> (result \<times> 'w) cpp"
  tmWriteRemoteBatchAsync :: "u32 \<Rightarrow> CopyDescriptor \<Rightarrow> 'w \<Rightarrow> (result \<times> 'w) cpp"
  tmReadRemoteBatchAsync :: "u32 \<Rightarrow> CopyDescriptor \<Rightarrow> 'w \<Rightarrow> (result \<times> 'w) cpp"

text \<open>\<open>connected_\<close> is passed in and returned.\<close>

definition ConnectWithOptions ::
    "'w transport \<Rightarrow> HybmTransPrepareOptions \<Rightarrow> bool \<Rightarrow> 'w \<Rightarrow> (result \<times> bool \<times> 'w) cpp" where
  "ConnectWithOptions tm options connected w =
     (if \<not> connected then do {
        (ret, w) \<leftarrow> tmPrepare tm options w;
        if ret \<noteq> BM_OK then Some (ret, connected, w)
        else do {
          (ret, w) \<leftarrow> tmConnect tm w;
          if ret \<noteq> BM_OK then Some (ret, connected, w) else Some (BM_OK, True, w)
        }
      }
      else do { (ret, w) \<leftarrow> tmUpdateRankOptions tm options w; Some (ret, connected, w) })"

section \<open>Keys\<close>

lemma length_zero_key [simp]: "length zero_key = 28"
  by (simp add: zero_key_def)

text \<open>The two halves of a composed key do not disturb each other.\<close>

lemma key_halves:
  assumes "length d = 28" and "length h = 28" and "length key = 28"
  shows "take 14 (ReadDeviceRdmaMemoryKey (WriteHcomMemoryKey h (WriteDeviceRdmaMemoryKey d key)) zero_key) = take 14 d"
    and "take 14 (ReadHcomMemoryKey (WriteHcomMemoryKey h (WriteDeviceRdmaMemoryKey d key)) zero_key) = take 14 h"
  using assms by (simp_all add: ReadDeviceRdmaMemoryKey_def ReadHcomMemoryKey_def WriteHcomMemoryKey_def WriteDeviceRdmaMemoryKey_def put_words_def)

end
