(* ===== verification/Hcom_Nic.thy ===== *)
theory Hcom_Nic
  imports Tag_Info
begin

unbundle bit_operations_syntax

text \<open>
  The network addresses of the host transport (\<^verbatim>\<open>src/hybm/csrc/transport/host/host_hcom_helper.h/.cpp\<close>,
  \<open>HostHcomHelper\<close>): the three forms a nic may have, the choice of a local address by a network mask and the choice of a
  protocol. The regular expressions are predicates on byte strings. Of the C library, \<open>inet_aton\<close>, \<open>inet_addr\<close> and
  \<open>inet_ntop\<close> are written out; an address is a 32-bit word whose top byte is the first of the four numbers, so the
  byte order of the machine does not show. The interfaces of the machine are a parameter.
\<close>

section \<open>Addresses of the C library\<close>

definition is_octal :: "byte \<Rightarrow> bool" where
  "is_octal c \<longleftrightarrow> 48 \<le> c \<and> c \<le> 55"

definition is_hex :: "byte \<Rightarrow> bool" where
  "is_hex c \<longleftrightarrow> isdigit c \<or> (65 \<le> c \<and> c \<le> 70) \<or> (97 \<le> c \<and> c \<le> 102)"

definition hex_value :: "byte \<Rightarrow> nat" where
  "hex_value c = (if isdigit c then unat c - 48 else if c \<le> 70 then unat c - 55 else unat c - 87)"

definition base_value :: "nat \<Rightarrow> bytes \<Rightarrow> nat" where
  "base_value b ds = foldl (\<lambda>n d. b * n + hex_value d) 0 ds"

text \<open>\<open>strtoul\<close> with base 0 at a digit: the value and the rest.\<close>

definition c_number :: "bytes \<Rightarrow> nat \<times> bytes" where
  "c_number s =
     (if length s > 2 \<and> s ! 0 = 48 \<and> (s ! 1 = 120 \<or> s ! 1 = 88) \<and> is_hex (s ! 2) then
        (base_value 16 (takeWhile is_hex (drop 2 s)), dropWhile is_hex (drop 2 s))
      else if s \<noteq> [] \<and> hd s = 48 then (base_value 8 (takeWhile is_octal s), dropWhile is_octal s)
      else (base_value 10 (takeWhile isdigit s), dropWhile isdigit s))"

text \<open>The parts before the last have one byte each, \<open>k\<close> of them may follow; the last one fills what is left.\<close>

definition aton_last :: "nat \<Rightarrow> nat \<Rightarrow> nat \<times> bytes \<Rightarrow> nat option" where
  "aton_last acc k vr =
     (let (v, r) = vr in
      if r \<noteq> [] \<and> \<not> isspace (hd r) then None
      else if v \<ge> 256 ^ Suc k then None
      else Some (acc * 256 ^ Suc k + v))"

fun aton_parts :: "nat \<Rightarrow> nat \<Rightarrow> bytes \<Rightarrow> nat option" where
  "aton_parts acc 0 s = (if s = [] \<or> \<not> isdigit (hd s) then None else aton_last acc 0 (c_number s))"
| "aton_parts acc (Suc k) s =
     (if s = [] \<or> \<not> isdigit (hd s) then None
      else let (v, r) = c_number s in
        if r \<noteq> [] \<and> hd r = 46 then if v > 255 then None else aton_parts (256 * acc + v) k (tl r)
        else aton_last acc (Suc k) (v, r))"

definition inet_aton :: "bytes \<Rightarrow> u32 option" where
  "inet_aton s = map_option of_nat (aton_parts 0 3 (c_str s))"

definition INADDR_NONE :: u32 where
  "INADDR_NONE = 0xFFFFFFFF"

definition inet_addr :: "bytes \<Rightarrow> u32" where
  "inet_addr s = (case inet_aton s of Some a \<Rightarrow> a | None \<Rightarrow> INADDR_NONE)"

definition octets :: "u32 \<Rightarrow> nat list" where
  "octets a = map (\<lambda>i. unat (drop_bit (24 - 8 * i) a AND 255)) [0, 1, 2, 3]"

fun dotted :: "nat list \<Rightarrow> bytes" where
  "dotted [] = []"
| "dotted [n] = dec_digits n"
| "dotted (n # ns) = dec_digits n @ 46 # dotted ns"

definition inet_ntop :: "u32 \<Rightarrow> bytes" where
  "inet_ntop a = dotted (octets a)"

section \<open>The patterns\<close>

definition digits_between :: "nat \<Rightarrow> nat \<Rightarrow> bytes \<Rightarrow> bool" where
  "digits_between lo hi s \<longleftrightarrow> lo \<le> length s \<and> length s \<le> hi \<and> list_all isdigit s"

text \<open>\<open>n\<close> more numbers of one to three digits, with dots between them.\<close>

fun dotted_numbers :: "nat \<Rightarrow> bytes \<Rightarrow> bool" where
  "dotted_numbers 0 s = digits_between 1 3 s"
| "dotted_numbers (Suc n) s =
     (digits_between 1 3 (takeWhile isdigit s) \<and>
      (case dropWhile isdigit s of c # r \<Rightarrow> c = 46 \<and> dotted_numbers n r | [] \<Rightarrow> False))"

definition TCP_PREFIX :: bytes where
  "TCP_PREFIX = str ''tcp://''"

definition UBC_PROTOCOL_PREFIX :: bytes where
  "UBC_PROTOCOL_PREFIX = str ''ubc://''"

definition match_ip_port :: "bytes \<Rightarrow> (bytes \<times> bytes \<times> bytes) option" where
  "match_ip_port nic =
     (let s = drop 6 nic; ip = takeWhile (\<lambda>c. c \<noteq> 58) s in
      case dropWhile (\<lambda>c. c \<noteq> 58) s of
        [] \<Rightarrow> None
      | _ # port \<Rightarrow>
          if take 6 nic = TCP_PREFIX \<and> dotted_numbers 3 ip \<and> digits_between 1 5 port then Some (TCP_PREFIX, ip, port) else None)"

definition match_ip_mask_port :: "bytes \<Rightarrow> (bytes \<times> bytes \<times> bytes \<times> bytes) option" where
  "match_ip_mask_port nic =
     (let s = drop 6 nic; ip = takeWhile (\<lambda>c. c \<noteq> 47) s in
      case dropWhile (\<lambda>c. c \<noteq> 47) s of
        [] \<Rightarrow> None
      | _ # r \<Rightarrow>
          (case dropWhile (\<lambda>c. c \<noteq> 58) r of
             [] \<Rightarrow> None
           | _ # port \<Rightarrow>
               let m = takeWhile (\<lambda>c. c \<noteq> 58) r in
               if take 6 nic = TCP_PREFIX \<and> dotted_numbers 3 ip \<and> digits_between 1 2 m \<and> digits_between 1 5 port
               then Some (TCP_PREFIX, ip, m, port) else None))"

text \<open>Seven groups of four hexadecimal digits and a colon, and a last group.\<close>

fun hex_groups :: "nat \<Rightarrow> bytes \<Rightarrow> bool" where
  "hex_groups 0 s = (length s = 4 \<and> list_all is_hex s)"
| "hex_groups (Suc n) s = (length s > 5 \<and> list_all is_hex (take 4 s) \<and> s ! 4 = 58 \<and> hex_groups n (drop 5 s))"

section \<open>HostHcomHelper\<close>

abbreviation (input) MIN_VALID_PORT :: int where "MIN_VALID_PORT \<equiv> 1024"
abbreviation (input) MAX_VALID_PORT :: int where "MAX_VALID_PORT \<equiv> 65535"
abbreviation (input) MAX_VALID_MASK :: int where "MAX_VALID_MASK \<equiv> 32"
abbreviation (input) UBC_START_PORT :: u32 where "UBC_START_PORT \<equiv> 512"

text \<open>The results of the analysis: protocol, address and port, which the callers pass in and get back.\<close>

type_synonym nic_parts = "bytes \<times> bytes \<times> u32"

definition AnalysisUBNic :: "bytes \<Rightarrow> nic_parts \<Rightarrow> result \<times> nic_parts" where
  "AnalysisUBNic nic out =
     (let input = StrTrim nic in
      if length input < length UBC_PROTOCOL_PREFIX then (BM_INVALID_PARAM, out)
      else let eid = drop (length UBC_PROTOCOL_PREFIX) input in
        if hex_groups 7 eid then (BM_OK, UBC_PROTOCOL_PREFIX, eid, UBC_START_PORT)
        else (BM_INVALID_PARAM, [], [], 0))"

text \<open>
  \<open>ifs\<close> is the result of \<open>getifaddrs\<close>: \<open>None\<close> if it fails, else the entries, where an entry without an IPv4 address is
  \<open>None\<close>. The shift by \<open>32 - mask\<close> is undefined for the mask 0.
\<close>

definition SelectLocalIpByIpMask :: "u32 option list option \<Rightarrow> bytes \<Rightarrow> int \<Rightarrow> bytes \<Rightarrow> (result \<times> bytes) cpp" where
  "SelectLocalIpByIpMask ifs ipStr m localIp =
     (let targetNet = inet_addr ipStr in
      if targetNet = INADDR_NONE then Some (BM_INVALID_PARAM, localIp)
      else if m = 0 then None
      else
        let netMask = push_bit (nat (32 - m)) 0xFFFFFFFF; targetNetwork = targetNet AND netMask in
        case ifs of
          None \<Rightarrow> Some (BM_ERROR, localIp)
        | Some addrs \<Rightarrow>
            (case find (\<lambda>a. a AND netMask = targetNetwork) (map the (filter (\<lambda>a. a \<noteq> None) addrs)) of
               Some a \<Rightarrow> Some (BM_OK, inet_ntop a)
             | None \<Rightarrow> Some (BM_ERROR, localIp)))"

text \<open>\<open>port\<close> is written by the conversion when it succeeds.\<close>

definition parse_port :: "bytes \<Rightarrow> u32 \<Rightarrow> bool \<times> u32" where
  "parse_port portStr port =
     (case String2Uint (2 ^ 32 - 1) portStr of
        None \<Rightarrow> (False, port)
      | Some p \<Rightarrow> (MIN_VALID_PORT \<le> p \<and> p \<le> MAX_VALID_PORT, of_int p))"

definition AnalysisNicWithMask :: "u32 option list option \<Rightarrow> bytes \<Rightarrow> nic_parts \<Rightarrow> (result \<times> nic_parts) cpp" where
  "AnalysisNicWithMask ifs nic out =
     (let (protocol, ipStr, port) = out in
      case match_ip_mask_port nic of
        None \<Rightarrow> Some (BM_INVALID_PARAM, out)
      | Some (protocol, ip, maskStr, portStr) \<Rightarrow>
          (case String2Int 32 maskStr of
             None \<Rightarrow> Some (BM_INVALID_PARAM, protocol, ipStr, port)
           | Some m \<Rightarrow>
               if m < 0 \<or> m > MAX_VALID_MASK then Some (BM_INVALID_PARAM, protocol, ipStr, port)
               else
                 let (ok, port) = parse_port portStr port in
                 if \<not> ok then Some (BM_INVALID_PARAM, protocol, ipStr, port)
                 else case SelectLocalIpByIpMask ifs ip m ipStr of
                   None \<Rightarrow> None
                 | Some (ret, localIp) \<Rightarrow> Some (ret, protocol, localIp, port)))"

definition AnalysisNic :: "u32 option list option \<Rightarrow> bytes \<Rightarrow> nic_parts \<Rightarrow> (result \<times> nic_parts) cpp" where
  "AnalysisNic ifs nic out =
     (let (protocol, ipStr, port) = out in
      if StartWith nic UBC_PROTOCOL_PREFIX then Some (AnalysisUBNic nic out)
      else if match_ip_mask_port nic \<noteq> None then AnalysisNicWithMask ifs nic out
      else case match_ip_port nic of
        None \<Rightarrow> Some (BM_INVALID_PARAM, out)
      | Some (protocol, ip, portStr) \<Rightarrow>
          let (ok, port) = parse_port portStr port in
          if \<not> ok then Some (BM_INVALID_PARAM, protocol, ip, port)
          else if inet_aton ip = None then Some (BM_INVALID_PARAM, protocol, ip, port)
          else Some (BM_OK, protocol, ip, port))"

datatype Service_Type = C_SERVICE_RDMA | C_SERVICE_TCP | C_SERVICE_UBC

definition HybmDopTransHcomProtocol :: "u32 \<Rightarrow> Service_Type" where
  "HybmDopTransHcomProtocol hybmDop =
     (if hybmDop AND HYBM_DOP_TYPE_HOST_TCP \<noteq> 0 then C_SERVICE_TCP
      else if hybmDop AND HYBM_DOP_TYPE_HOST_URMA \<noteq> 0 then C_SERVICE_UBC
      else C_SERVICE_RDMA)"

section \<open>Addresses round trip\<close>

lemma dec_digits_hd: "0 < n \<Longrightarrow> hd (dec_digits n) \<noteq> 48"
proof (induction n rule: dec_digits.induct)
  case (1 n)
  show ?case
  proof (cases "n < 10")
    case True
    then have "unat (of_nat (48 + n) :: byte) = 48 + n"
      using digit_byte by simp
    with True 1(2) show ?thesis
      by (subst dec_digits.simps) (auto simp: word_unat_eq_iff)
  next
    case False
    then have "hd (dec_digits (n div 10)) \<noteq> 48" and "dec_digits (n div 10) \<noteq> []"
      using 1(1) dec_digits_correct by auto
    with False show ?thesis
      by (subst dec_digits.simps) simp
  qed
qed

lemma hex_value_digit: "isdigit c \<Longrightarrow> hex_value c = unat c - 48"
  by (simp add: hex_value_def)

lemma base_value_digits: "\<forall>d \<in> set ds. isdigit d \<Longrightarrow> base_value 10 ds = digits_value ds"
proof -
  have "\<forall>d \<in> set ds. isdigit d \<Longrightarrow> foldl (\<lambda>n d. 10 * n + hex_value d) k ds = foldl (\<lambda>n d. 10 * n + (unat d - 48)) k ds" for k
    by (induction ds arbitrary: k) (simp_all add: hex_value_digit)
  then show "\<forall>d \<in> set ds. isdigit d \<Longrightarrow> base_value 10 ds = digits_value ds"
    by (simp add: base_value_def digits_value_def)
qed

lemma takeWhile_digits:
  assumes "\<forall>d \<in> set ds. isdigit d" and "r = [] \<or> \<not> isdigit (hd r)"
  shows "takeWhile isdigit (ds @ r) = ds" and "dropWhile isdigit (ds @ r) = r"
  using assms by (induction ds) (cases r; auto)+

lemma c_number_dec:
  assumes "r = [] \<or> hd r = 46"
  shows "c_number (dec_digits n @ r) = (n, r)"
proof (cases "n = 0")
  case True
  have "dec_digits 0 = [48]"
    by (simp add: dec_digits.simps)
  moreover have "r = [] \<or> r ! 0 = 46"
    using assms by (cases r) auto
  moreover have "takeWhile is_octal r = []" and "dropWhile is_octal r = r"
    using assms by (cases r; auto simp: is_octal_def)+
  ultimately show ?thesis
    using True by (auto simp: c_number_def base_value_def hex_value_def isdigit_def is_octal_def)
next
  case False
  have ds: "\<forall>d \<in> set (dec_digits n). isdigit d" "dec_digits n \<noteq> []" "digits_value (dec_digits n) = n"
    using dec_digits_correct by auto
  have r: "r = [] \<or> \<not> isdigit (hd r)"
    using assms by (auto simp: isdigit_def)
  have "hd (dec_digits n @ r) \<noteq> 48" and "(dec_digits n @ r) ! 0 \<noteq> 48"
    using dec_digits_hd [of n] False ds(2) by (simp_all add: hd_append nth_append hd_conv_nth)
  then show ?thesis
    unfolding c_number_def by (simp add: takeWhile_digits [OF ds(1) r] base_value_digits [OF ds(1)] ds(3))
qed

lemma dec_digits_first: "isdigit (hd (dec_digits n @ r)) \<and> dec_digits n @ r \<noteq> []"
  using dec_digits_correct [of n] by (simp add: hd_append)

lemma aton_dotted:
  "a < 256 \<Longrightarrow> b < 256 \<Longrightarrow> c < 256 \<Longrightarrow> d < 256 \<Longrightarrow>
    aton_parts 0 3 (dotted [a, b, c, d]) = Some (((a * 256 + b) * 256 + c) * 256 + d)"
  using dec_digits_first [of d "[]"] dec_digits_first
  by (simp add: numeral_3_eq_3 c_number_dec c_number_dec [of "[]", simplified] aton_last_def)

lemma octet: "unat (drop_bit k (a :: u32) AND 255) = unat a div 2 ^ k mod 256"
proof -
  have m: "x AND 255 = take_bit 8 x" for x :: u32
    by (simp add: take_bit_eq_mask mask_eq_exp_minus_1)
  have "unat (take_bit 8 (drop_bit k a)) = take_bit 8 (drop_bit k (take_bit 32 (unat a)))"
    by (simp only: unsigned_take_bit_eq unsigned_drop_bit_eq) simp
  also have "\<dots> = unat a div 2 ^ k mod 256"
    using unsigned_less [of a, where ?'a = nat] by (simp add: take_bit_eq_mod drop_bit_eq_div)
  finally show ?thesis
    by (simp only: m)
qed

lemma octets_join: "of_nat ((((octets a ! 0) * 256 + octets a ! 1) * 256 + octets a ! 2) * 256 + octets a ! 3) = a"
proof -
  define n where "n = unat a"
  have "n < 2 ^ 32"
    using unsigned_less [of a, where ?'a = nat] by (simp add: n_def)
  then have top: "n div 256 div 256 div 256 mod 256 = n div 256 div 256 div 256"
    by (simp add: div_mult2_eq [symmetric])
  have step: "m div 256 * 256 + m mod 256 = m" for m :: nat
    by simp
  have "((((octets a ! 0) * 256 + octets a ! 1) * 256 + octets a ! 2) * 256 + octets a ! 3) =
    (((n div 256 div 256 div 256 mod 256) * 256 + n div 256 div 256 mod 256) * 256 + n div 256 mod 256) * 256 + n mod 256"
    by (simp add: octets_def octet n_def div_mult2_eq [symmetric])
  also have "\<dots> = n"
    by (simp only: top step)
  finally show ?thesis
    by (simp add: n_def)
qed

lemma dec_digits_no_nul: "0 \<notin> set (dec_digits n)"
  using dec_digits_correct [of n] by (auto simp: isdigit_def)

lemma inet_roundtrip: "inet_aton (inet_ntop a) = Some a"
proof -
  have small: "\<forall>n \<in> set (octets a). n < 256"
    by (simp add: octets_def octet del: drop_bit_0)
  obtain i j k l where o: "octets a = [i, j, k, l]"
    by (auto simp: octets_def)
  have "c_str (dotted [i, j, k, l]) = dotted [i, j, k, l]"
    using dec_digits_no_nul by (intro c_str_id) simp
  then show ?thesis
    using small octets_join [of a] by (simp add: inet_aton_def inet_ntop_def o aton_dotted del: dotted.simps)
qed

lemma dotted_numbers_octets:
  "a < 1000 \<Longrightarrow> b < 1000 \<Longrightarrow> c < 1000 \<Longrightarrow> d < 1000 \<Longrightarrow> dotted_numbers 3 (dotted [a, b, c, d])"
proof -
  have one: "digits_between 1 3 (dec_digits n)" if "n < 1000" for n
    using that length_dec_digits [of n 3] dec_digits_correct [of n]
    by (simp add: digits_between_def list_all_iff Suc_le_eq)
  have cut: "takeWhile isdigit (dec_digits n @ 46 # r) = dec_digits n" "dropWhile isdigit (dec_digits n @ 46 # r) = 46 # r" for n r
    using takeWhile_digits [of "dec_digits n" "46 # r"] dec_digits_correct [of n] by (simp_all add: isdigit_def)
  show "a < 1000 \<Longrightarrow> b < 1000 \<Longrightarrow> c < 1000 \<Longrightarrow> d < 1000 \<Longrightarrow> ?thesis"
    using one [of a] one [of b] one [of c] one [of d] by (simp add: numeral_3_eq_3 cut)
qed

lemma dotted_chars: "c \<in> set (dotted ns) \<Longrightarrow> isdigit c \<or> c = 46"
  using dec_digits_correct by (induction ns rule: dotted.induct) auto

lemma String2Uint_dec: "n < 2 ^ 32 \<Longrightarrow> String2Uint (2 ^ 32 - 1) (dec_digits n) = Some (int n)"
proof -
  assume n: "n < 2 ^ 32"
  have ds: "dec_digits n \<noteq> []" "\<forall>d \<in> set (dec_digits n). isdigit d"
    using dec_digits_correct by auto
  then have "hd (dec_digits n) \<noteq> 45"
    using isdigit_neq by (metis list.set_sel(1))
  then show ?thesis
    using n scan_number_digits(1) [OF ds] by (simp add: String2Uint_def strtoull_def c_str_id dec_digits_no_nul)
qed

lemma same_network: "a AND push_bit k 0xFFFFFFFF = b AND push_bit k 0xFFFFFFFF \<longleftrightarrow> drop_bit k a = drop_bit k (b :: u32)"
proof -
  have ones: "(0xFFFFFFFF :: u32) = - 1"
    by simp
  have "a AND push_bit k 0xFFFFFFFF = b AND push_bit k 0xFFFFFFFF \<longleftrightarrow> (\<forall>n < 32. k \<le> n \<longrightarrow> bit a n = bit b n)"
    unfolding ones by (auto simp: bit_eq_iff bit_simps)
  also have "\<dots> \<longleftrightarrow> (\<forall>n. bit a (k + n) = bit b (k + n))"
  proof safe
    fix n
    assume *: "\<forall>n < 32. k \<le> n \<longrightarrow> bit a n = bit b n"
    have "x < 32" if "bit c x" for c :: u32 and x
      using bit_imp_le_length [OF that] by simp
    with * show "bit a (k + n) \<Longrightarrow> bit b (k + n)" and "bit b (k + n) \<Longrightarrow> bit a (k + n)"
      by (metis le_add1)+
  next
    fix n
    assume *: "\<forall>n. bit a (k + n) = bit b (k + n)" and "k \<le> n"
    then show "bit a n \<Longrightarrow> bit b n" and "bit b n \<Longrightarrow> bit a n"
      using spec [OF *, of "n - k"] by simp_all
  qed
  also have "\<dots> \<longleftrightarrow> drop_bit k a = drop_bit k b"
  proof -
    have "bit (drop_bit k c) n = bit c (k + n)" for c :: u32 and n
      by (simp add: bit_simps)
    then show ?thesis
      by (metis bit_eqI)
  qed
  finally show ?thesis .
qed

lemma AnalysisNic_tcp:
  assumes "1024 \<le> p" and "p \<le> 65535"
  shows "AnalysisNic ifs (TCP_PREFIX @ inet_ntop a @ 58 # dec_digits p) out = Some (BM_OK, TCP_PREFIX, inet_ntop a, of_nat p)"
proof -
  let ?nic = "TCP_PREFIX @ inet_ntop a @ 58 # dec_digits p"
  obtain i j k l where o: "octets a = [i, j, k, l]" and small: "i < 256" "j < 256" "k < 256" "l < 256"
    using octet [of _ a] by (auto simp: octets_def simp del: drop_bit_0)
  have "c \<noteq> 58 \<and> c \<noteq> 47" if "c \<in> set (inet_ntop a)" for c
    using dotted_chars [of c "octets a"] that by (auto simp: inet_ntop_def isdigit_def)
  then have chars: "58 \<notin> set (inet_ntop a)" "47 \<notin> set (inet_ntop a)"
    by auto
  have noslash: "47 \<notin> set (dec_digits p)"
    using dec_digits_correct [of p] by (auto simp: isdigit_def)
  have pre: "take 6 ?nic = TCP_PREFIX" "drop 6 ?nic = inet_ntop a @ 58 # dec_digits p"
    by (simp_all add: TCP_PREFIX_def str_def)
  have "digits_between 1 5 (dec_digits p)"
    using length_dec_digits [of p 5] dec_digits_correct [of p] assms by (simp add: digits_between_def list_all_iff Suc_le_eq)
  moreover have "dotted_numbers 3 (inet_ntop a)"
    using dotted_numbers_octets [of i j k l] small by (simp add: inet_ntop_def o del: dotted.simps)
  ultimately have m: "match_ip_port ?nic = Some (TCP_PREFIX, inet_ntop a, dec_digits p)"
    unfolding match_ip_port_def pre by (simp add: cut_at_colon [OF chars(1)])
  have "dropWhile (\<lambda>c. c \<noteq> 47) (inet_ntop a @ 58 # dec_digits p) = []"
    using chars(2) noslash by auto
  then have "match_ip_mask_port ?nic = None"
    unfolding match_ip_mask_port_def pre by (simp only: Let_def list.case)
  moreover have "\<not> StartWith ?nic UBC_PROTOCOL_PREFIX"
    by (simp add: StartWith_def TCP_PREFIX_def UBC_PROTOCOL_PREFIX_def str_def)
  moreover have "parse_port (dec_digits p) q = (True, of_nat p)" for q
    using assms String2Uint_dec [of p] by (simp add: parse_port_def)
  ultimately show ?thesis
    using m by (cases out) (simp add: AnalysisNic_def inet_roundtrip)
qed

section \<open>Properties\<close>



text \<open>
  The mask selects an address of the network: when \<open>SelectLocalIpByIpMask\<close> succeeds, the text it returns is the address of a
  local interface that agrees with the given address in the first \<open>mask\<close> bits; when it returns an error with
  the mask in range, no interface agrees with it.
\<close>

theorem mask_selects_network:
  assumes "1 \<le> m" and "m \<le> 32" and "inet_aton ip = Some target" and "target \<noteq> INADDR_NONE"
  shows "\<exists>ret l'. SelectLocalIpByIpMask (Some ifs) ip m l = Some (ret, l') \<and>
    (if ret = BM_OK then \<exists>a. Some a \<in> set ifs \<and> inet_aton l' = Some a \<and> drop_bit (nat (32 - m)) a = drop_bit (nat (32 - m)) target
     else \<forall>a. Some a \<in> set ifs \<longrightarrow> drop_bit (nat (32 - m)) a \<noteq> drop_bit (nat (32 - m)) target)"
proof -
  let ?near = "\<lambda>a. drop_bit (nat (32 - m)) a = drop_bit (nat (32 - m)) target" and ?as = "map the (filter (\<lambda>a. a \<noteq> None) ifs)"
  have sel: "SelectLocalIpByIpMask (Some ifs) ip m l =
    (case find ?near ?as of Some a \<Rightarrow> Some (BM_OK, inet_ntop a) | None \<Rightarrow> Some (BM_ERROR, l))"
    using assms by (simp add: SelectLocalIpByIpMask_def inet_addr_def Let_def same_network)
  have as: "a \<in> set ?as \<longleftrightarrow> Some a \<in> set ifs" for a
    by force
  show ?thesis
  proof (cases "find ?near ?as")
    case None
    then have "\<not> ?near a" if "Some a \<in> set ifs" for a
      using as that by (auto simp only: find_None_iff)
    moreover have "SelectLocalIpByIpMask (Some ifs) ip m l = Some (BM_ERROR, l)"
      unfolding sel None by simp
    ultimately show ?thesis
      by auto
  next
    case (Some a)
    then have "a \<in> set ?as" and "?near a"
      by (auto simp only: find_Some_iff nth_mem)
    moreover have "SelectLocalIpByIpMask (Some ifs) ip m l = Some (BM_OK, inet_ntop a)"
      unfolding sel Some by simp
    ultimately show ?thesis
      using as inet_roundtrip by auto
  qed
qed

theorem mask_selects_network_witness:
  "\<exists>l' a. SelectLocalIpByIpMask (Some [None, Some 0x7F000001, Some 0xC0A80005]) (inet_ntop 0xC0A80000) 16 [] = Some (BM_OK, l') \<and>
    inet_aton l' = Some a \<and> drop_bit 16 a = drop_bit 16 0xC0A80000"
proof -
  let ?ifs = "[None, Some 0x7F000001, Some 0xC0A80005]"
  obtain ret l' where "SelectLocalIpByIpMask (Some ?ifs) (inet_ntop 0xC0A80000) 16 [] = Some (ret, l')"
    and *: "if ret = BM_OK then \<exists>a. Some a \<in> set ?ifs \<and> inet_aton l' = Some a \<and> drop_bit (nat (32 - 16)) a = drop_bit (nat (32 - 16)) (0xC0A80000 :: u32)
      else \<forall>a. Some a \<in> set ?ifs \<longrightarrow> drop_bit (nat (32 - 16)) a \<noteq> drop_bit (nat (32 - 16)) (0xC0A80000 :: u32)"
    using mask_selects_network [of 16 "inet_ntop 0xC0A80000" "0xC0A80000" ?ifs "[]"] by (auto simp: inet_roundtrip INADDR_NONE_def)
  moreover have "ret = BM_OK"
    using * by (auto split: if_splits)
  ultimately show ?thesis
    by auto
qed

text \<open>A mask of zero bits is accepted by the analysis and then shifts a 32-bit number by 32.\<close>

lemma mask_zero_undefined:
  "inet_aton ip = Some target \<Longrightarrow> target \<noteq> INADDR_NONE \<Longrightarrow> SelectLocalIpByIpMask ifs ip 0 l = None"
  by (simp add: SelectLocalIpByIpMask_def inet_addr_def)

end
