(* ===== verification/Hcom_Transport.thy ===== *)
theory Hcom_Transport
  imports Transport Hcom_Nic
begin

unbundle bit_operations_syntax

text \<open>
  The host transport (\<^verbatim>\<open>src/hybm/csrc/transport/host/host_hcom_transport_manager.h/.cpp\<close>, \<open>HcomTransportManager\<close>) with its
  counter of outstanding transfers (\<^verbatim>\<open>host_hcom_counter_stream.h\<close>) and the key layout of \<^verbatim>\<open>host_hcom_common.h\<close>, for
  the builds with and without an accelerator.

  The library behind \<open>DlHcomApi\<close> is the parameter \<open>'d hcom_api\<close> on a state \<open>'d\<close>. It calls the callback of an asynchronous
  transfer when the transfer is finished; \<open>awaitCallbacks n\<close> is the wait of \<open>Synchronize\<close> for the last \<open>n\<close> of them, \<open>None\<close> if they
  never come. A \<open>None\<close> of an operation is a wait that does not end or an index outside a vector. The address
  manager is part of the state because registering memory changes it. The TLS callbacks, which read key files,
  are not modelled.
\<close>

definition HCOM_MAX_SLICE_SIZE :: "xpu \<Rightarrow> u64" where
  "HCOM_MAX_SLICE_SIZE b = (if b = NO_XPU then 1073741824 else 1048576)"

abbreviation (input) HCOM_IOV_BATCH_SIZE :: nat where "HCOM_IOV_BATCH_SIZE \<equiv> 4"

section \<open>Keys\<close>

record OneSideKey =
  oskKeys :: "u64 list"
  oskTokens :: "u64 list"
  oskEid :: "u64 list"

text \<open>\<open>CopyHcomOneSideKey\<close> in both directions; the 16 bytes of the \<open>eid\<close> are two words.\<close>

definition key_to_words :: "xpu \<Rightarrow> OneSideKey \<Rightarrow> TransportMemoryKey \<Rightarrow> TransportMemoryKey" where
  "key_to_words b from to =
     (let to = put_words (oskTokens from) (length (oskKeys from)) (put_words (oskKeys from) 0 to)
      in if b = NO_XPU then put_words (oskEid from) (length (oskTokens from) + length (oskKeys from)) to else to)"

definition words_to_key :: "xpu \<Rightarrow> TransportMemoryKey \<Rightarrow> OneSideKey \<Rightarrow> OneSideKey" where
  "words_to_key b from to =
     (let to = to\<lparr>oskKeys := take 4 from, oskTokens := take 4 (drop 4 from)\<rparr>
      in if b = NO_XPU then to\<lparr>oskEid := take 2 (drop 8 from)\<rparr> else to)"

definition zero_osk :: OneSideKey where
  "zero_osk = \<lparr>oskKeys = replicate 4 0, oskTokens = replicate 4 0, oskEid = replicate 2 0\<rparr>"

record Service_MemoryRegionInfo =
  smrAddress :: u64
  smrKey :: OneSideKey
  smrSize :: u64

abbreviation (input) TT_HCOM :: u64 where "TT_HCOM \<equiv> 1"

text \<open>The union \<open>RegMemoryKeyUnion\<close>: the bytes of a \<open>RegMemoryKey\<close> as the words of a common key.\<close>

definition host_key_words :: "Service_MemoryRegionInfo \<Rightarrow> TransportMemoryKey" where
  "host_key_words info = [TT_HCOM, smrAddress info] @ oskKeys (smrKey info) @ oskTokens (smrKey info) @ oskEid (smrKey info) @
     [smrSize info] @ replicate 15 0"

definition words_host_key :: "TransportMemoryKey \<Rightarrow> Service_MemoryRegionInfo" where
  "words_host_key k = \<lparr>smrAddress = k ! 1,
     smrKey = \<lparr>oskKeys = take 4 (drop 2 k), oskTokens = take 4 (drop 6 k), oskEid = take 2 (drop 10 k)\<rparr>, smrSize = k ! 12\<rparr>"

section \<open>The library and the state\<close>

text \<open>\<open>ServiceRegisterHandlers\<close> stands for the five calls that set the mode and register the handlers.\<close>

record OneSideRequest =
  reqLAddress :: u64
  reqRAddress :: u64
  reqLKey :: OneSideKey
  reqRKey :: OneSideKey
  reqSize :: u32

record 'd hcom_api =
  ServiceCreate :: "Service_Type \<Rightarrow> 'd \<Rightarrow> result \<times> u64 \<times> 'd"
  ServiceSetTlsOptions :: "u64 \<Rightarrow> bool \<Rightarrow> 'd \<Rightarrow> 'd"
  ServiceRegisterHandlers :: "u64 \<Rightarrow> 'd \<Rightarrow> 'd"
  ServiceSetDeviceIpMask :: "u64 \<Rightarrow> bytes \<Rightarrow> 'd \<Rightarrow> 'd"
  ServiceBind :: "u64 \<Rightarrow> bytes \<Rightarrow> 'd \<Rightarrow> 'd"
  ServiceStart :: "u64 \<Rightarrow> 'd \<Rightarrow> result \<times> 'd"
  ServiceDestroy :: "u64 \<Rightarrow> 'd \<Rightarrow> 'd"
  ServiceConnect :: "u64 \<Rightarrow> bytes \<Rightarrow> bytes \<Rightarrow> 'd \<Rightarrow> result \<times> u64 \<times> 'd"
  ServiceDisConnect :: "u64 \<Rightarrow> u64 \<Rightarrow> 'd \<Rightarrow> 'd"
  ServiceRegisterAssignMemoryRegion :: "u64 \<Rightarrow> u64 \<Rightarrow> u64 \<Rightarrow> 'd \<Rightarrow> result \<times> u64 \<times> 'd"
  ServiceGetMemoryRegionInfo :: "u64 \<Rightarrow> 'd \<Rightarrow> result \<times> Service_MemoryRegionInfo \<times> 'd"
  ServiceDestroyMemoryRegion :: "u64 \<Rightarrow> u64 \<Rightarrow> 'd \<Rightarrow> 'd"
  ImportUrmaSeg :: "u64 \<Rightarrow> u64 \<Rightarrow> u64 \<Rightarrow> OneSideKey \<Rightarrow> 'd \<Rightarrow> result \<times> OneSideKey \<times> 'd"
  ChannelGet :: "u64 \<Rightarrow> OneSideRequest \<Rightarrow> bool \<Rightarrow> 'd \<Rightarrow> result \<times> 'd"
  ChannelPut :: "u64 \<Rightarrow> OneSideRequest \<Rightarrow> bool \<Rightarrow> 'd \<Rightarrow> result \<times> 'd"
  ChannelGetV :: "u64 \<Rightarrow> OneSideRequest list \<Rightarrow> 'd \<Rightarrow> result \<times> 'd"
  ChannelPutV :: "u64 \<Rightarrow> OneSideRequest list \<Rightarrow> 'd \<Rightarrow> result \<times> 'd"
  awaitCallbacks :: "nat \<Rightarrow> 'd \<Rightarrow> 'd cpp"
  CloseTlsLib :: "'d \<Rightarrow> 'd"

text \<open>\<open>uninitKey\<close> is what an uninitialised key on the stack holds.\<close>

record 'd hcom_env =
  hcomApi :: "'d hcom_api"
  hcomBuild :: xpu
  hcomInterfaces :: "u32 option list option"
  uninitKey :: OneSideKey

record HcomMemoryRegion =
  mrAddr :: u64
  mrSize :: u64
  mrKey :: TransportMemoryKey
  mrHandle :: u64

text \<open>\<open>hcomStream\<close> is the counter of the calling thread, \<open>None\<close> before its first asynchronous transfer.\<close>

record 'd hcom =
  bmOptype :: u32
  hcomStream :: "int option"
  localNic :: bytes
  localIp :: bytes
  rpcService :: u64
  hcomRankId :: u32
  hcomRankCount :: u32
  mrs :: "HcomMemoryRegion list list"
  nics :: "bytes list"
  channels :: "u64 list"
  vaMgr :: HybmVaManager
  net :: 'd

section \<open>Counter stream\<close>

definition FinishOne :: "int \<Rightarrow> int" where
  "FinishOne num = num - 1"

definition stream_SubmitTasks :: "int \<Rightarrow> int \<Rightarrow> int" where
  "stream_SubmitTasks taskNum num = num + taskNum"

text \<open>The wait until \<open>num\<close> callbacks have come, after which the counter is reset.\<close>

definition stream_Synchronize :: "'d hcom_api \<Rightarrow> int \<Rightarrow> 'd \<Rightarrow> (int \<times> 'd) cpp" where
  "stream_Synchronize api num d = (if num \<le> 0 then Some (0, d) else do { d \<leftarrow> awaitCallbacks api (nat num) d; Some (0, d) })"

definition hcom_Synchronize :: "'d hcom_env \<Rightarrow> u32 \<Rightarrow> 'd hcom \<Rightarrow> (result \<times> 'd hcom) cpp" where
  "hcom_Synchronize e rankId s =
     (case hcomStream s of
        None \<Rightarrow> Some (BM_OK, s)
      | Some num \<Rightarrow> do {
          (num, d) \<leftarrow> stream_Synchronize (hcomApi e) num (net s);
          Some (BM_OK, s\<lparr>hcomStream := Some num, net := d\<rparr>)
        })"

definition PrepareThreadLocalStream :: "'d hcom \<Rightarrow> 'd hcom" where
  "PrepareThreadLocalStream s = (case hcomStream s of Some _ \<Rightarrow> s | None \<Rightarrow> s\<lparr>hcomStream := Some 0\<rparr>)"

section \<open>Opening and closing\<close>

definition CheckTransportOptions :: "'d hcom_env \<Rightarrow> TransportOptions \<Rightarrow> 'd hcom \<Rightarrow> (result \<times> 'd hcom) cpp" where
  "CheckTransportOptions e opt s = do {
     (ret, protocol, ip, basePort) \<leftarrow> AnalysisNic (hcomInterfaces e) (optNic opt) ([], localIp s, 0);
     let s = s\<lparr>localIp := ip\<rparr>;
     if ret \<noteq> BM_OK then Some (ret, s)
     else Some (BM_OK, s\<lparr>localNic := protocol @ ip @ 58 # to_string (uint (basePort + optRankId opt))\<rparr>)
   }"

definition hcom_OpenDevice :: "'d hcom_env \<Rightarrow> TransportOptions \<Rightarrow> 'd hcom \<Rightarrow> (result \<times> 'd hcom) cpp" where
  "hcom_OpenDevice e opt s =
     (if rpcService s \<noteq> 0 then Some (BM_OK, s)
      else do {
        (chk, s) \<leftarrow> CheckTransportOptions e opt s;
        if chk \<noteq> BM_OK then Some (BM_INVALID_PARAM, s)
        else
          let t = HybmDopTransHcomProtocol (optProtocol opt);
              (ret, svc, d) = ServiceCreate (hcomApi e) t (net s);
              s = s\<lparr>rpcService := svc, net := d\<rparr>
          in if ret \<noteq> 0 then Some (BM_DL_FUNCTION_FAILED, s)
             else
               let d = ServiceRegisterHandlers (hcomApi e) svc (ServiceSetTlsOptions (hcomApi e) svc (optTlsEnable opt) (net s));
                   d = (if t \<noteq> C_SERVICE_UBC then ServiceSetDeviceIpMask (hcomApi e) svc (localIp s @ str ''/32'') d else d);
                   (ret, d) = ServiceStart (hcomApi e) svc (ServiceBind (hcomApi e) svc (localNic s) d)
               in if ret \<noteq> 0 then Some (BM_DL_FUNCTION_FAILED, s\<lparr>net := ServiceDestroy (hcomApi e) svc d, rpcService := 0\<rparr>)
                  else
                    let n = unat (optRankCount opt)
                    in Some (BM_OK, s\<lparr>net := d, bmOptype := optProtocol opt, hcomRankId := optRankId opt,
                         hcomRankCount := optRankCount opt, mrs := replicate n [], nics := replicate n [],
                         channels := replicate n 0\<rparr>)
      })"

definition DisConnectHcomChannel :: "'d hcom_env \<Rightarrow> u32 \<Rightarrow> u64 \<Rightarrow> 'd hcom \<Rightarrow> 'd hcom cpp" where
  "DisConnectHcomChannel e rankId ch s =
     (if channels s = [] then Some s
      else if rankId \<ge> hcomRankCount s \<or> ch = 0 then Some s
      else do {
        let s = (if rpcService s \<noteq> 0 then s\<lparr>net := ServiceDisConnect (hcomApi e) (rpcService s) ch (net s)\<rparr> else s);
        c \<leftarrow> vec_at (channels s) rankId;
        Some (if c = ch then s\<lparr>channels := (channels s)[unat rankId := 0]\<rparr> else s)
      })"

fun close_channels :: "'d hcom_env \<Rightarrow> nat \<Rightarrow> nat \<Rightarrow> 'd hcom \<Rightarrow> 'd hcom cpp" where
  "close_channels e i 0 s = Some s"
| "close_channels e i (Suc n) s = do {
     c \<leftarrow> vec_at (channels s) (of_nat i);
     s \<leftarrow> (if c \<noteq> 0 then DisConnectHcomChannel e (of_nat i) c s else Some s);
     close_channels e (Suc i) n s
   }"

definition hcom_CloseDevice :: "'d hcom_env \<Rightarrow> 'd hcom \<Rightarrow> (result \<times> 'd hcom) cpp" where
  "hcom_CloseDevice e s =
     (if rpcService s = 0 then Some (BM_OK, s)
      else do {
        s \<leftarrow> close_channels e 0 (unat (hcomRankCount s)) s;
        Some (BM_OK, s\<lparr>net := CloseTlsLib (hcomApi e) (net s), rpcService := 0, localNic := [], localIp := [],
          hcomRankId := 0xFFFFFFFF, hcomRankCount := 0, mrs := [], nics := [], channels := []\<rparr>)
      })"

definition HcomChannelDisconnected :: "u32 \<Rightarrow> u64 \<Rightarrow> 'd hcom \<Rightarrow> 'd hcom cpp" where
  "HcomChannelDisconnected rankId ch s = do {
     c \<leftarrow> vec_at (channels s) rankId;
     Some (if c = ch then s\<lparr>channels := (channels s)[unat rankId := 0]\<rparr> else s)
   }"

text \<open>The handler of the library for a broken channel; the payload is the rank the channel was opened for.\<close>

definition TransportRpcHcomEndPointBroken :: "u64 \<Rightarrow> bytes \<Rightarrow> 'd hcom \<Rightarrow> (result \<times> 'd hcom) cpp" where
  "TransportRpcHcomEndPointBroken ch payLoad s =
     (case String2Uint (2 ^ 32 - 1) payLoad of
        None \<Rightarrow> Some (BM_ERROR, s)
      | Some r \<Rightarrow> do { s \<leftarrow> HcomChannelDisconnected (of_int r) ch s; Some (BM_OK, s) })"

section \<open>Memory regions\<close>

definition in_region :: "u64 \<Rightarrow> HcomMemoryRegion \<Rightarrow> bool" where
  "in_region addr m \<longleftrightarrow> mrAddr m \<le> addr \<and> mrAddr m + mrSize m > addr"

definition GetMemoryRegionByAddr :: "u32 \<Rightarrow> u64 \<Rightarrow> 'd hcom \<Rightarrow> HcomMemoryRegion option cpp" where
  "GetMemoryRegionByAddr rankId addr s = do { ms \<leftarrow> vec_at (mrs s) rankId; Some (find (in_region addr) ms) }"

definition hcom_QueryHasRegistered :: "u64 \<Rightarrow> u64 \<Rightarrow> 'd hcom \<Rightarrow> bool cpp" where
  "hcom_QueryHasRegistered addr n s = do {
     ms \<leftarrow> vec_at (mrs s) (hcomRankId s);
     Some (\<exists>m \<in> set ms. mrAddr m \<le> addr \<and> mrAddr m + mrSize m \<ge> addr + n)
   }"

text \<open>\<open>mrs_[rank].push_back(m)\<close>.\<close>

definition push_mr :: "u32 \<Rightarrow> HcomMemoryRegion \<Rightarrow> 'd hcom \<Rightarrow> 'd hcom cpp" where
  "push_mr r m s = do { ms \<leftarrow> vec_at (mrs s) r; Some (s\<lparr>mrs := (mrs s)[unat r := ms @ [m]]\<rparr>) }"

text \<open>The version of the builds with an accelerator.\<close>

definition register_xpu :: "'d hcom_env \<Rightarrow> TransportMemoryRegion \<Rightarrow> 'd hcom \<Rightarrow> (result \<times> 'd hcom) cpp" where
  "register_xpu e mr s = do {
     old \<leftarrow> GetMemoryRegionByAddr (hcomRankId s) (regAddr mr) s;
     if old \<noteq> None then Some (BM_ERROR, s)
     else
       let (ret, handle, d) = ServiceRegisterAssignMemoryRegion (hcomApi e) (rpcService s) (regAddr mr) (regSize mr) (net s);
           s = s\<lparr>net := d\<rparr>
       in if ret \<noteq> 0 then Some (BM_DL_FUNCTION_FAILED, s)
          else
            let (ret, info, d) = ServiceGetMemoryRegionInfo (hcomApi e) handle (net s); s = s\<lparr>net := d\<rparr>
            in if ret \<noteq> 0 then
                 Some (BM_DL_FUNCTION_FAILED, s\<lparr>net := ServiceDestroyMemoryRegion (hcomApi e) (rpcService s) handle (net s)\<rparr>)
               else do {
                 s \<leftarrow> push_mr (hcomRankId s) \<lparr>mrAddr = regAddr mr, mrSize = regSize mr,
                   mrKey = put_words (oskKeys (smrKey info)) 0 zero_key, mrHandle = handle\<rparr> s;
                 if regFlags mr AND REG_MR_FLAG_SELF = 0 then
                   let (ret, va) = AddVaInfoFromExternal (regAddr mr) (regSize mr)
                     (if regFlags mr AND REG_MR_FLAG_DRAM \<noteq> 0 then HYBM_MEM_TYPE_HOST else HYBM_MEM_TYPE_DEVICE) (regAddr mr)
                     (hcomRankId s) INVALID_RANK_ID (vaMgr s);
                       s = s\<lparr>vaMgr := va\<rparr>
                   in if ret \<noteq> BM_OK then
                        Some (ret, s\<lparr>net := ServiceDestroyMemoryRegion (hcomApi e) (rpcService s) handle (net s)\<rparr>)
                      else Some (BM_OK, s)
                 else Some (BM_OK, s)
               }
   }"

text \<open>The version of the build without one.\<close>

definition register_host :: "'d hcom_env \<Rightarrow> TransportMemoryRegion \<Rightarrow> 'd hcom \<Rightarrow> (result \<times> 'd hcom) cpp" where
  "register_host e mr s =
     (if bmOptype s = HYBM_DOP_TYPE_HOST_URMA \<and> regAddr mr AND 4095 \<noteq> 0 then Some (BM_INVALID_PARAM, s)
      else do {
        old \<leftarrow> GetMemoryRegionByAddr (hcomRankId s) (regAddr mr) s;
        if old \<noteq> None then Some (BM_ERROR, s)
        else
          let (ret, handle, d) = ServiceRegisterAssignMemoryRegion (hcomApi e) (rpcService s) (regAddr mr) (regSize mr) (net s);
              s = s\<lparr>net := d\<rparr>
          in if ret \<noteq> 0 then Some (BM_ERROR, s)
             else
               let (ret, info, d) = ServiceGetMemoryRegionInfo (hcomApi e) handle (net s); s = s\<lparr>net := d\<rparr>
               in if ret \<noteq> 0 then Some (BM_ERROR, s)
                  else do {
                    s \<leftarrow> push_mr (hcomRankId s) \<lparr>mrAddr = regAddr mr, mrSize = regSize mr,
                      mrKey = key_to_words (hcomBuild e) (smrKey info) zero_key, mrHandle = handle\<rparr> s;
                    Some (BM_OK, s)
                  }
      })"

definition hcom_RegisterMemoryRegion :: "'d hcom_env \<Rightarrow> TransportMemoryRegion \<Rightarrow> 'd hcom \<Rightarrow> (result \<times> 'd hcom) cpp" where
  "hcom_RegisterMemoryRegion e mr s =
     (if rpcService s = 0 then Some (BM_ERROR, s)
      else if regAddr mr = 0 \<or> regSize mr = 0 then Some (BM_INVALID_PARAM, s)
      else if regFlags mr AND REG_MR_FLAG_DRAM = 0 then Some (BM_OK, s)
      else if hcomBuild e = NO_XPU then register_host e mr s
      else register_xpu e mr s)"

text \<open>The search for the region with this address: its handle and the other regions.\<close>

fun take_region :: "u64 \<Rightarrow> HcomMemoryRegion list \<Rightarrow> (u64 \<times> HcomMemoryRegion list) option" where
  "take_region addr [] = None"
| "take_region addr (m # ms) =
     (if mrAddr m = addr then Some (mrHandle m, ms)
      else map_option (\<lambda>(h, ms). (h, m # ms)) (take_region addr ms))"

definition hcom_UnregisterMemoryRegion :: "'d hcom_env \<Rightarrow> u64 \<Rightarrow> 'd hcom \<Rightarrow> (result \<times> 'd hcom) cpp" where
  "hcom_UnregisterMemoryRegion e addr s =
     (if addr = 0 then Some (BM_INVALID_PARAM, s)
      else if rpcService s = 0 then Some (BM_ERROR, s)
      else do {
        va \<leftarrow> RemoveOneVaInfo addr (vaMgr s);
        let s = s\<lparr>vaMgr := va\<rparr>;
        ms \<leftarrow> vec_at (mrs s) (hcomRankId s);
        case take_region addr ms of
          Some (handle, ms) \<Rightarrow>
            Some (BM_OK, s\<lparr>net := ServiceDestroyMemoryRegion (hcomApi e) (rpcService s) handle (net s),
              mrs := (mrs s)[unat (hcomRankId s) := ms]\<rparr>)
        | None \<Rightarrow> Some (BM_OK, s)
      })"

definition hcom_QueryMemoryKey :: "'d hcom_env \<Rightarrow> u64 \<Rightarrow> TransportMemoryKey \<Rightarrow> 'd hcom \<Rightarrow> (result \<times> TransportMemoryKey) cpp" where
  "hcom_QueryMemoryKey e addr key s = do {
     mr \<leftarrow> GetMemoryRegionByAddr (hcomRankId s) addr s;
     case mr of
       None \<Rightarrow> Some (BM_ERROR, key)
     | Some m \<Rightarrow> Some (BM_OK, host_key_words
         \<lparr>smrAddress = mrAddr m, smrKey = words_to_key (hcomBuild e) (mrKey m) zero_osk, smrSize = mrSize m\<rparr>)
   }"

section \<open>Ranks and channels\<close>

definition set_region :: "u32 \<Rightarrow> HcomMemoryRegion \<Rightarrow> 'd hcom \<Rightarrow> 'd hcom cpp" where
  "set_region r m s = do { _ \<leftarrow> vec_at (mrs s) r; Some (s\<lparr>mrs := (mrs s)[unat r := [m]]\<rparr>) }"

text \<open>The loop over the keys of one rank; \<open>Inl\<close> is an early return.\<close>

fun update_keys :: "'d hcom_env \<Rightarrow> u32 \<Rightarrow> TransportMemoryKey list \<Rightarrow> 'd hcom \<Rightarrow> ((result + unit) \<times> 'd hcom) cpp" where
  "update_keys e r [] s = Some (Inr (), s)"
| "update_keys e r (k # ks) s =
     (let info = words_host_key k in
      if smrSize info = 0 then update_keys e r ks s
      else
        let (ret, key, d) = (if bmOptype s AND HYBM_DOP_TYPE_HOST_URMA \<noteq> 0
              then ImportUrmaSeg (hcomApi e) (rpcService s) (smrAddress info) (smrSize info) (smrKey info) (net s)
              else (0, smrKey info, net s));
            s = s\<lparr>net := d\<rparr>
        in if ret \<noteq> 0 then Some (Inl ret, s)
           else do {
             s \<leftarrow> set_region r \<lparr>mrAddr = smrAddress info, mrSize = smrSize info,
               mrKey = key_to_words (hcomBuild e) key zero_key, mrHandle = 0\<rparr> s;
             update_keys e r ks s
           })"

fun UpdateRankMrInfos :: "'d hcom_env \<Rightarrow> HybmTransPrepareOptions \<Rightarrow> 'd hcom \<Rightarrow> (result \<times> 'd hcom) cpp" where
  "UpdateRankMrInfos e [] s = Some (BM_OK, s)"
| "UpdateRankMrInfos e ((r, info) # opt) s =
     (if r = hcomRankId s then UpdateRankMrInfos e opt s
      else do {
        (x, s) \<leftarrow> update_keys e r (prepMemKeys info) s;
        case x of Inl ret \<Rightarrow> Some (ret, s) | Inr _ \<Rightarrow> UpdateRankMrInfos e opt s
      })"

definition ranks_ok :: "HybmTransPrepareOptions \<Rightarrow> 'd hcom \<Rightarrow> bool" where
  "ranks_ok opt s \<longleftrightarrow> (\<forall>(r, _) \<in> set opt. r < hcomRankCount s)"

definition hcom_Prepare :: "'d hcom_env \<Rightarrow> HybmTransPrepareOptions \<Rightarrow> 'd hcom \<Rightarrow> (result \<times> 'd hcom) cpp" where
  "hcom_Prepare e opt s =
     (if \<not> ranks_ok opt s then Some (BM_INVALID_PARAM, s)
      else UpdateRankMrInfos e opt (s\<lparr>nics := fold (\<lambda>(r, info) ns. ns[unat r := prepNic info]) opt (nics s)\<rparr>))"

definition ConnectHcomChannel :: "'d hcom_env \<Rightarrow> u32 \<Rightarrow> bytes \<Rightarrow> 'd hcom \<Rightarrow> (result \<times> 'd hcom) cpp" where
  "ConnectHcomChannel e rankId url s = do {
     c \<leftarrow> vec_at (channels s) rankId;
     if c \<noteq> 0 then Some (BM_OK, s)
     else
       let (ret, ch, d) = ServiceConnect (hcomApi e) (rpcService s) url (to_string (uint rankId)) (net s); s = s\<lparr>net := d\<rparr>
       in if ret \<noteq> 0 then Some (BM_DL_FUNCTION_FAILED, s)
          else Some (BM_OK, s\<lparr>channels := (channels s)[unat rankId := ch]\<rparr>)
   }"

fun connect_from :: "'d hcom_env \<Rightarrow> nat \<Rightarrow> nat \<Rightarrow> 'd hcom \<Rightarrow> (result \<times> 'd hcom) cpp" where
  "connect_from e i 0 s = Some (BM_OK, s)"
| "connect_from e i (Suc n) s =
     (if hcomRankId s = of_nat i then connect_from e (Suc i) n s
      else do {
        nic \<leftarrow> vec_at (nics s) (of_nat i);
        if nic = [] then connect_from e (Suc i) n s
        else do {
          (ret, s) \<leftarrow> ConnectHcomChannel e (of_nat i) nic s;
          if ret \<noteq> BM_OK then Some (ret, s) else connect_from e (Suc i) n s
        }
      })"

definition hcom_Connect :: "'d hcom_env \<Rightarrow> 'd hcom \<Rightarrow> (result \<times> 'd hcom) cpp" where
  "hcom_Connect e s = (if rpcService s = 0 then Some (BM_ERROR, s) else connect_from e 0 (unat (hcomRankCount s)) s)"

fun update_connects :: "'d hcom_env \<Rightarrow> HybmTransPrepareOptions \<Rightarrow> nat \<Rightarrow> nat \<Rightarrow> 'd hcom \<Rightarrow> (result \<times> 'd hcom) cpp" where
  "update_connects e opt i 0 s = Some (BM_OK, s)"
| "update_connects e opt i (Suc n) s =
     (if of_nat i = hcomRankId s then update_connects e opt (Suc i) n s
      else do {
        c \<leftarrow> vec_at (channels s) (of_nat i);
        case map_of opt (of_nat i) of
          Some info \<Rightarrow>
            if c = 0 then do {
              (ret, s) \<leftarrow> ConnectHcomChannel e (of_nat i) (prepNic info) (s\<lparr>nics := (nics s)[i := prepNic info]\<rparr>);
              if ret \<noteq> BM_OK then Some (ret, s) else update_connects e opt (Suc i) n s
            }
            else update_connects e opt (Suc i) n s
        | None \<Rightarrow> update_connects e opt (Suc i) n s
      })"

definition hcom_UpdateRankOptions :: "'d hcom_env \<Rightarrow> HybmTransPrepareOptions \<Rightarrow> 'd hcom \<Rightarrow> (result \<times> 'd hcom) cpp" where
  "hcom_UpdateRankOptions e opt s =
     (if \<not> ranks_ok opt s then Some (BM_INVALID_PARAM, s)
      else do {
        (ret, s) \<leftarrow> UpdateRankMrInfos e opt s;
        if ret \<noteq> BM_OK then Some (ret, s) else update_connects e opt 0 (unat (hcomRankCount s)) s
      })"

definition ForceReConnectHcomChannel :: "'d hcom_env \<Rightarrow> u32 \<Rightarrow> 'd hcom \<Rightarrow> 'd hcom cpp" where
  "ForceReConnectHcomChannel e rankId s =
     (if rankId \<ge> hcomRankCount s then Some s
      else do {
        _ \<leftarrow> vec_at (channels s) rankId;
        nic \<leftarrow> vec_at (nics s) rankId;
        (_, s) \<leftarrow> ConnectHcomChannel e rankId nic (s\<lparr>channels := (channels s)[unat rankId := 0]\<rparr>);
        Some s
      })"

section \<open>Transfers\<close>

text \<open>
  The checks and the keys all transfers share: the channel and the request, or an early return. Synchronous transfers
  and asynchronous writes copy only the \<open>keys\<close> of the local key (\<open>full\<close> is false).
\<close>

definition local_key :: "'d hcom_env \<Rightarrow> bool \<Rightarrow> HcomMemoryRegion \<Rightarrow> OneSideKey" where
  "local_key e full m =
     (if full then words_to_key (hcomBuild e) (mrKey m) (uninitKey e) else (uninitKey e)\<lparr>oskKeys := take 4 (mrKey m)\<rparr>)"

definition find_channel :: "u32 \<Rightarrow> 'd hcom \<Rightarrow> (result + u64) cpp" where
  "find_channel rankId s =
     (if rpcService s = 0 then Some (Inl BM_ERROR)
      else if \<not> rankId < hcomRankCount s then Some (Inl BM_INVALID_PARAM)
      else do { ch \<leftarrow> vec_at (channels s) rankId; Some (if ch = 0 then Inl BM_ERROR else Inr ch) })"

definition find_keys :: "'d hcom_env \<Rightarrow> bool \<Rightarrow> u32 \<Rightarrow> u64 \<Rightarrow> u64 \<Rightarrow> u32 \<Rightarrow> 'd hcom \<Rightarrow> (result + OneSideRequest) cpp" where
  "find_keys e full rankId lAddr rAddr n s = do {
     lm \<leftarrow> GetMemoryRegionByAddr (hcomRankId s) lAddr s;
     case lm of
       None \<Rightarrow> Some (Inl BM_ERROR)
     | Some lm \<Rightarrow> do {
         rm \<leftarrow> GetMemoryRegionByAddr rankId rAddr s;
         case rm of
           None \<Rightarrow> Some (Inl BM_ERROR)
         | Some rm \<Rightarrow> Some (Inr \<lparr>reqLAddress = lAddr, reqRAddress = rAddr, reqLKey = local_key e full lm,
             reqRKey = words_to_key (hcomBuild e) (mrKey rm) (uninitKey e), reqSize = n\<rparr>)
       }
   }"

definition InnerReadRemote :: "'d hcom_env \<Rightarrow> u32 \<Rightarrow> u64 \<Rightarrow> u64 \<Rightarrow> u64 \<Rightarrow> 'd hcom \<Rightarrow> (result \<times> 'd hcom) cpp" where
  "InnerReadRemote e rankId lAddr rAddr n s = do {
     c \<leftarrow> find_channel rankId s;
     case c of
       Inl ret \<Rightarrow> Some (ret, s)
     | Inr ch \<Rightarrow> do {
         r \<leftarrow> find_keys e False rankId lAddr rAddr (ucast n) s;
         case r of
           Inl ret \<Rightarrow> Some (ret, s)
         | Inr req \<Rightarrow> let (ret, d) = ChannelGet (hcomApi e) ch req False (net s) in Some (ret, s\<lparr>net := d\<rparr>)
       }
   }"

definition InnerWriteRemote :: "'d hcom_env \<Rightarrow> u32 \<Rightarrow> u64 \<Rightarrow> u64 \<Rightarrow> u64 \<Rightarrow> 'd hcom \<Rightarrow> (result \<times> 'd hcom) cpp" where
  "InnerWriteRemote e rankId lAddr rAddr n s = do {
     c \<leftarrow> find_channel rankId s;
     case c of
       Inl ret \<Rightarrow> Some (ret, s)
     | Inr ch \<Rightarrow> do {
         r \<leftarrow> find_keys e False rankId lAddr rAddr (ucast n) s;
         case r of
           Inl ret \<Rightarrow> Some (ret, s)
         | Inr req \<Rightarrow> let (ret, d) = ChannelPut (hcomApi e) ch req False (net s) in Some (ret, s\<lparr>net := d\<rparr>)
       }
   }"

text \<open>\<open>n\<close> attempts; the pause between them is not modelled.\<close>

fun retry :: "'d hcom_env \<Rightarrow> ('d hcom \<Rightarrow> (result \<times> 'd hcom) cpp) \<Rightarrow> u32 \<Rightarrow> nat \<Rightarrow> 'd hcom \<Rightarrow> (result \<times> 'd hcom) cpp" where
  "retry e f rankId 0 s = Some (BM_ERROR, s)"
| "retry e f rankId (Suc n) s = do {
     (ret, s) \<leftarrow> f s;
     if ret = BM_OK then Some (BM_OK, s)
     else do {
       again \<leftarrow> (if ret > 0 then Some True else do { c \<leftarrow> vec_at (channels s) rankId; Some (c = 0) });
       s \<leftarrow> (if again then ForceReConnectHcomChannel e rankId s else Some s);
       retry e f rankId n s
     }
   }"

abbreviation (input) kMaxRetries :: nat where "kMaxRetries \<equiv> 3"

definition hcom_ReadRemote :: "'d hcom_env \<Rightarrow> u32 \<Rightarrow> u64 \<Rightarrow> u64 \<Rightarrow> u64 \<Rightarrow> 'd hcom \<Rightarrow> (result \<times> 'd hcom) cpp" where
  "hcom_ReadRemote e rankId lAddr rAddr n s = retry e (InnerReadRemote e rankId lAddr rAddr n) rankId kMaxRetries s"

definition hcom_WriteRemote :: "'d hcom_env \<Rightarrow> u32 \<Rightarrow> u64 \<Rightarrow> u64 \<Rightarrow> u64 \<Rightarrow> 'd hcom \<Rightarrow> (result \<times> 'd hcom) cpp" where
  "hcom_WriteRemote e rankId lAddr rAddr n s = retry e (InnerWriteRemote e rankId lAddr rAddr n) rankId kMaxRetries s"

text \<open>One submission with the counter: counted before it, taken back and waited for when it fails.\<close>

definition submit :: "'d hcom_env \<Rightarrow> ('d \<Rightarrow> result \<times> 'd) \<Rightarrow> 'd hcom \<Rightarrow> (result \<times> 'd hcom) cpp" where
  "submit e f s =
     (case hcomStream s of
        None \<Rightarrow> None
      | Some num \<Rightarrow>
          let num = stream_SubmitTasks 1 num; (ret, d) = f (net s); s = s\<lparr>hcomStream := Some num, net := d\<rparr>
          in if ret \<noteq> 0 then do {
               (_, s) \<leftarrow> hcom_Synchronize e (hcomRankId s) (s\<lparr>hcomStream := Some (FinishOne num)\<rparr>);
               Some (ret, s)
             }
             else Some (BM_OK, s))"

function slices ::
    "'d hcom_env \<Rightarrow> (OneSideRequest \<Rightarrow> 'd \<Rightarrow> result \<times> 'd) \<Rightarrow> OneSideRequest \<Rightarrow> u64 \<Rightarrow> u64 \<Rightarrow> u64 \<Rightarrow> u64 \<Rightarrow> 'd hcom \<Rightarrow>
      (result \<times> 'd hcom) cpp" where
  "slices e f req lAddr rAddr remain offset s =
     (if remain = 0 then Some (BM_OK, s)
      else
        let sliceSize = min remain (HCOM_MAX_SLICE_SIZE (hcomBuild e));
            req = req\<lparr>reqRAddress := rAddr + offset, reqLAddress := lAddr + offset, reqSize := ucast sliceSize\<rparr>
        in do {
          (ret, s) \<leftarrow> submit e (f req) s;
          if ret \<noteq> 0 then Some (ret, s)
          else slices e f req lAddr rAddr (remain - sliceSize) (offset + sliceSize) s
        })"
  by pat_completeness auto
termination
proof (relation "measure (\<lambda>(e, f, req, l, r, remain, offset, s). unat remain)", goal_cases)
  case (2 e f req l r remain offset s sliceSize)
  then have "0 < sliceSize" and "sliceSize \<le> remain"
    by (auto simp: HCOM_MAX_SLICE_SIZE_def min_def word_neq_0_conv split: if_splits)
  then have "unat (remain - sliceSize) < unat remain"
    by (metis measure_unat word_neq_0_conv unat_sub word_le_nat_alt diff_less unat_0 word_less_nat_alt less_le_trans)
  then show ?case
    by simp
qed simp

declare slices.simps [simp del]

definition hcom_ReadRemoteAsync :: "'d hcom_env \<Rightarrow> u32 \<Rightarrow> u64 \<Rightarrow> u64 \<Rightarrow> u64 \<Rightarrow> 'd hcom \<Rightarrow> (result \<times> 'd hcom) cpp" where
  "hcom_ReadRemoteAsync e rankId lAddr rAddr n s = do {
     c \<leftarrow> find_channel rankId s;
     case c of
       Inl ret \<Rightarrow> Some (ret, s)
     | Inr ch \<Rightarrow> do {
         r \<leftarrow> find_keys e True rankId lAddr rAddr (ucast n) s;
         case r of
           Inl ret \<Rightarrow> Some (ret, s)
         | Inr req \<Rightarrow> slices e (\<lambda>req. ChannelGet (hcomApi e) ch req True) req lAddr rAddr n 0 (PrepareThreadLocalStream s)
       }
   }"

definition hcom_WriteRemoteAsync :: "'d hcom_env \<Rightarrow> u32 \<Rightarrow> u64 \<Rightarrow> u64 \<Rightarrow> u64 \<Rightarrow> 'd hcom \<Rightarrow> (result \<times> 'd hcom) cpp" where
  "hcom_WriteRemoteAsync e rankId lAddr rAddr n s = do {
     c \<leftarrow> find_channel rankId s;
     case c of
       Inl ret \<Rightarrow> Some (ret, s)
     | Inr ch \<Rightarrow> do {
         r \<leftarrow> find_keys e False rankId lAddr rAddr (ucast n) s;
         case r of
           Inl ret \<Rightarrow> Some (ret, s)
         | Inr req \<Rightarrow> slices e (\<lambda>req. ChannelPut (hcomApi e) ch req True) req lAddr rAddr n 0 (PrepareThreadLocalStream s)
       }
   }"

text \<open>The requests of one group; \<open>Inl\<close> is an early return.\<close>

fun batch_requests ::
    "'d hcom_env \<Rightarrow> bool \<Rightarrow> u32 \<Rightarrow> (u64 \<times> u64 \<times> u64) list \<Rightarrow> 'd hcom \<Rightarrow> ((result + OneSideRequest list) \<times> 'd hcom) cpp" where
  "batch_requests e full rankId [] s = Some (Inr [], s)"
| "batch_requests e full rankId ((lAddr, rAddr, n) # xs) s = do {
     r \<leftarrow> find_keys e full rankId lAddr rAddr (ucast n) s;
     case r of
       Inl ret \<Rightarrow> Some (Inl ret, s)
     | Inr req \<Rightarrow> do {
         (rs, s) \<leftarrow> batch_requests e full rankId xs (PrepareThreadLocalStream s);
         Some (map_sum id (Cons req) rs, s)
       }
   }"

function batch_groups ::
    "'d hcom_env \<Rightarrow> bool \<Rightarrow> (OneSideRequest list \<Rightarrow> 'd \<Rightarrow> result \<times> 'd) \<Rightarrow> u32 \<Rightarrow> (u64 \<times> u64 \<times> u64) list \<Rightarrow> 'd hcom \<Rightarrow>
      (result \<times> 'd hcom) cpp" where
  "batch_groups e full f rankId xs s =
     (if xs = [] then Some (BM_OK, s)
      else do {
        (rs, s) \<leftarrow> batch_requests e full rankId (take HCOM_IOV_BATCH_SIZE xs) s;
        case rs of
          Inl ret \<Rightarrow> Some (ret, s)
        | Inr reqs \<Rightarrow> do {
            (ret, s) \<leftarrow> submit e (f reqs) s;
            if ret \<noteq> 0 then Some (ret, s) else batch_groups e full f rankId (drop HCOM_IOV_BATCH_SIZE xs) s
          }
      })"
  by pat_completeness auto
termination
  by (relation "measure (\<lambda>(e, full, f, rankId, xs, s). length xs)") auto

declare batch_groups.simps [simp del]

text \<open>The entries of a descriptor; a vector of addresses that is shorter than the counts is read past its end.\<close>

definition descriptor_entries :: "CopyDescriptor \<Rightarrow> (u64 \<times> u64 \<times> u64) list cpp" where
  "descriptor_entries desc =
     (if length (cdCounts desc) \<le> length (localAddrs desc) \<and> length (cdCounts desc) \<le> length (globalAddrs desc)
      then Some (zip (localAddrs desc) (zip (globalAddrs desc) (cdCounts desc))) else None)"

definition hcom_WriteRemoteBatchAsync :: "'d hcom_env \<Rightarrow> u32 \<Rightarrow> CopyDescriptor \<Rightarrow> 'd hcom \<Rightarrow> (result \<times> 'd hcom) cpp" where
  "hcom_WriteRemoteBatchAsync e rankId desc s = do {
     c \<leftarrow> find_channel rankId s;
     case c of
       Inl ret \<Rightarrow> Some (ret, s)
     | Inr ch \<Rightarrow> do {
         xs \<leftarrow> descriptor_entries desc;
         batch_groups e False (ChannelPutV (hcomApi e) ch) rankId xs s
       }
   }"

text \<open>For a read the global addresses of the descriptor are the local ones.\<close>

definition hcom_ReadRemoteBatchAsync :: "'d hcom_env \<Rightarrow> u32 \<Rightarrow> CopyDescriptor \<Rightarrow> 'd hcom \<Rightarrow> (result \<times> 'd hcom) cpp" where
  "hcom_ReadRemoteBatchAsync e rankId desc s =
     (if cdCounts desc = [] then Some (BM_INVALID_PARAM, s)
      else do {
        c \<leftarrow> find_channel rankId s;
        case c of
          Inl ret \<Rightarrow> Some (ret, s)
        | Inr ch \<Rightarrow> do {
            xs \<leftarrow> descriptor_entries desc;
            batch_groups e True (ChannelGetV (hcomApi e) ch) rankId (map (\<lambda>(l, g, n). (g, l, n)) xs) s
          }
      })"

definition hcom_transport :: "'d hcom_env \<Rightarrow> 'd hcom transport" where
  "hcom_transport e = \<lparr>tmOpenDevice = hcom_OpenDevice e, tmCloseDevice = hcom_CloseDevice e,
     tmRegisterMemoryRegion = hcom_RegisterMemoryRegion e, tmUnregisterMemoryRegion = hcom_UnregisterMemoryRegion e,
     tmQueryHasRegistered = hcom_QueryHasRegistered, tmQueryMemoryKey = hcom_QueryMemoryKey e, tmPrepare = hcom_Prepare e,
     tmRemoveRanks = (\<lambda>_ s. Some (BM_OK, s)), tmConnect = hcom_Connect e, tmAsyncConnect = (\<lambda>s. Some (BM_OK, s)),
     tmWaitForConnected = (\<lambda>_ s. Some (BM_OK, s)), tmUpdateRankOptions = hcom_UpdateRankOptions e, tmGetNic = localNic,
     tmReadRemote = hcom_ReadRemote e, tmWriteRemote = hcom_WriteRemote e, tmReadRemoteAsync = hcom_ReadRemoteAsync e,
     tmWriteRemoteAsync = hcom_WriteRemoteAsync e, tmSynchronize = hcom_Synchronize e,
     tmWriteRemoteBatchAsync = hcom_WriteRemoteBatchAsync e, tmReadRemoteBatchAsync = hcom_ReadRemoteBatchAsync e\<rparr>"

end
