(* ===== verification/Hcom_Transport_Properties.thy ===== *)
theory Hcom_Transport_Properties
  imports Hcom_Transport
begin

text \<open>
  Properties of the host transport.
\<close>

section \<open>Shape of the state\<close>

text \<open>What only opening and closing change.\<close>

definition shape :: "'d hcom \<Rightarrow> u64 \<times> u32 \<times> u32 \<times> nat \<times> nat \<times> nat" where
  "shape s = (rpcService s, hcomRankId s, hcomRankCount s, length (mrs s), length (nics s), length (channels s))"

lemma shape_update [simp]:
  "shape (s\<lparr>net := d\<rparr>) = shape s" "shape (s\<lparr>hcomStream := x\<rparr>) = shape s" "shape (s\<lparr>vaMgr := va\<rparr>) = shape s"
  "shape (s\<lparr>mrs := (mrs s)[i := ms]\<rparr>) = shape s" "shape (s\<lparr>channels := (channels s)[i := c]\<rparr>) = shape s"
  "shape (s\<lparr>nics := (nics s)[i := c']\<rparr>) = shape s"
  by (simp_all add: shape_def)

named_theorems shape_rules \<open>operations that keep the shape\<close>

lemma shape_Synchronize [shape_rules]: "hcom_Synchronize e r s = Some (x, s') \<Longrightarrow> shape s' = shape s"
  by (auto simp: hcom_Synchronize_def split: option.splits bind_splits)

lemma shape_stream [simp]: "shape (PrepareThreadLocalStream s) = shape s"
  by (simp add: PrepareThreadLocalStream_def split: option.split)

lemma shape_push [shape_rules]: "push_mr r m s = Some s' \<Longrightarrow> shape s' = shape s"
  by (auto simp: push_mr_def split: bind_splits)

lemma shape_set [shape_rules]: "set_region r m s = Some s' \<Longrightarrow> shape s' = shape s"
  by (auto simp: set_region_def split: bind_splits)

lemma shape_Connect_channel [shape_rules]: "ConnectHcomChannel e r url s = Some (x, s') \<Longrightarrow> shape s' = shape s"
  by (auto simp: ConnectHcomChannel_def Let_def shape_def split: bind_splits prod.splits if_splits)

lemma shape_Force [shape_rules]: "ForceReConnectHcomChannel e r s = Some s' \<Longrightarrow> shape s' = shape s"
  by (auto simp: ForceReConnectHcomChannel_def split: bind_splits if_splits dest: shape_Connect_channel)

lemma shape_submit [shape_rules]: "submit e f s = Some (x, s') \<Longrightarrow> shape s' = shape s"
  by (auto simp: submit_def Let_def split: option.splits bind_splits prod.splits if_splits dest!: shape_Synchronize)

lemma shape_update_keys: "update_keys e r ks s = Some (x, s') \<Longrightarrow> shape s' = shape s"
proof (induction e r ks s arbitrary: x s' rule: update_keys.induct)
  case (2 e r k ks s)
  then show ?case
    by (auto simp: Let_def split: if_splits prod.splits bind_splits dest!: shape_set)
qed simp

lemma shape_UpdateRankMrInfos [shape_rules]: "UpdateRankMrInfos e opt s = Some (x, s') \<Longrightarrow> shape s' = shape s"
proof (induction e opt s arbitrary: x s' rule: UpdateRankMrInfos.induct)
  case (2 e r info opt s)
  show ?case
  proof (cases "r = hcomRankId s")
    case True
    with 2 show ?thesis
      by simp
  next
    case False
    with 2(3) obtain y u where u: "update_keys e r (prepMemKeys info) s = Some (y, u)"
      by (cases "update_keys e r (prepMemKeys info) s") auto
    then have "shape u = shape s"
      by (rule shape_update_keys)
    with 2(2,3) u False show ?thesis
      by (cases y) auto
  qed
qed simp

lemma shape_nics: "shape (s\<lparr>nics := fold (\<lambda>(r, info) ns. ns[unat r := prepNic info]) opt (nics s)\<rparr>) = shape s"
proof -
  have "length (fold (\<lambda>(r, info) ns. ns[unat r := prepNic info]) opt ns) = length ns" for ns :: "bytes list"
    by (induction opt arbitrary: ns) auto
  then show ?thesis
    by (simp add: shape_def)
qed

lemma shape_Prepare [shape_rules]: "hcom_Prepare e opt s = Some (x, s') \<Longrightarrow> shape s' = shape s"
  by (auto simp: hcom_Prepare_def shape_nics split: if_splits dest: shape_UpdateRankMrInfos)

lemma shape_connect_from: "connect_from e i n s = Some (x, s') \<Longrightarrow> shape s' = shape s"
proof (induction e i n s arbitrary: x s' rule: connect_from.induct)
  case (2 e i n s)
  show ?case
  proof (cases "hcomRankId s = of_nat i")
    case False
    with 2(4) obtain nic where nic: "vec_at (nics s) (of_nat i) = Some nic"
      by (cases "vec_at (nics s) (of_nat i)") auto
    show ?thesis
    proof (cases "nic = []")
      case False
      with 2(4) nic \<open>hcomRankId s \<noteq> of_nat i\<close> obtain y u where u: "ConnectHcomChannel e (of_nat i) nic s = Some (y, u)"
        by (cases "ConnectHcomChannel e (of_nat i) nic s") auto
      have "shape u = shape s"
        by (rule shape_Connect_channel [OF u])
      with 2 u nic False \<open>hcomRankId s \<noteq> of_nat i\<close> show ?thesis
        by (auto split: if_splits)
    qed (use 2 nic \<open>hcomRankId s \<noteq> of_nat i\<close> in auto)
  qed (use 2 in auto)
qed simp

lemma shape_Connect [shape_rules]: "hcom_Connect e s = Some (x, s') \<Longrightarrow> shape s' = shape s"
  by (auto simp: hcom_Connect_def split: if_splits dest: shape_connect_from)

lemma shape_update_connects: "update_connects e opt i n s = Some (x, s') \<Longrightarrow> shape s' = shape s"
proof (induction n arbitrary: i s x s')
  case (Suc n)
  show ?case
  proof (cases "of_nat i = hcomRankId s")
    case False
    with Suc.prems obtain c where c: "vec_at (channels s) (of_nat i) = Some c"
      by (cases "vec_at (channels s) (of_nat i)") auto
    show ?thesis
    proof (cases "map_of opt (of_nat i)")
      case None
      with Suc c False show ?thesis
        by simp
    next
      case (Some info)
      let ?s = "s\<lparr>nics := (nics s)[i := prepNic info]\<rparr>"
      show ?thesis
      proof (cases "c = 0")
        case True
        with Suc.prems c False Some obtain y u where u: "ConnectHcomChannel e (of_nat i) (prepNic info) ?s = Some (y, u)"
          by (cases "ConnectHcomChannel e (of_nat i) (prepNic info) ?s") auto
        then have "shape u = shape s"
          using shape_Connect_channel [OF u] by simp
        with Suc u c True False Some show ?thesis
          by (auto split: if_splits)
      qed (use Suc c False Some in simp)
    qed
  qed (use Suc in simp)
qed simp

lemma shape_UpdateRankOptions [shape_rules]: "hcom_UpdateRankOptions e opt s = Some (x, s') \<Longrightarrow> shape s' = shape s"
  by (auto simp: hcom_UpdateRankOptions_def split: if_splits bind_splits dest!: shape_update_connects shape_UpdateRankMrInfos)

lemma shape_inner [shape_rules]:
  "InnerReadRemote e r l a n s = Some (x, s') \<Longrightarrow> shape s' = shape s"
  "InnerWriteRemote e r l a n s = Some (x, s') \<Longrightarrow> shape s' = shape s"
  by (auto simp: InnerReadRemote_def InnerWriteRemote_def Let_def split: bind_splits sum.splits prod.splits)

lemma shape_retry:
  assumes "\<And>s x s'. f s = Some (x, s') \<Longrightarrow> shape s' = shape s"
  shows "retry e f r n s = Some (x, s') \<Longrightarrow> shape s' = shape s"
proof (induction n arbitrary: s x s')
  case (Suc n)
  then obtain y u where u: "f s = Some (y, u)"
    by (cases "f s") auto
  have "shape u = shape s"
    by (rule assms [OF u])
  with Suc u show ?case
    by (auto split: if_splits bind_splits dest!: shape_Force)
qed simp

lemma shape_Read [shape_rules]: "hcom_ReadRemote e r l a n s = Some (x, s') \<Longrightarrow> shape s' = shape s"
  unfolding hcom_ReadRemote_def by (rule shape_retry [OF shape_inner(1)])

lemma shape_Write [shape_rules]: "hcom_WriteRemote e r l a n s = Some (x, s') \<Longrightarrow> shape s' = shape s"
  unfolding hcom_WriteRemote_def by (rule shape_retry [OF shape_inner(2)])

lemma shape_slices: "slices e f req l r remain offset s = Some (x, s') \<Longrightarrow> shape s' = shape s"
proof (induction e f req l r remain offset s arbitrary: x s' rule: slices.induct)
  case (1 e f req l r remain offset s)
  show ?case
  proof (cases "remain = 0")
    case False
    let ?n = "min remain (HCOM_MAX_SLICE_SIZE (hcomBuild e))"
    let ?req = "req\<lparr>reqRAddress := r + offset, reqLAddress := l + offset, reqSize := ucast ?n\<rparr>"
    obtain y u where u: "submit e (f ?req) s = Some (y, u)"
      using 1(2) False by (subst (asm) slices.simps) (cases "submit e (f ?req) s"; auto simp: Let_def)
    have "shape u = shape s"
      by (rule shape_submit [OF u])
    with 1(1) [OF False refl refl u] 1(2) u False show ?thesis
      by (subst (asm) (2) slices.simps) (auto simp: Let_def split: if_splits)
  qed (use 1 in \<open>simp add: slices.simps\<close>)
qed

lemma shape_async [shape_rules]:
  "hcom_ReadRemoteAsync e r l a n s = Some (x, s') \<Longrightarrow> shape s' = shape s"
  "hcom_WriteRemoteAsync e r l a n s = Some (x, s') \<Longrightarrow> shape s' = shape s"
  by (auto simp: hcom_ReadRemoteAsync_def hcom_WriteRemoteAsync_def split: bind_splits sum.splits dest!: shape_slices)

lemma shape_batch_requests: "batch_requests e full r xs s = Some (x, s') \<Longrightarrow> shape s' = shape s"
  by (induction e full r xs s arbitrary: x s' rule: batch_requests.induct) (auto split: bind_splits sum.splits)

lemma shape_batch_groups: "batch_groups e full f r xs s = Some (x, s') \<Longrightarrow> shape s' = shape s"
proof (induction e full f r xs s arbitrary: x s' rule: batch_groups.induct)
  case (1 e full f r xs s)
  show ?case
  proof (cases "xs = []")
    case False
    obtain y u where u: "batch_requests e full r (take 4 xs) s = Some (y, u)"
      using 1(2) False by (subst (asm) batch_groups.simps) (cases "batch_requests e full r (take 4 xs) s"; auto)
    have su: "shape u = shape s"
      by (rule shape_batch_requests [OF u])
    show ?thesis
    proof (cases y)
      case (Inl ret)
      with 1(2) False u su show ?thesis
        by (subst (asm) batch_groups.simps) simp
    next
      case (Inr reqs)
      obtain z v where v: "submit e (f reqs) u = Some (z, v)"
        using 1(2) False u Inr by (subst (asm) batch_groups.simps) (cases "submit e (f reqs) u"; auto)
      have "shape v = shape u"
        by (rule shape_submit [OF v])
      with 1(1) [OF False u refl Inr v refl] 1(2) False u v Inr su show ?thesis
        by (subst (asm) (2) batch_groups.simps) (auto split: if_splits)
    qed
  qed (use 1 in \<open>simp add: batch_groups.simps\<close>)
qed

lemma shape_batch [shape_rules]:
  "hcom_WriteRemoteBatchAsync e r desc s = Some (x, s') \<Longrightarrow> shape s' = shape s"
  "hcom_ReadRemoteBatchAsync e r desc s = Some (x, s') \<Longrightarrow> shape s' = shape s"
  by (auto simp: hcom_WriteRemoteBatchAsync_def hcom_ReadRemoteBatchAsync_def split: bind_splits sum.splits if_splits dest!: shape_batch_groups)

lemma shape_register [shape_rules]: "hcom_RegisterMemoryRegion e mr s = Some (x, s') \<Longrightarrow> shape s' = shape s"
  by (auto simp: hcom_RegisterMemoryRegion_def register_host_def register_xpu_def Let_def
      split: if_splits bind_splits prod.splits dest!: shape_push)

lemma shape_unregister [shape_rules]: "hcom_UnregisterMemoryRegion e a s = Some (x, s') \<Longrightarrow> shape s' = shape s"
  by (auto simp: hcom_UnregisterMemoryRegion_def Let_def shape_def split: if_splits bind_splits option.splits prod.splits)

section \<open>Runs of the transport\<close>

definition new_hcom :: "HybmVaManager \<Rightarrow> 'd \<Rightarrow> 'd hcom" where
  "new_hcom va d = \<lparr>bmOptype = 0, hcomStream = None, localNic = [], localIp = [], rpcService = 0, hcomRankId = 0xFFFFFFFF,
     hcomRankCount = 0, mrs = [], nics = [], channels = [], vaMgr = va, net = d\<rparr>"

inductive hcom_step :: "'d hcom_env \<Rightarrow> 'd hcom \<Rightarrow> 'd hcom \<Rightarrow> bool" for e where
  open_step: "hcom_OpenDevice e opt s = Some (ret, s') \<Longrightarrow> optRankId opt < optRankCount opt \<Longrightarrow> hcom_step e s s'"
| close_step: "hcom_CloseDevice e s = Some (ret, s') \<Longrightarrow> hcom_step e s s'"
| register_step: "hcom_RegisterMemoryRegion e mr s = Some (ret, s') \<Longrightarrow> hcom_step e s s'"
| unregister_step: "hcom_UnregisterMemoryRegion e a s = Some (ret, s') \<Longrightarrow> hcom_step e s s'"
| prepare_step: "hcom_Prepare e opt s = Some (ret, s') \<Longrightarrow> hcom_step e s s'"
| connect_step: "hcom_Connect e s = Some (ret, s') \<Longrightarrow> hcom_step e s s'"
| update_step: "hcom_UpdateRankOptions e opt s = Some (ret, s') \<Longrightarrow> hcom_step e s s'"
| read_step: "hcom_ReadRemote e r l a n s = Some (ret, s') \<Longrightarrow> hcom_step e s s'"
| write_step: "hcom_WriteRemote e r l a n s = Some (ret, s') \<Longrightarrow> hcom_step e s s'"
| read_async_step: "hcom_ReadRemoteAsync e r l a n s = Some (ret, s') \<Longrightarrow> hcom_step e s s'"
| write_async_step: "hcom_WriteRemoteAsync e r l a n s = Some (ret, s') \<Longrightarrow> hcom_step e s s'"
| read_batch_step: "hcom_ReadRemoteBatchAsync e r desc s = Some (ret, s') \<Longrightarrow> hcom_step e s s'"
| write_batch_step: "hcom_WriteRemoteBatchAsync e r desc s = Some (ret, s') \<Longrightarrow> hcom_step e s s'"
| sync_step: "hcom_Synchronize e r s = Some (ret, s') \<Longrightarrow> hcom_step e s s'"
| broken_step: "TransportRpcHcomEndPointBroken ch payLoad s = Some (ret, s') \<Longrightarrow> hcom_step e s s'"

inductive hcom_reachable :: "'d hcom_env \<Rightarrow> HybmVaManager \<Rightarrow> 'd \<Rightarrow> 'd hcom \<Rightarrow> bool" for e va d where
  start: "hcom_reachable e va d (new_hcom va d)"
| step: "hcom_reachable e va d s \<Longrightarrow> hcom_step e s s' \<Longrightarrow> hcom_reachable e va d s'"

definition hcom_inv :: "'d hcom \<Rightarrow> bool" where
  "hcom_inv s \<longleftrightarrow> length (mrs s) = unat (hcomRankCount s) \<and> length (nics s) = unat (hcomRankCount s) \<and>
     length (channels s) = unat (hcomRankCount s) \<and> (rpcService s \<noteq> 0 \<longrightarrow> hcomRankId s < hcomRankCount s)"

text \<open>Documented of the library: a service that is not created has no handle, and the callbacks of accepted transfers come.\<close>

definition creates :: "'d hcom_api \<Rightarrow> bool" where
  "creates api \<longleftrightarrow> (\<forall>t d ret svc d'. ServiceCreate api t d = (ret, svc, d') \<longrightarrow> ret \<noteq> 0 \<longrightarrow> svc = 0)"

definition callbacks_come :: "'d hcom_api \<Rightarrow> bool" where
  "callbacks_come api \<longleftrightarrow> (\<forall>n d. awaitCallbacks api n d \<noteq> None)"

lemma hcom_inv_shape: "shape s' = shape s \<Longrightarrow> hcom_inv s' = hcom_inv s"
  by (simp add: shape_def hcom_inv_def)

lemma createsD: "creates api \<Longrightarrow> ServiceCreate api t d = (ret, svc, d') \<Longrightarrow> ret \<noteq> 0 \<Longrightarrow> svc = 0"
  unfolding creates_def by blast

lemma hcom_inv_open:
  assumes "creates (hcomApi e)" and "hcom_OpenDevice e opt s = Some (ret, s')" and "optRankId opt < optRankCount opt" and "hcom_inv s"
  shows "hcom_inv s'"
  using assms
  by (auto simp: hcom_OpenDevice_def CheckTransportOptions_def Let_def hcom_inv_def split: if_splits bind_splits prod.splits
      dest: createsD [OF assms(1)])

lemma hcom_inv_close: "hcom_CloseDevice e s = Some (ret, s') \<Longrightarrow> hcom_inv s \<Longrightarrow> hcom_inv s'"
  by (auto simp: hcom_CloseDevice_def hcom_inv_def split: if_splits bind_splits)

lemma hcom_inv_broken: "TransportRpcHcomEndPointBroken ch payLoad s = Some (ret, s') \<Longrightarrow> hcom_inv s \<Longrightarrow> hcom_inv s'"
  by (auto simp: TransportRpcHcomEndPointBroken_def HcomChannelDisconnected_def hcom_inv_def split: option.splits bind_splits if_splits)

lemma hcom_inv_step: "hcom_step e s s' \<Longrightarrow> creates (hcomApi e) \<Longrightarrow> hcom_inv s \<Longrightarrow> hcom_inv s'"
  by (induction rule: hcom_step.induct)
    (blast intro: hcom_inv_open hcom_inv_close hcom_inv_broken
      dest: shape_rules [THEN hcom_inv_shape])+

lemma hcom_inv_new: "hcom_inv (new_hcom va d)"
  by (simp add: hcom_inv_def new_hcom_def)

lemma hcom_inv_reachable: "hcom_reachable e va d s \<Longrightarrow> creates (hcomApi e) \<Longrightarrow> hcom_inv s"
  by (induction rule: hcom_reachable.induct) (blast intro: hcom_inv_new hcom_inv_step)+

section \<open>Every call has a defined result\<close>

definition opened :: "'d hcom \<Rightarrow> bool" where
  "opened s \<longleftrightarrow> hcom_inv s \<and> rpcService s \<noteq> 0"

lemma opened_shape: "shape s' = shape s \<Longrightarrow> opened s' = opened s \<and> hcomRankCount s' = hcomRankCount s"
  using hcom_inv_shape [of s' s] by (simp add: opened_def shape_def)

lemma vec_defined:
  assumes "hcom_inv s" and "r < hcomRankCount s"
  obtains ms nic ch where "vec_at (mrs s) r = Some ms" "vec_at (nics s) r = Some nic" "vec_at (channels s) r = Some ch"
  using assms that by (simp add: hcom_inv_def vec_at_def word_less_nat_alt)

lemma own_rank: "opened s \<Longrightarrow> hcomRankId s < hcomRankCount s"
  by (simp add: opened_def hcom_inv_def)

lemma Synchronize_defined: "callbacks_come (hcomApi e) \<Longrightarrow> \<exists>s'. hcom_Synchronize e r s = Some (BM_OK, s')"
proof (cases "hcomStream s")
  case (Some num)
  assume "callbacks_come (hcomApi e)"
  then obtain d where "awaitCallbacks (hcomApi e) (nat num) (net s) = Some d"
    unfolding callbacks_come_def by blast
  with Some show ?thesis
    by (simp add: hcom_Synchronize_def stream_Synchronize_def)
qed (simp add: hcom_Synchronize_def)

lemma region_defined: "hcom_inv s \<Longrightarrow> r < hcomRankCount s \<Longrightarrow> \<exists>m. GetMemoryRegionByAddr r a s = Some m"
  by (rule vec_defined [of s r]) (simp_all add: GetMemoryRegionByAddr_def)

lemma channel_defined: "hcom_inv s \<Longrightarrow> \<exists>c. find_channel r s = Some c"
proof (cases "r < hcomRankCount s")
  case True
  assume "hcom_inv s"
  from this True obtain ms nic ch where "vec_at (channels s) r = Some ch"
    by (rule vec_defined)
  then show ?thesis
    by (simp add: find_channel_def)
qed (simp add: find_channel_def)

lemma channel_rank: "find_channel r s = Some (Inr ch) \<Longrightarrow> r < hcomRankCount s \<and> rpcService s \<noteq> 0"
  by (auto simp: find_channel_def split: if_splits)

lemma keys_defined:
  assumes "opened s" and "r < hcomRankCount s"
  obtains x where "find_keys e full r l a n s = Some x"
proof -
  have inv: "hcom_inv s" "hcomRankId s < hcomRankCount s"
    using assms(1) own_rank by (auto simp: opened_def)
  obtain lm rm where "GetMemoryRegionByAddr (hcomRankId s) l s = Some lm" "GetMemoryRegionByAddr r a s = Some rm"
    using region_defined [OF inv] region_defined [OF inv(1) assms(2)] by metis
  then have "\<exists>x. find_keys e full r l a n s = Some x"
    by (cases lm; cases rm) (simp_all add: find_keys_def)
  with that show ?thesis
    by blast
qed

lemma stream_prepared: "hcomStream (PrepareThreadLocalStream s) \<noteq> None"
  by (simp add: PrepareThreadLocalStream_def split: option.split)

lemma submit_defined:
  assumes "callbacks_come (hcomApi e)" and "hcomStream s = Some num"
  obtains ret s' num' where "submit e f s = Some (ret, s')" "hcomStream s' = Some num'"
proof -
  obtain ret d where f: "f (net s) = (ret, d)"
    by (cases "f (net s)")
  have "\<exists>ret s' num'. submit e f s = Some (ret, s') \<and> hcomStream s' = Some num'"
  proof (cases "ret = 0")
    case False
    obtain s' where s': "hcom_Synchronize e (hcomRankId s) (s\<lparr>net := d, hcomStream := Some (FinishOne (stream_SubmitTasks 1 num))\<rparr>) = Some (BM_OK, s')"
      using Synchronize_defined [OF assms(1)] by blast
    then have "hcomStream s' \<noteq> None"
      by (auto simp: hcom_Synchronize_def split: bind_splits)
    with s' assms(2) f False show ?thesis
      by (auto simp: submit_def)
  qed (use assms f in \<open>simp add: submit_def\<close>)
  with that show ?thesis
    by blast
qed

lemma slices_defined:
  "callbacks_come (hcomApi e) \<Longrightarrow> hcomStream s \<noteq> None \<Longrightarrow> \<exists>y. slices e f req l r remain offset s = Some y"
proof (induction e f req l r remain offset s rule: slices.induct)
  case (1 e f req l r remain offset s)
  show ?case
  proof (cases "remain = 0")
    case False
    let ?n = "min remain (HCOM_MAX_SLICE_SIZE (hcomBuild e))"
    let ?req = "req\<lparr>reqRAddress := r + offset, reqLAddress := l + offset, reqSize := ucast ?n\<rparr>"
    obtain num where "hcomStream s = Some num"
      using 1(3) by auto
    with 1(2) obtain ret u num' where u: "submit e (f ?req) s = Some (ret, u)" "hcomStream u = Some num'"
      by (rule submit_defined)
    show ?thesis
    proof (cases "ret = 0")
      case True
      then show ?thesis
        using 1(1) [OF False refl refl u(1) refl] 1(2) u False by (subst slices.simps) (auto simp: Let_def)
    qed (use u False in \<open>subst slices.simps; simp add: Let_def\<close>)
  qed (simp add: slices.simps)
qed

lemma async_defined:
  assumes "callbacks_come (hcomApi e)" and "opened s"
  shows "hcom_ReadRemoteAsync e r l a n s \<noteq> None" and "hcom_WriteRemoteAsync e r l a n s \<noteq> None"
proof -
  obtain c where c: "find_channel r s = Some c"
    using channel_defined assms(2) by (auto simp: opened_def)
  have keys: "\<exists>x. find_keys e full r l a m s = Some x" if "c = Inr ch" for ch full m
  proof -
    have "r < hcomRankCount s"
      using channel_rank c that by blast
    with assms(2) show ?thesis
      by (meson keys_defined)
  qed
  have sl: "\<exists>x y. slices e f req l a n 0 (PrepareThreadLocalStream s) = Some (x, y)" for f req
    using slices_defined [OF assms(1) stream_prepared] by (metis surj_pair)
  show "hcom_ReadRemoteAsync e r l a n s \<noteq> None"
    using keys [of _ True "ucast n"] by (cases c) (auto simp: hcom_ReadRemoteAsync_def c sl split: sum.splits)
  show "hcom_WriteRemoteAsync e r l a n s \<noteq> None"
    using keys [of _ False "ucast n"] by (cases c) (auto simp: hcom_WriteRemoteAsync_def c sl split: sum.splits)
qed

lemma Connect_channel_defined: "hcom_inv s \<Longrightarrow> r < hcomRankCount s \<Longrightarrow> ConnectHcomChannel e r url s \<noteq> None"
  by (rule vec_defined [of s r]) (simp_all add: ConnectHcomChannel_def Let_def split: prod.split)

lemma Force_defined: "hcom_inv s \<Longrightarrow> \<exists>s'. ForceReConnectHcomChannel e r s = Some s'"
proof (cases "r < hcomRankCount s")
  case True
  assume inv: "hcom_inv s"
  obtain ms nic ch where v: "vec_at (nics s) r = Some nic" "vec_at (channels s) r = Some ch"
    by (rule vec_defined [OF inv True])
  have "hcom_inv (s\<lparr>channels := (channels s)[unat r := 0]\<rparr>)"
    using inv hcom_inv_shape [of "s\<lparr>channels := (channels s)[unat r := 0]\<rparr>" s] by simp
  then have "ConnectHcomChannel e r nic (s\<lparr>channels := (channels s)[unat r := 0]\<rparr>) \<noteq> None"
    using True by (simp add: Connect_channel_defined)
  with v True show ?thesis
    by (auto simp: ForceReConnectHcomChannel_def)
qed (simp add: ForceReConnectHcomChannel_def not_less)

lemma inner_defined:
  assumes "hcom_inv s"
  shows "\<exists>x s'. InnerReadRemote e r l a n s = Some (x, s')" and "\<exists>x s'. InnerWriteRemote e r l a n s = Some (x, s')"
proof -
  obtain c where c: "find_channel r s = Some c"
    using channel_defined [OF assms] by blast
  have keys: "\<exists>x. find_keys e full r l a m s = Some x" if "c = Inr ch" for ch full m
  proof -
    have "r < hcomRankCount s" and "opened s"
      using channel_rank c that assms by (auto simp: opened_def)
    then show ?thesis
      by (meson keys_defined)
  qed
  show "\<exists>x s'. InnerReadRemote e r l a n s = Some (x, s')"
    using keys [of _ False "ucast n"] by (cases c) (auto simp: InnerReadRemote_def c split: sum.splits prod.splits)
  show "\<exists>x s'. InnerWriteRemote e r l a n s = Some (x, s')"
    using keys [of _ False "ucast n"] by (cases c) (auto simp: InnerWriteRemote_def c split: sum.splits prod.splits)
qed

lemma retry_defined:
  assumes "\<And>s. hcom_inv s \<Longrightarrow> \<exists>x s'. f s = Some (x, s')" and "\<And>s x s'. f s = Some (x, s') \<Longrightarrow> shape s' = shape s"
  shows "hcom_inv s \<Longrightarrow> r < hcomRankCount s \<Longrightarrow> retry e f r n s \<noteq> None"
proof (induction n arbitrary: s)
  case (Suc n)
  obtain x u where u: "f s = Some (x, u)"
    using assms(1) Suc.prems(1) by blast
  have su: "shape u = shape s"
    by (rule assms(2) [OF u])
  then have inv: "hcom_inv u" "r < hcomRankCount u"
    using Suc.prems hcom_inv_shape [OF su] by (simp_all add: shape_def)
  obtain ms nic ch where ch: "vec_at (channels u) r = Some ch"
    by (rule vec_defined [OF inv])
  obtain v where v: "ForceReConnectHcomChannel e r u = Some v"
    using Force_defined [OF inv(1)] by blast
  have sv: "shape v = shape u"
    by (rule shape_Force [OF v])
  then have "retry e f r n v \<noteq> None"
    using Suc.IH [of v] inv hcom_inv_shape [OF sv] by (simp add: shape_def)
  moreover have "retry e f r n u \<noteq> None"
    using Suc.IH inv by blast
  ultimately show ?case
    using u ch v by auto
qed simp

lemma sync_defined:
  assumes "hcom_inv s" and "r < hcomRankCount s"
  shows "hcom_ReadRemote e r l a n s \<noteq> None" and "hcom_WriteRemote e r l a n s \<noteq> None"
  unfolding hcom_ReadRemote_def hcom_WriteRemote_def
  by (rule retry_defined [OF _ _ assms]; blast intro: inner_defined shape_inner)+

lemma batch_requests_defined:
  "opened s \<Longrightarrow> r < hcomRankCount s \<Longrightarrow> \<exists>x s'. batch_requests e full r xs s = Some (x, s') \<and>
    (xs \<noteq> [] \<longrightarrow> isl x \<or> hcomStream s' \<noteq> None)"
proof (induction e full r xs s rule: batch_requests.induct)
  case (2 e full r l a n xs s)
  obtain x where x: "find_keys e full r l a (ucast n) s = Some x"
    using keys_defined [OF 2(2,3)] by blast
  show ?case
  proof (cases x)
    case (Inr req)
    let ?s = "PrepareThreadLocalStream s"
    have "opened ?s" and "r < hcomRankCount ?s"
      using 2(2,3) opened_shape [of ?s s] by simp_all
    with 2(1) [OF x Inr] obtain y u where u: "batch_requests e full r xs ?s = Some (y, u)" "xs \<noteq> [] \<longrightarrow> isl y \<or> hcomStream u \<noteq> None"
      by blast
    moreover have "hcomStream u \<noteq> None" if "xs = []"
      using u(1) that stream_prepared by auto
    ultimately show ?thesis
      using x Inr by (cases y) auto
  qed (use x in simp)
qed simp

lemma batch_groups_defined:
  "callbacks_come (hcomApi e) \<Longrightarrow> opened s \<Longrightarrow> r < hcomRankCount s \<Longrightarrow> batch_groups e full f r xs s \<noteq> None"
proof (induction e full f r xs s rule: batch_groups.induct)
  case (1 e full f r xs s)
  show ?case
  proof (cases "xs = []")
    case False
    obtain y u where u: "batch_requests e full r (take 4 xs) s = Some (y, u)" "isl y \<or> hcomStream u \<noteq> None"
      using batch_requests_defined [OF 1(3,4), of e full "take 4 xs"] False by auto
    have su: "shape u = shape s"
      by (rule shape_batch_requests [OF u(1)])
    show ?thesis
    proof (cases y)
      case (Inr reqs)
      with u(2) obtain num where "hcomStream u = Some num"
        by auto
      with 1(2) obtain z v num' where v: "submit e (f reqs) u = Some (z, v)" "hcomStream v = Some num'"
        by (rule submit_defined)
      have "shape v = shape s"
        using shape_submit [OF v(1)] su by simp
      then have "opened v" and "r < hcomRankCount v"
        using 1(3,4) opened_shape by metis+
      with 1(1) [OF False u(1) refl Inr v(1) refl] 1(2) show ?thesis
        using False u(1) v(1) Inr by (subst batch_groups.simps) auto
    qed (use u False in \<open>subst batch_groups.simps; simp\<close>)
  qed (simp add: batch_groups.simps)
qed

lemma batch_defined:
  assumes "callbacks_come (hcomApi e)" and "opened s" and "length (localAddrs desc) = length (cdCounts desc)"
    and "length (globalAddrs desc) = length (cdCounts desc)"
  shows "hcom_ReadRemoteBatchAsync e r desc s \<noteq> None" and "hcom_WriteRemoteBatchAsync e r desc s \<noteq> None"
proof -
  obtain c where c: "find_channel r s = Some c"
    using channel_defined assms(2) by (auto simp: opened_def)
  have bg: "\<exists>x y. batch_groups e full f r xs s = Some (x, y)" if "c = Inr ch" for ch full f xs
    using batch_groups_defined [OF assms(1,2), of r] channel_rank [of r s ch] c that by auto
  obtain xs where "descriptor_entries desc = Some xs"
    using assms(3,4) by (simp add: descriptor_entries_def)
  then show "hcom_ReadRemoteBatchAsync e r desc s \<noteq> None" and "hcom_WriteRemoteBatchAsync e r desc s \<noteq> None"
    by (cases c; auto simp: hcom_ReadRemoteBatchAsync_def hcom_WriteRemoteBatchAsync_def c bg)+
qed

lemma registry_defined:
  assumes "opened s"
  shows "hcom_QueryHasRegistered a n s \<noteq> None" and "hcom_RegisterMemoryRegion e mr s \<noteq> None" and "hcom_QueryMemoryKey e a key s \<noteq> None"
proof -
  have inv: "hcom_inv s" "hcomRankId s < hcomRankCount s"
    using assms own_rank by (auto simp: opened_def)
  obtain ms nic ch where ms: "vec_at (mrs s) (hcomRankId s) = Some ms"
    by (rule vec_defined [OF inv])
  obtain m where m: "GetMemoryRegionByAddr (hcomRankId s) (regAddr mr) s = Some m"
    using region_defined [OF inv] by blast
  obtain k where k: "GetMemoryRegionByAddr (hcomRankId s) a s = Some k"
    using region_defined [OF inv] by blast
  show "hcom_QueryHasRegistered a n s \<noteq> None"
    by (simp add: hcom_QueryHasRegistered_def ms)
  show "hcom_QueryMemoryKey e a key s \<noteq> None"
    by (simp add: hcom_QueryMemoryKey_def k split: option.split)
  show "hcom_RegisterMemoryRegion e mr s \<noteq> None"
    by (simp add: hcom_RegisterMemoryRegion_def register_host_def register_xpu_def m ms push_mr_def Let_def split: prod.split)
qed

lemma index_rank: "i < unat (c :: u32) \<Longrightarrow> of_nat i < c \<and> unat (of_nat i :: u32) = i"
proof -
  assume i: "i < unat c"
  then have "i < 2 ^ 32"
    using unsigned_less [of c, where ?'a = nat] by simp
  then have "unat (of_nat i :: u32) = i"
    by (simp add: unsigned_of_nat take_bit_nat_eq_self)
  with i show ?thesis
    by (simp add: word_less_nat_alt)
qed

lemma connect_from_defined: "hcom_inv s \<Longrightarrow> i + n \<le> unat (hcomRankCount s) \<Longrightarrow> connect_from e i n s \<noteq> None"
proof (induction n arbitrary: i s)
  case (Suc n)
  have r: "of_nat i < hcomRankCount s"
    using index_rank [of i] Suc.prems(2) by simp
  obtain ms nic ch where nic: "vec_at (nics s) (of_nat i) = Some nic"
    by (rule vec_defined [OF Suc.prems(1) r])
  obtain x u where u: "ConnectHcomChannel e (of_nat i) nic s = Some (x, u)"
    using Connect_channel_defined [OF Suc.prems(1) r, of e nic] by auto
  have su: "shape u = shape s"
    by (rule shape_Connect_channel [OF u])
  have "connect_from e (Suc i) n u \<noteq> None"
    using Suc.IH [of u] Suc.prems hcom_inv_shape [OF su] su by (simp add: shape_def)
  moreover have "connect_from e (Suc i) n s \<noteq> None"
    using Suc by simp
  ultimately show ?case
    using nic u by auto
qed simp

lemma update_connects_defined: "hcom_inv s \<Longrightarrow> i + n \<le> unat (hcomRankCount s) \<Longrightarrow> update_connects e opt i n s \<noteq> None"
proof (induction n arbitrary: i s)
  case (Suc n)
  have r: "of_nat i < hcomRankCount s"
    using index_rank [of i] Suc.prems(2) by simp
  obtain ms nic ch where ch: "vec_at (channels s) (of_nat i) = Some ch"
    by (rule vec_defined [OF Suc.prems(1) r])
  have rest: "update_connects e opt (Suc i) n s \<noteq> None"
    using Suc by simp
  show ?case
  proof (cases "map_of opt (of_nat i)")
    case (Some info)
    let ?s = "s\<lparr>nics := (nics s)[i := prepNic info]\<rparr>"
    have "hcom_inv ?s" and "of_nat i < hcomRankCount ?s"
      using Suc.prems(1) r hcom_inv_shape [of ?s s] by simp_all
    then obtain x u where u: "ConnectHcomChannel e (of_nat i) (prepNic info) ?s = Some (x, u)"
      using Connect_channel_defined by (metis not_None_eq surj_pair)
    have su: "shape u = shape s"
      using shape_Connect_channel [OF u] by simp
    have "update_connects e opt (Suc i) n u \<noteq> None"
      using Suc.IH [of u] Suc.prems hcom_inv_shape [OF su] su by (simp add: shape_def)
    with rest ch u Some show ?thesis
      by auto
  qed (use rest ch in auto)
qed simp

lemma update_keys_defined: "hcom_inv s \<Longrightarrow> r < hcomRankCount s \<Longrightarrow> update_keys e r ks s \<noteq> None"
proof (induction ks arbitrary: s)
  case (Cons k ks)
  let ?info = "words_host_key k"
  obtain ret key d where imp: "(if bmOptype s AND HYBM_DOP_TYPE_HOST_URMA \<noteq> 0
      then ImportUrmaSeg (hcomApi e) (rpcService s) (smrAddress ?info) (smrSize ?info) (smrKey ?info) (net s)
      else (0, smrKey ?info, net s)) = (ret, key, d)"
    by (metis surj_pair)
  let ?m = "\<lparr>mrAddr = smrAddress ?info, mrSize = smrSize ?info, mrKey = key_to_words (hcomBuild e) key zero_key, mrHandle = 0\<rparr>"
  have "hcom_inv (s\<lparr>net := d\<rparr>)" and "r < hcomRankCount (s\<lparr>net := d\<rparr>)"
    using Cons.prems hcom_inv_shape [of "s\<lparr>net := d\<rparr>" s] by simp_all
  then obtain ms nic ch where "vec_at (mrs (s\<lparr>net := d\<rparr>)) r = Some ms"
    by (rule vec_defined)
  then obtain u where u: "set_region r ?m (s\<lparr>net := d\<rparr>) = Some u"
    by (simp add: set_region_def)
  have su: "shape u = shape s"
    using shape_set [OF u] by simp
  have "update_keys e r ks u \<noteq> None"
    using Cons.IH [of u] Cons.prems hcom_inv_shape [OF su] su by (simp add: shape_def)
  with Cons imp u show ?case
    by (simp add: Let_def del: if_split split: prod.split)
qed simp

lemma UpdateRankMrInfos_defined:
  "hcom_inv s \<Longrightarrow> ranks_ok opt s \<Longrightarrow> \<exists>x s'. UpdateRankMrInfos e opt s = Some (x, s')"
proof (induction opt arbitrary: s)
  case (Cons a opt)
  obtain r info where a: "a = (r, info)"
    by (cases a)
  have rk: "r < hcomRankCount s" "ranks_ok opt s"
    using Cons.prems(2) a by (auto simp: ranks_ok_def)
  obtain x u where u: "update_keys e r (prepMemKeys info) s = Some (x, u)"
    using update_keys_defined [OF Cons.prems(1) rk(1)] by (metis not_None_eq surj_pair)
  have su: "shape u = shape s"
    by (rule shape_update_keys [OF u])
  have "\<exists>x s'. UpdateRankMrInfos e opt u = Some (x, s')"
    using Cons.IH [of u] Cons.prems(1) rk(2) hcom_inv_shape [OF su] su by (simp add: shape_def ranks_ok_def)
  with Cons.IH [OF Cons.prems(1) rk(2)] u a show ?case
    by (auto split: sum.split)
qed simp

lemma ranks_defined:
  assumes "hcom_inv s"
  shows "hcom_Connect e s \<noteq> None" and "hcom_Prepare e opt s \<noteq> None" and "hcom_UpdateRankOptions e opt s \<noteq> None"
proof -
  let ?s = "s\<lparr>nics := fold (\<lambda>(r, info) ns. ns[unat r := prepNic info]) opt (nics s)\<rparr>"
  show "hcom_Connect e s \<noteq> None"
    using connect_from_defined [OF assms, of 0 "unat (hcomRankCount s)"] by (simp add: hcom_Connect_def)
  have "hcom_inv ?s"
    using assms hcom_inv_shape [OF shape_nics] by blast
  then show "hcom_Prepare e opt s \<noteq> None"
    using UpdateRankMrInfos_defined [of ?s opt e] by (auto simp: hcom_Prepare_def ranks_ok_def)
  show "hcom_UpdateRankOptions e opt s \<noteq> None"
  proof (cases "ranks_ok opt s")
    case True
    obtain x u where u: "UpdateRankMrInfos e opt s = Some (x, u)"
      using UpdateRankMrInfos_defined [OF assms True] by blast
    have su: "shape u = shape s"
      by (rule shape_UpdateRankMrInfos [OF u])
    have "update_connects e opt 0 (unat (hcomRankCount u)) u \<noteq> None"
      using update_connects_defined [of u 0] assms hcom_inv_shape [OF su] by simp
    with u True show ?thesis
      by (simp add: hcom_UpdateRankOptions_def)
  qed (simp add: hcom_UpdateRankOptions_def)
qed

lemma close_channels_defined: "hcom_inv s \<Longrightarrow> i + n \<le> unat (hcomRankCount s) \<Longrightarrow> close_channels e i n s \<noteq> None"
proof (induction n arbitrary: i s)
  case (Suc n)
  have r: "of_nat i < hcomRankCount s"
    using index_rank [of i] Suc.prems(2) by simp
  obtain ms nic ch where ch: "vec_at (channels s) (of_nat i) = Some ch"
    by (rule vec_defined [OF Suc.prems(1) r])
  have "\<exists>u. DisConnectHcomChannel e (of_nat i) ch s = Some u \<and> shape u = shape s"
    using ch by (cases "rpcService s = 0") (simp_all add: DisConnectHcomChannel_def Let_def shape_def)
  then obtain u where u: "DisConnectHcomChannel e (of_nat i) ch s = Some u" "shape u = shape s"
    by blast
  have "close_channels e (Suc i) n u \<noteq> None"
    using Suc.IH [of u] Suc.prems hcom_inv_shape [OF u(2)] u(2) by (simp add: shape_def)
  moreover have "close_channels e (Suc i) n s \<noteq> None"
    using Suc by simp
  ultimately show ?case
    using ch u(1) by auto
qed simp

lemma retry_bad_rank:
  assumes "f s = Some (BM_INVALID_PARAM, s)" and "hcom_inv s" and "\<not> r < hcomRankCount s"
  shows "retry e f r (Suc n) s = None"
  using assms by (simp add: vec_at_def hcom_inv_def word_less_nat_alt)

section \<open>Properties\<close>


text \<open>A library for examples: it accepts everything and has no memory.\<close>

definition quiet_api :: "unit hcom_api" where
  "quiet_api = \<lparr>ServiceCreate = (\<lambda>_ d. (0, 1, d)), ServiceSetTlsOptions = (\<lambda>_ _ d. d), ServiceRegisterHandlers = (\<lambda>_ d. d),
     ServiceSetDeviceIpMask = (\<lambda>_ _ d. d), ServiceBind = (\<lambda>_ _ d. d), ServiceStart = (\<lambda>_ d. (0, d)), ServiceDestroy = (\<lambda>_ d. d),
     ServiceConnect = (\<lambda>_ _ _ d. (0, 9, d)), ServiceDisConnect = (\<lambda>_ _ d. d),
     ServiceRegisterAssignMemoryRegion = (\<lambda>_ _ _ d. (0, 5, d)),
     ServiceGetMemoryRegionInfo = (\<lambda>_ d. (0, \<lparr>smrAddress = 0, smrKey = zero_osk, smrSize = 0\<rparr>, d)),
     ServiceDestroyMemoryRegion = (\<lambda>_ _ d. d), ImportUrmaSeg = (\<lambda>_ _ _ k d. (0, k, d)), ChannelGet = (\<lambda>_ _ _ d. (0, d)),
     ChannelPut = (\<lambda>_ _ _ d. (0, d)), ChannelGetV = (\<lambda>_ _ d. (0, d)), ChannelPutV = (\<lambda>_ _ d. (0, d)),
     awaitCallbacks = (\<lambda>_ d. Some d), CloseTlsLib = (\<lambda>d. d)\<rparr>"

definition quiet_env :: "unit hcom_env" where
  "quiet_env = \<lparr>hcomApi = quiet_api, hcomBuild = ASCEND_NPU, hcomInterfaces = None, uninitKey = zero_osk\<rparr>"

definition example_open :: TransportOptions where
  "example_open = \<lparr>optRankId = 0, optRankCount = 2, optProtocol = HYBM_DOP_TYPE_HOST_RDMA,
     optNic = TCP_PREFIX @ inet_ntop 0xC0A80001 @ 58 # dec_digits 10023, optTlsEnable = False\<rparr>"

lemma example_opened:
  "\<exists>s. hcom_reachable quiet_env va_manager () s \<and> rpcService s \<noteq> 0 \<and> hcomRankCount s = 2"
proof -
  have "AnalysisNic None (optNic example_open) ([], [], 0) = Some (BM_OK, TCP_PREFIX, inet_ntop 0xC0A80001, 10023)"
    using AnalysisNic_tcp [of 10023 None "0xC0A80001" "([], [], 0)"] by (simp add: example_open_def)
  then have "\<exists>s. hcom_OpenDevice quiet_env example_open (new_hcom va_manager ()) = Some (BM_OK, s) \<and> rpcService s \<noteq> 0 \<and> hcomRankCount s = 2"
    by (simp add: hcom_OpenDevice_def CheckTransportOptions_def new_hcom_def quiet_env_def quiet_api_def Let_def)
      (simp add: example_open_def)
  then obtain s where s: "hcom_OpenDevice quiet_env example_open (new_hcom va_manager ()) = Some (BM_OK, s)" "rpcService s \<noteq> 0" "hcomRankCount s = 2"
    by blast
  have "hcom_step quiet_env (new_hcom va_manager ()) s"
    by (rule open_step [OF s(1)]) (simp add: example_open_def)
  with hcom_reachable.start have "hcom_reachable quiet_env va_manager () s"
    by (rule hcom_reachable.step)
  with s show ?thesis
    by blast
qed


end
