(* ===== verification/Data_Op_Host_Rdma.thy ===== *)
theory Data_Op_Host_Rdma
  imports Data_Op_Sdma Range_Pool Transport
begin

unbundle bit_operations_syntax

text \<open>
  The data operator over the network of the host (\<^verbatim>\<open>src/hybm/csrc/data_operation/host/hybm_data_op_host_rdma.h/.cpp\<close>,
  \<open>HostDataOpRDMA\<close>) and the copies of \<^verbatim>\<open>src/hybm/csrc/under_api/dl_hybrid_api.h\<close> it makes. Data to or from another rank goes
  through a swap buffer in registered memory; the ranges of the buffer come from the pool of theory
  \<open>Range_Pool\<close>, and an element of the pool is given back when its scope ends, on every path.

  The transport is a parameter of the type of its interface, \<open>None\<close> for the null pointer. The accelerator
  runtime, the host memory and the calls of the operating system are the parameter \<open>'w rdma_env\<close>, on the
  same state \<open>'w\<close> as the transport. A \<open>None\<close> is a null pointer that is used or an array read outside its bounds.
\<close>

section \<open>Environment and state\<close>

record 'w rdma_env =
  rdBuild :: xpu
  rdRank :: u32
  rdTm :: "'w transport option"
  rdSpaces :: gva_spaces
  rdVa :: "'w \<Rightarrow> HybmVaManager"
  sysMmap :: "u64 \<Rightarrow> 'w \<Rightarrow> u64 option \<times> 'w"
  sysMunmap :: "u64 \<Rightarrow> u64 \<Rightarrow> 'w \<Rightarrow> 'w"
  hostCopy :: "u64 \<Rightarrow> u64 \<Rightarrow> u64 \<Rightarrow> 'w \<Rightarrow> 'w"
  xpuMemcpy :: "u64 \<Rightarrow> u64 \<Rightarrow> u64 \<Rightarrow> aclrtMemcpyKind \<Rightarrow> 'w \<Rightarrow> result \<times> 'w"
  xpuMemcpyAsync :: "u64 \<Rightarrow> u64 \<Rightarrow> u64 \<Rightarrow> aclrtMemcpyKind \<Rightarrow> u64 \<Rightarrow> 'w \<Rightarrow> result \<times> 'w"
  xpuStreamSynchronize :: "u64 \<Rightarrow> 'w \<Rightarrow> result \<times> 'w"
  xpuThreadStream :: "'w \<Rightarrow> u64 \<times> 'w"

record 'w host_rdma =
  rdInited :: bool
  rdSwapBase :: u64
  rdPool :: "RbtreeRangePool option"
  world :: 'w

definition RDMA_SWAP_SPACE_SIZE :: "xpu \<Rightarrow> u64" where
  "RDMA_SWAP_SPACE_SIZE b = (if b = NO_XPU then 4294967296 else 1073741824)"

abbreviation (input) HYBM_PRE_REG_SIZE_THRES :: u64 where "HYBM_PRE_REG_SIZE_THRES \<equiv> 8388608"
abbreviation (input) SMALL_IO_LIMIT_SIZE :: u64 where "SMALL_IO_LIMIT_SIZE \<equiv> 8192"

section \<open>DlHybridApi\<close>

text \<open>Every call has the size of the data as the size of the destination.\<close>

definition hybrid_Memcpy :: "'w rdma_env \<Rightarrow> u64 \<Rightarrow> u64 \<Rightarrow> u64 \<Rightarrow> aclrtMemcpyKind \<Rightarrow> 'w \<Rightarrow> result \<times> 'w" where
  "hybrid_Memcpy e dst src n kind w =
     (if rdBuild e = NO_XPU then
        if kind \<noteq> ACL_MEMCPY_HOST_TO_HOST then (BM_INVALID_PARAM, w) else (BM_OK, hostCopy e dst src n w)
      else xpuMemcpy e dst src n kind w)"

definition hybrid_MemcpyAsync :: "'w rdma_env \<Rightarrow> u64 \<Rightarrow> u64 \<Rightarrow> u64 \<Rightarrow> aclrtMemcpyKind \<Rightarrow> u64 \<Rightarrow> 'w \<Rightarrow> result \<times> 'w" where
  "hybrid_MemcpyAsync e dst src n kind st w =
     (if rdBuild e = NO_XPU then (BM_NOT_SUPPORTED, w) else xpuMemcpyAsync e dst src n kind st w)"

definition hybrid_StreamSynchronize :: "'w rdma_env \<Rightarrow> u64 \<Rightarrow> 'w \<Rightarrow> result \<times> 'w" where
  "hybrid_StreamSynchronize e st w = (if rdBuild e = NO_XPU then (BM_NOT_SUPPORTED, w) else xpuStreamSynchronize e st w)"

definition rd_Memcpy :: "'w rdma_env \<Rightarrow> u64 \<Rightarrow> u64 \<Rightarrow> u64 \<Rightarrow> aclrtMemcpyKind \<Rightarrow> 'w host_rdma \<Rightarrow> result \<times> 'w host_rdma" where
  "rd_Memcpy e dst src n kind s = (let (ret, w) = hybrid_Memcpy e dst src n kind (world s) in (ret, s\<lparr>world := w\<rparr>))"

text \<open>A call of the transport; on a null pointer it is undefined.\<close>

definition tm_call :: "'w rdma_env \<Rightarrow> ('w transport \<Rightarrow> 'w \<Rightarrow> ('a \<times> 'w) cpp) \<Rightarrow> 'w host_rdma \<Rightarrow> ('a \<times> 'w host_rdma) cpp" where
  "tm_call e f s = do { tm \<leftarrow> rdTm e; (x, w) \<leftarrow> f tm (world s); Some (x, s\<lparr>world := w\<rparr>) }"

section \<open>Opening and closing\<close>

text \<open>When registering fails, the mapped memory is given to \<open>free\<close>, which is undefined.\<close>

definition rd_Initialize :: "'w rdma_env \<Rightarrow> 'w host_rdma \<Rightarrow> (result \<times> 'w host_rdma) cpp" where
  "rd_Initialize e s =
     (if rdInited s then Some (BM_OK, s)
      else
        let len = RDMA_SWAP_SPACE_SIZE (rdBuild e); (m, w) = sysMmap e len (world s); s = s\<lparr>world := w\<rparr>
        in case m of
             None \<Rightarrow> Some (BM_ERROR, s\<lparr>rdSwapBase := - 1\<rparr>)
           | Some base \<Rightarrow> do {
               let s = s\<lparr>rdSwapBase := base\<rparr>;
               (ret, s) \<leftarrow> (if rdTm e = None then Some (BM_OK, s)
                 else tm_call e (\<lambda>tm. tmRegisterMemoryRegion tm \<lparr>regAddr = base, regSize = len, regFlags = REG_MR_FLAG_DRAM\<rparr>) s);
               if ret \<noteq> BM_OK then None
               else Some (BM_OK, s\<lparr>rdPool := Some (new_pool base len), rdInited := True\<rparr>)
             })"

definition rd_UnInitialize :: "'w rdma_env \<Rightarrow> 'w host_rdma \<Rightarrow> 'w host_rdma cpp" where
  "rd_UnInitialize e s =
     (if \<not> rdInited s then Some s
      else do {
        (_, s) \<leftarrow> (if rdTm e \<noteq> None \<and> rdSwapBase s \<noteq> 0 then tm_call e (\<lambda>tm. tmUnregisterMemoryRegion tm (rdSwapBase s)) s else Some (BM_OK, s));
        let s = (if rdSwapBase s \<noteq> 0 then
          s\<lparr>world := sysMunmap e (rdSwapBase s) (RDMA_SWAP_SPACE_SIZE (rdBuild e)) (world s), rdSwapBase := 0\<rparr> else s);
        Some (s\<lparr>rdInited := False\<rparr>)
      })"

section \<open>Registration of the local buffer\<close>

definition is_local_src :: "hybm_data_copy_direction \<Rightarrow> bool" where
  "is_local_src dir \<longleftrightarrow> dir \<in> {HYBM_LOCAL_HOST_TO_GLOBAL_HOST, HYBM_LOCAL_HOST_TO_GLOBAL_DEVICE, HYBM_LOCAL_DEVICE_TO_GLOBAL_HOST,
     HYBM_LOCAL_DEVICE_TO_GLOBAL_DEVICE}"

definition GetLocalMrAddr :: "'w rdma_env \<Rightarrow> hybm_copy_params \<Rightarrow> hybm_data_copy_direction \<Rightarrow> 'w host_rdma \<Rightarrow> u64 cpp" where
  "GetLocalMrAddr e p dir s = do {
     dir \<leftarrow> (if dir = HYBM_DATA_COPY_DIRECTION_AUTO then InferCopyDirection (cpSrc p) (cpDest p) (rdVa e (world s)) else Some dir);
     Some (if is_local_src dir then cpSrc p else cpDest p)
   }"

definition PreRegisterLocalMr :: "'w rdma_env \<Rightarrow> hybm_copy_params \<Rightarrow> hybm_data_copy_direction \<Rightarrow> 'w host_rdma \<Rightarrow> 'w host_rdma cpp" where
  "PreRegisterLocalMr e p dir s =
     (if rdTm e = None \<or> dataSize p \<le> HYBM_PRE_REG_SIZE_THRES then Some s
      else do {
        a \<leftarrow> GetLocalMrAddr e p dir s;
        (has, s) \<leftarrow> tm_call e (\<lambda>tm w. do { h \<leftarrow> tmQueryHasRegistered tm a (dataSize p) w; Some (h, w) }) s;
        if has then Some s
        else do {
          (_, s) \<leftarrow> tm_call e (\<lambda>tm. tmRegisterMemoryRegion tm \<lparr>regAddr = a, regSize = dataSize p, regFlags = REG_MR_FLAG_DRAM\<rparr>) s;
          Some s
        }
      })"

definition unregister_local :: "'w rdma_env \<Rightarrow> hybm_copy_params \<Rightarrow> hybm_data_copy_direction \<Rightarrow> 'w host_rdma \<Rightarrow> 'w host_rdma cpp" where
  "unregister_local e p dir s = do {
     a \<leftarrow> GetLocalMrAddr e p dir s;
     (_, s) \<leftarrow> tm_call e (\<lambda>tm. tmUnregisterMemoryRegion tm a) s;
     Some s
   }"

section \<open>Single copies\<close>

text \<open>The scope of an element of the pool; the address of an element that was not allocated is null.\<close>

definition with_swap :: "u64 \<Rightarrow> (u64 \<Rightarrow> 'w host_rdma \<Rightarrow> ('a \<times> 'w host_rdma) cpp) \<Rightarrow> 'a \<Rightarrow> 'w host_rdma \<Rightarrow> ('a \<times> 'w host_rdma) cpp" where
  "with_swap n f failed s = do {
     p \<leftarrow> rdPool s;
     case Allocate n p of
       (None, p) \<Rightarrow> Some (failed, s\<lparr>rdPool := Some p\<rparr>)
     | (Some el, p) \<Rightarrow> do {
         (x, s) \<leftarrow> f (fst el) (s\<lparr>rdPool := Some p\<rparr>);
         p \<leftarrow> rdPool s;
         Some (x, s\<lparr>rdPool := Some (snd (Release el p))\<rparr>)
       }
   }"

definition put_chunk :: "'w rdma_env \<Rightarrow> u32 \<Rightarrow> bool \<Rightarrow> u64 \<Rightarrow> u64 \<Rightarrow> u64 \<Rightarrow> u64 \<Rightarrow> 'w host_rdma \<Rightarrow> (result \<times> 'w host_rdma) cpp" where
  "put_chunk e rank isLocalHost src dest n tmpHost s =
     (let (ret, s) = rd_Memcpy e tmpHost src n (if isLocalHost then ACL_MEMCPY_HOST_TO_HOST else ACL_MEMCPY_DEVICE_TO_HOST) s
      in if ret \<noteq> BM_OK then Some (ret, s) else tm_call e (\<lambda>tm. tmWriteRemote tm rank tmpHost dest n) s)"

definition get_chunk :: "'w rdma_env \<Rightarrow> u32 \<Rightarrow> bool \<Rightarrow> u64 \<Rightarrow> u64 \<Rightarrow> u64 \<Rightarrow> u64 \<Rightarrow> 'w host_rdma \<Rightarrow> (result \<times> 'w host_rdma) cpp" where
  "get_chunk e rank isLocalHost src dest n tmpHost s = do {
     (ret, s) \<leftarrow> tm_call e (\<lambda>tm. tmReadRemote tm rank tmpHost src n) s;
     if ret \<noteq> BM_OK then Some (ret, s)
     else Some (rd_Memcpy e dest tmpHost n (if isLocalHost then ACL_MEMCPY_HOST_TO_HOST else ACL_MEMCPY_HOST_TO_DEVICE) s)
   }"

text \<open>The loop of \<open>SafePut\<close> and \<open>SafeGet\<close>; \<open>f\<close> is its body between allocating and giving back.\<close>

function chunks ::
    "xpu \<Rightarrow> (u64 \<Rightarrow> u64 \<Rightarrow> u64 \<Rightarrow> u64 \<Rightarrow> 'w host_rdma \<Rightarrow> (result \<times> 'w host_rdma) cpp) \<Rightarrow> u64 \<Rightarrow> u64 \<Rightarrow> u64 \<Rightarrow> u64 \<Rightarrow> 'w host_rdma \<Rightarrow>
      (result \<times> 'w host_rdma) cpp" where
  "chunks b f src dest remaining off s =
     (if remaining = 0 then Some (BM_OK, s)
      else let n = min remaining (RDMA_SWAP_SPACE_SIZE b) in do {
        (ret, s) \<leftarrow> with_swap n (f (src + off) (dest + off) n) BM_MALLOC_FAILED s;
        if ret \<noteq> BM_OK then Some (ret, s) else chunks b f src dest (remaining - n) (off + n) s
      })"
  by pat_completeness auto
termination
proof (relation "measure (\<lambda>(b, f, src, dest, remaining, off, s). unat remaining)", goal_cases)
  case (2 b f src dest remaining off s n)
  then have "0 < n" and "n \<le> remaining"
    by (auto simp: RDMA_SWAP_SPACE_SIZE_def min_def word_neq_0_conv split: if_splits)
  then have "unat (remaining - n) < unat remaining"
    by (metis unat_sub word_le_nat_alt diff_less unat_0 word_less_nat_alt less_le_trans)
  then show ?case
    by simp
qed simp

declare chunks.simps [simp del]

definition SafePut :: "'w rdma_env \<Rightarrow> u64 \<Rightarrow> u64 \<Rightarrow> u64 \<Rightarrow> ExtOptions \<Rightarrow> bool \<Rightarrow> 'w host_rdma \<Rightarrow> (result \<times> 'w host_rdma) cpp" where
  "SafePut e srcVA destVA len opt isLocalHost s = chunks (rdBuild e) (put_chunk e (destRankId opt) isLocalHost) srcVA destVA len 0 s"

definition SafeGet :: "'w rdma_env \<Rightarrow> u64 \<Rightarrow> u64 \<Rightarrow> u64 \<Rightarrow> ExtOptions \<Rightarrow> bool \<Rightarrow> 'w host_rdma \<Rightarrow> (result \<times> 'w host_rdma) cpp" where
  "SafeGet e srcVA destVA len opt isLocalHost s = chunks (rdBuild e) (get_chunk e (srcRankId opt) isLocalHost) srcVA destVA len 0 s"

definition CopyHost2Gva :: "'w rdma_env \<Rightarrow> u64 \<Rightarrow> u64 \<Rightarrow> u64 \<Rightarrow> ExtOptions \<Rightarrow> 'w host_rdma \<Rightarrow> (result \<times> 'w host_rdma) cpp" where
  "CopyHost2Gva e srcVA destVA len opt s =
     (if destRankId opt = rdRank e then Some (rd_Memcpy e destVA srcVA len ACL_MEMCPY_HOST_TO_HOST s)
      else if rdTm e \<noteq> None then SafePut e srcVA destVA len opt True s
      else Some (BM_ERROR, s))"

definition CopyGva2Host :: "'w rdma_env \<Rightarrow> u64 \<Rightarrow> u64 \<Rightarrow> u64 \<Rightarrow> ExtOptions \<Rightarrow> 'w host_rdma \<Rightarrow> (result \<times> 'w host_rdma) cpp" where
  "CopyGva2Host e srcVA destVA len opt s =
     (if srcRankId opt = rdRank e then Some (rd_Memcpy e destVA srcVA len ACL_MEMCPY_HOST_TO_HOST s)
      else if rdTm e \<noteq> None then SafeGet e srcVA destVA len opt True s
      else Some (BM_ERROR, s))"

definition CopyDevice2Gva :: "'w rdma_env \<Rightarrow> u64 \<Rightarrow> u64 \<Rightarrow> u64 \<Rightarrow> ExtOptions \<Rightarrow> 'w host_rdma \<Rightarrow> (result \<times> 'w host_rdma) cpp" where
  "CopyDevice2Gva e srcVA destVA len opt s =
     (if destRankId opt = rdRank e then Some (rd_Memcpy e destVA srcVA len ACL_MEMCPY_DEVICE_TO_HOST s)
      else if rdTm e \<noteq> None then SafePut e srcVA destVA len opt False s
      else Some (BM_ERROR, s))"

definition CopyGva2Device :: "'w rdma_env \<Rightarrow> u64 \<Rightarrow> u64 \<Rightarrow> u64 \<Rightarrow> ExtOptions \<Rightarrow> 'w host_rdma \<Rightarrow> (result \<times> 'w host_rdma) cpp" where
  "CopyGva2Device e srcVA destVA len opt s =
     (if srcRankId opt = rdRank e then Some (rd_Memcpy e destVA srcVA len ACL_MEMCPY_HOST_TO_DEVICE s)
      else if rdTm e \<noteq> None then SafeGet e srcVA destVA len opt False s
      else Some (BM_ERROR, s))"

definition CopyGva2Gva :: "'w rdma_env \<Rightarrow> u64 \<Rightarrow> u64 \<Rightarrow> u64 \<Rightarrow> ExtOptions \<Rightarrow> 'w host_rdma \<Rightarrow> (result \<times> 'w host_rdma) cpp" where
  "CopyGva2Gva e srcVA destVA len opt s =
     (if srcRankId opt = rdRank e then CopyHost2Gva e srcVA destVA len opt s
      else if destRankId opt = rdRank e then CopyGva2Host e srcVA destVA len opt s
      else Some (BM_INVALID_PARAM, s))"

definition copy_by_direction ::
    "'w rdma_env \<Rightarrow> hybm_copy_params \<Rightarrow> hybm_data_copy_direction \<Rightarrow> ExtOptions \<Rightarrow> 'w host_rdma \<Rightarrow> (result \<times> 'w host_rdma) cpp" where
  "copy_by_direction e p dir opt s =
     (case dir of
        HYBM_LOCAL_HOST_TO_GLOBAL_HOST \<Rightarrow> CopyHost2Gva e (cpSrc p) (cpDest p) (dataSize p) opt s
      | HYBM_LOCAL_DEVICE_TO_GLOBAL_HOST \<Rightarrow> CopyDevice2Gva e (cpSrc p) (cpDest p) (dataSize p) opt s
      | HYBM_GLOBAL_HOST_TO_GLOBAL_HOST \<Rightarrow> CopyGva2Gva e (cpSrc p) (cpDest p) (dataSize p) opt s
      | HYBM_GLOBAL_HOST_TO_LOCAL_HOST \<Rightarrow> CopyGva2Host e (cpSrc p) (cpDest p) (dataSize p) opt s
      | HYBM_GLOBAL_HOST_TO_LOCAL_DEVICE \<Rightarrow> CopyGva2Device e (cpSrc p) (cpDest p) (dataSize p) opt s
      | _ \<Rightarrow> Some (BM_INVALID_PARAM, s))"

definition rd_DataCopy ::
    "'w rdma_env \<Rightarrow> hybm_copy_params \<Rightarrow> hybm_data_copy_direction \<Rightarrow> ExtOptions \<Rightarrow> 'w host_rdma \<Rightarrow> (result \<times> 'w host_rdma) cpp" where
  "rd_DataCopy e p dir opt s =
     (if \<not> rdInited s then Some (BM_NOT_INITIALIZED, s)
      else do {
        s \<leftarrow> PreRegisterLocalMr e p dir s;
        (ret, s) \<leftarrow> copy_by_direction e p dir opt s;
        s \<leftarrow> unregister_local e p dir s;
        Some (ret, s)
      })"

definition rd_DataCopyAsync :: "'w host_rdma \<Rightarrow> (result \<times> 'w host_rdma) cpp" where
  "rd_DataCopyAsync s = (if \<not> rdInited s then Some (BM_NOT_INITIALIZED, s) else Some (BM_ERROR, s))"

definition rd_Wait :: "'w host_rdma \<Rightarrow> (result \<times> 'w host_rdma) cpp" where
  "rd_Wait s = (if \<not> rdInited s then Some (BM_NOT_INITIALIZED, s) else Some (BM_OK, s))"

section \<open>Batches of local copies\<close>

text \<open>Entries of a batch on one side of the swap buffer: destination, source and size.\<close>

fun memcpy_async_all :: "'w rdma_env \<Rightarrow> aclrtMemcpyKind \<Rightarrow> u64 \<Rightarrow> (u64 \<times> u64 \<times> u64) list \<Rightarrow> 'w \<Rightarrow> result \<times> 'w" where
  "memcpy_async_all e kind st [] w = (BM_OK, w)"
| "memcpy_async_all e kind st ((dst, src, n) # xs) w =
     (let (ret, w) = hybrid_MemcpyAsync e dst src n kind st w
      in if ret \<noteq> 0 then (BM_DL_FUNCTION_FAILED, w) else memcpy_async_all e kind st xs w)"

definition batch_copy_stream :: "'w rdma_env \<Rightarrow> aclrtMemcpyKind \<Rightarrow> ExtOptions \<Rightarrow> (u64 \<times> u64 \<times> u64) list \<Rightarrow> 'w host_rdma \<Rightarrow> result \<times> 'w host_rdma" where
  "batch_copy_stream e kind opt xs s =
     (let (st, w) = (if extStream opt = 0 then xpuThreadStream e (world s) else (extStream opt, world s));
          (ret, w) = memcpy_async_all e kind st xs w
      in if ret \<noteq> 0 then (ret, s\<lparr>world := w\<rparr>)
         else let (ret, w) = hybrid_StreamSynchronize e st w in (ret, s\<lparr>world := w\<rparr>))"

definition BatchCopyLD2LH :: "'w rdma_env \<Rightarrow> (u64 \<times> u64 \<times> u64) list \<Rightarrow> ExtOptions \<Rightarrow> 'w host_rdma \<Rightarrow> result \<times> 'w host_rdma" where
  "BatchCopyLD2LH e xs opt s = batch_copy_stream e ACL_MEMCPY_DEVICE_TO_HOST opt xs s"

definition BatchCopyLH2LD :: "'w rdma_env \<Rightarrow> (u64 \<times> u64 \<times> u64) list \<Rightarrow> ExtOptions \<Rightarrow> 'w host_rdma \<Rightarrow> result \<times> 'w host_rdma" where
  "BatchCopyLH2LD e xs opt s = batch_copy_stream e ACL_MEMCPY_HOST_TO_DEVICE opt xs s"

fun BatchCopyLH2LH :: "'w rdma_env \<Rightarrow> (u64 \<times> u64 \<times> u64) list \<Rightarrow> 'w host_rdma \<Rightarrow> result \<times> 'w host_rdma" where
  "BatchCopyLH2LH e [] s = (BM_OK, s)"
| "BatchCopyLH2LH e ((dst, src, n) # xs) s =
     (let (ret, s) = rd_Memcpy e dst src n ACL_MEMCPY_HOST_TO_HOST s in if ret \<noteq> 0 then (ret, s) else BatchCopyLH2LH e xs s)"

section \<open>Batches through the swap buffer\<close>

text \<open>
  A descriptor is the list of its entries: local address, global address, size. How many of them fit into the swap
  buffer, and how large they are together.
\<close>

type_synonym entry = "u64 \<times> u64 \<times> u64"

fun batch_fit :: "u64 \<Rightarrow> u64 \<Rightarrow> entry list \<Rightarrow> nat \<times> u64" where
  "batch_fit cap cur [] = (0, cur)"
| "batch_fit cap cur ((l, g, n) # xs) =
     (if cur + n \<le> cap then let (k, t) = batch_fit cap (cur + n) xs in (Suc k, t) else (0, cur))"

text \<open>The entries with their addresses in the swap buffer.\<close>

fun place :: "u64 \<Rightarrow> entry list \<Rightarrow> (u64 \<times> entry) list" where
  "place tmp [] = []"
| "place tmp ((l, g, n) # xs) = (tmp, l, g, n) # place (tmp + n) xs"

text \<open>Asynchronous transfers until one is refused, and the wait for them.\<close>

fun submit_all :: "('a \<Rightarrow> 'w host_rdma \<Rightarrow> (result \<times> 'w host_rdma) cpp) \<Rightarrow> 'a list \<Rightarrow> 'w host_rdma \<Rightarrow> (result \<times> 'w host_rdma) cpp" where
  "submit_all f [] s = Some (BM_OK, s)"
| "submit_all f (x # xs) s = do { (ret, s) \<leftarrow> f x s; if ret \<noteq> BM_OK then Some (ret, s) else submit_all f xs s }"

definition submit_and_wait ::
    "'w rdma_env \<Rightarrow> u32 \<Rightarrow> ('a \<Rightarrow> 'w host_rdma \<Rightarrow> (result \<times> 'w host_rdma) cpp) \<Rightarrow> 'a list \<Rightarrow> 'w host_rdma \<Rightarrow> (result \<times> 'w host_rdma) cpp" where
  "submit_and_wait e rank f xs s = do {
     (errorCode, s) \<leftarrow> submit_all f xs s;
     (ret, s) \<leftarrow> tm_call e (\<lambda>tm. tmSynchronize tm rank) s;
     if ret \<noteq> 0 then Some (ret, s) else if errorCode \<noteq> BM_OK then Some (errorCode, s) else Some (ret, s)
   }"

definition write_async :: "'w rdma_env \<Rightarrow> u32 \<Rightarrow> u64 \<times> entry \<Rightarrow> 'w host_rdma \<Rightarrow> (result \<times> 'w host_rdma) cpp" where
  "write_async e rank x s = (let (tmp, l, g, n) = x in tm_call e (\<lambda>tm. tmWriteRemoteAsync tm rank tmp g n) s)"

definition read_async :: "'w rdma_env \<Rightarrow> u32 \<Rightarrow> u64 \<times> entry \<Rightarrow> 'w host_rdma \<Rightarrow> (result \<times> 'w host_rdma) cpp" where
  "read_async e rank x s = (let (tmp, l, g, n) = x in tm_call e (\<lambda>tm. tmReadRemoteAsync tm rank tmp g n) s)"

text \<open>
  The loop the four batch transfers share: as many entries as fit, a range of the swap buffer for them, the
  body \<open>f\<close>, and on. An entry that does not fit at all, and entries that are empty, end it with an error.
\<close>

lemma batch_fit_takes: "snd (batch_fit cap cur xs) \<noteq> cur \<Longrightarrow> fst (batch_fit cap cur xs) \<noteq> 0"
  by (cases xs) (auto split: prod.splits if_splits)

function batch_loop ::
    "xpu \<Rightarrow> ((u64 \<times> entry) list \<Rightarrow> 'w host_rdma \<Rightarrow> (result \<times> 'w host_rdma) cpp) \<Rightarrow> entry list \<Rightarrow> 'w host_rdma \<Rightarrow>
      (result \<times> 'w host_rdma) cpp" where
  "batch_loop b f xs s =
     (if xs = [] then Some (BM_OK, s)
      else
        let (k, t) = batch_fit (RDMA_SWAP_SPACE_SIZE b) 0 xs
        in if t = 0 then Some (BM_INVALID_PARAM, s)
           else do {
             (ret, s) \<leftarrow> with_swap t (\<lambda>tmpHost. f (place tmpHost (take k xs))) BM_MALLOC_FAILED s;
             if ret \<noteq> BM_OK then Some (ret, s) else batch_loop b f (drop k xs) s
           })"
  by pat_completeness auto
termination
proof (relation "measure (\<lambda>(b, f, xs, s). length xs)", goal_cases)
  case (2 b f xs s z k t)
  then have "k \<noteq> 0"
    using batch_fit_takes [of "RDMA_SWAP_SPACE_SIZE b" 0 xs] by (metis fst_conv snd_conv)
  with 2 show ?case
    by simp
qed simp

declare batch_loop.simps [simp del]

definition BatchWriteLD2RH :: "'w rdma_env \<Rightarrow> u32 \<Rightarrow> entry list \<Rightarrow> ExtOptions \<Rightarrow> 'w host_rdma \<Rightarrow> (result \<times> 'w host_rdma) cpp" where
  "BatchWriteLD2RH e rank xs opt s =
     batch_loop (rdBuild e) (\<lambda>ps s.
       let (ret, s) = BatchCopyLD2LH e (map (\<lambda>(tmp, l, g, n). (tmp, l, n)) ps) opt s
       in if ret \<noteq> 0 then Some (ret, s) else submit_and_wait e rank (write_async e rank) ps s) xs s"

definition BatchReadRH2LD :: "'w rdma_env \<Rightarrow> u32 \<Rightarrow> entry list \<Rightarrow> ExtOptions \<Rightarrow> 'w host_rdma \<Rightarrow> (result \<times> 'w host_rdma) cpp" where
  "BatchReadRH2LD e rank xs opt s =
     batch_loop (rdBuild e) (\<lambda>ps s. do {
       (ret, s) \<leftarrow> submit_and_wait e rank (read_async e rank) ps s;
       if ret \<noteq> 0 then Some (ret, s) else Some (BatchCopyLH2LD e (map (\<lambda>(tmp, l, g, n). (l, tmp, n)) ps) opt s)
     }) xs s"

definition BatchReadRH2LH :: "'w rdma_env \<Rightarrow> entry list \<Rightarrow> ExtOptions \<Rightarrow> 'w host_rdma \<Rightarrow> (result \<times> 'w host_rdma) cpp" where
  "BatchReadRH2LH e xs opt s =
     batch_loop (rdBuild e) (\<lambda>ps s. do {
       (ret, s) \<leftarrow> submit_and_wait e (srcRankId opt) (read_async e (srcRankId opt)) ps s;
       if ret \<noteq> BM_OK then Some (ret, s) else Some (BatchCopyLH2LH e (map (\<lambda>(tmp, l, g, n). (l, tmp, n)) ps) s)
     }) xs s"

definition BatchWriteLH2RH :: "'w rdma_env \<Rightarrow> entry list \<Rightarrow> ExtOptions \<Rightarrow> 'w host_rdma \<Rightarrow> (result \<times> 'w host_rdma) cpp" where
  "BatchWriteLH2RH e xs opt s =
     batch_loop (rdBuild e) (\<lambda>ps s.
       let (ret, s) = BatchCopyLH2LH e (map (\<lambda>(tmp, l, g, n). (tmp, l, n)) ps) s
       in if ret \<noteq> 0 then Some (ret, s) else submit_and_wait e (destRankId opt) (write_async e (destRankId opt)) ps s) xs s"

section \<open>Batches by direction\<close>

text \<open>The entries by the rank of their global address: those of this rank and those of each other rank.\<close>

fun ClassifyDataAddr ::
    "'w rdma_env \<Rightarrow> u32 \<Rightarrow> entry list \<Rightarrow> (u32 \<times> entry list) list \<Rightarrow> (u32 \<times> entry list) list \<Rightarrow>
      (u32 \<times> entry list) list \<times> (u32 \<times> entry list) list" where
  "ClassifyDataAddr e globalRankId [] rmt loc = (rmt, loc)"
| "ClassifyDataAddr e globalRankId ((l, g, n) # xs) rmt loc =
     (let r = GetRankIdByGva g (rdSpaces e); r = (if r = 0xFFFFFFFF then globalRankId else r);
          add = (\<lambda>m. um_set r ((case map_of m r of None \<Rightarrow> [] | Some ys \<Rightarrow> ys) @ [(l, g, n)]) m)
      in if r = rdRank e then ClassifyDataAddr e globalRankId xs rmt (add loc)
         else ClassifyDataAddr e globalRankId xs (add rmt) loc)"

definition BatchCopyLD2GH :: "'w rdma_env \<Rightarrow> entry list \<Rightarrow> ExtOptions \<Rightarrow> 'w host_rdma \<Rightarrow> (result \<times> 'w host_rdma) cpp" where
  "BatchCopyLD2GH e xs opt s =
     (let (rmt, loc) = ClassifyDataAddr e (destRankId opt) xs [] [] in do {
        (ret, s) \<leftarrow> submit_all (\<lambda>(r, ys) s. Some (BatchCopyLD2LH e (map (\<lambda>(l, g, n). (g, l, n)) ys) (opt\<lparr>destRankId := r\<rparr>) s)) loc s;
        if ret \<noteq> BM_OK then Some (ret, s)
        else submit_all (\<lambda>(r, ys) s. BatchWriteLD2RH e r ys opt s) rmt s
      })"

definition BatchCopyGH2LD :: "'w rdma_env \<Rightarrow> entry list \<Rightarrow> ExtOptions \<Rightarrow> 'w host_rdma \<Rightarrow> (result \<times> 'w host_rdma) cpp" where
  "BatchCopyGH2LD e xs opt s =
     (let (rmt, loc) = ClassifyDataAddr e (srcRankId opt) xs [] [] in do {
        (ret, s) \<leftarrow> submit_all (\<lambda>(r, ys) s. Some (BatchCopyLH2LD e (map (\<lambda>(l, g, n). (l, g, n)) ys) (opt\<lparr>srcRankId := r\<rparr>) s)) loc s;
        if ret \<noteq> BM_OK then Some (ret, s)
        else submit_all (\<lambda>(r, ys) s. BatchReadRH2LD e r ys opt s) rmt s
      })"

definition to_descriptor :: "entry list \<Rightarrow> CopyDescriptor" where
  "to_descriptor xs = \<lparr>localAddrs = map fst xs, globalAddrs = map (fst \<circ> snd) xs, cdCounts = map (snd \<circ> snd) xs\<rparr>"

text \<open>Here the entries are source, destination and size; small ones go as one batch, the others one by one.\<close>

definition BatchCopyGH2GH :: "'w rdma_env \<Rightarrow> entry list \<Rightarrow> ExtOptions \<Rightarrow> 'w host_rdma \<Rightarrow> (result \<times> 'w host_rdma) cpp" where
  "BatchCopyGH2GH e xs opt s =
     (let isPut = (srcRankId opt = rdRank e);
          small = filter (\<lambda>(a, d, n). n \<le> SMALL_IO_LIMIT_SIZE) xs; big = filter (\<lambda>(a, d, n). \<not> n \<le> SMALL_IO_LIMIT_SIZE) xs
      in do {
        (ret, s) \<leftarrow> (if small = [] then Some (BM_OK, s)
          else if isPut then tm_call e (\<lambda>tm. tmWriteRemoteBatchAsync tm (destRankId opt) (to_descriptor small)) s
          else tm_call e (\<lambda>tm. tmReadRemoteBatchAsync tm (srcRankId opt) (to_descriptor small)) s);
        (errorCode, s) \<leftarrow> (if ret \<noteq> 0 then Some (ret, s)
          else submit_all (\<lambda>(a, d, n). if isPut then tm_call e (\<lambda>tm. tmWriteRemoteAsync tm (destRankId opt) a d n)
            else tm_call e (\<lambda>tm. tmReadRemoteAsync tm (srcRankId opt) d a n)) big s);
        (ret, s) \<leftarrow> tm_call e (\<lambda>tm. tmSynchronize tm (if isPut then destRankId opt else srcRankId opt)) s;
        if ret \<noteq> 0 then Some (ret, s) else if errorCode \<noteq> BM_OK then Some (errorCode, s) else Some (ret, s)
      })"

text \<open>Whether the transport knows all the buffers; a list of address and size.\<close>

fun all_registered :: "'w rdma_env \<Rightarrow> (u64 \<times> u64) list \<Rightarrow> 'w host_rdma \<Rightarrow> bool cpp" where
  "all_registered e [] s = Some True"
| "all_registered e ((a, n) # xs) s = do {
     tm \<leftarrow> rdTm e;
     h \<leftarrow> tmQueryHasRegistered tm a n (world s);
     if \<not> h then Some False else all_registered e xs s
   }"

text \<open>The entries of the next two are source, destination and size.\<close>

definition BatchCopyLH2GH :: "'w rdma_env \<Rightarrow> entry list \<Rightarrow> ExtOptions \<Rightarrow> 'w host_rdma \<Rightarrow> (result \<times> 'w host_rdma) cpp" where
  "BatchCopyLH2GH e xs opt s =
     (if destRankId opt = rdRank e then Some (BatchCopyLH2LH e (map (\<lambda>(a, d, n). (d, a, n)) xs) s)
      else do {
        reg \<leftarrow> all_registered e (map (\<lambda>(a, d, n). (a, n)) xs) s;
        if reg then BatchCopyGH2GH e xs opt s else BatchWriteLH2RH e xs opt s
      })"

definition BatchCopyGH2LH :: "'w rdma_env \<Rightarrow> entry list \<Rightarrow> ExtOptions \<Rightarrow> 'w host_rdma \<Rightarrow> (result \<times> 'w host_rdma) cpp" where
  "BatchCopyGH2LH e xs opt s =
     (if srcRankId opt = rdRank e then Some (BatchCopyLH2LH e (map (\<lambda>(a, d, n). (d, a, n)) xs) s)
      else do {
        reg \<leftarrow> all_registered e (map (\<lambda>(a, d, n). (d, n)) xs) s;
        if reg then BatchCopyGH2GH e xs opt s else BatchReadRH2LH e (map (\<lambda>(a, d, n). (d, a, n)) xs) opt s
      })"

text \<open>
  The entries of the parameters: source, destination, size. \<open>at\<close> are the addresses of the arrays of sources and of
  destinations: what is registered for entry \<open>i\<close> is \<open>&sources[i]\<close> or \<open>&destinations[i]\<close>.
\<close>

definition batch_list :: "hybm_batch_copy_params \<Rightarrow> entry list cpp" where
  "batch_list p =
     (let n = unat (batchSize p) in
      if n \<le> length (sources p) \<and> n \<le> length (destinations p) \<and> n \<le> length (dataSizes p)
      then Some (take n (zip (sources p) (zip (destinations p) (dataSizes p)))) else None)"

definition mr_param :: "u64 \<times> u64 \<Rightarrow> nat \<Rightarrow> u64 \<Rightarrow> hybm_copy_params" where
  "mr_param at i n = \<lparr>cpSrc = fst at + 8 * of_nat i, cpDest = snd at + 8 * of_nat i, dataSize = n\<rparr>"

fun BatchPreRegisterLocalMr ::
    "'w rdma_env \<Rightarrow> u64 \<times> u64 \<Rightarrow> nat \<Rightarrow> entry list \<Rightarrow> hybm_data_copy_direction \<Rightarrow> 'w host_rdma \<Rightarrow> 'w host_rdma cpp" where
  "BatchPreRegisterLocalMr e at i [] dir s = Some s"
| "BatchPreRegisterLocalMr e at i ((a, d, n) # xs) dir s = do {
     s \<leftarrow> PreRegisterLocalMr e (mr_param at i n) dir s;
     BatchPreRegisterLocalMr e at (Suc i) xs dir s
   }"

fun BatchUnRegisterLocalMr ::
    "'w rdma_env \<Rightarrow> u64 \<times> u64 \<Rightarrow> nat \<Rightarrow> entry list \<Rightarrow> hybm_data_copy_direction \<Rightarrow> 'w host_rdma \<Rightarrow> 'w host_rdma cpp" where
  "BatchUnRegisterLocalMr e at i [] dir s = Some s"
| "BatchUnRegisterLocalMr e at i ((a, d, n) # xs) dir s = do {
     s \<leftarrow> unregister_local e (mr_param at i n) dir s;
     BatchUnRegisterLocalMr e at (Suc i) xs dir s
   }"

definition batch_by_direction ::
    "'w rdma_env \<Rightarrow> entry list \<Rightarrow> hybm_data_copy_direction \<Rightarrow> ExtOptions \<Rightarrow> 'w host_rdma \<Rightarrow> (result \<times> 'w host_rdma) cpp" where
  "batch_by_direction e xs dir opt s =
     (case dir of
        HYBM_LOCAL_DEVICE_TO_GLOBAL_HOST \<Rightarrow> BatchCopyLD2GH e xs opt s
      | HYBM_GLOBAL_HOST_TO_LOCAL_DEVICE \<Rightarrow> BatchCopyGH2LD e (map (\<lambda>(a, d, n). (d, a, n)) xs) opt s
      | HYBM_LOCAL_HOST_TO_GLOBAL_HOST \<Rightarrow> BatchCopyLH2GH e xs opt s
      | HYBM_GLOBAL_HOST_TO_LOCAL_HOST \<Rightarrow> BatchCopyGH2LH e xs opt s
      | HYBM_GLOBAL_HOST_TO_GLOBAL_HOST \<Rightarrow> BatchCopyGH2GH e xs opt s
      | _ \<Rightarrow> Some (BM_INVALID_PARAM, s))"

definition rd_BatchDataCopy ::
    "'w rdma_env \<Rightarrow> u64 \<times> u64 \<Rightarrow> hybm_batch_copy_params \<Rightarrow> hybm_data_copy_direction \<Rightarrow> ExtOptions \<Rightarrow> 'w host_rdma \<Rightarrow>
      (result \<times> 'w host_rdma) cpp" where
  "rd_BatchDataCopy e at p dir opt s =
     (if \<not> rdInited s then Some (BM_NOT_INITIALIZED, s)
      else do {
        xs \<leftarrow> batch_list p;
        s \<leftarrow> BatchPreRegisterLocalMr e at 0 xs dir s;
        (ret, s) \<leftarrow> batch_by_direction e xs dir opt s;
        s \<leftarrow> BatchUnRegisterLocalMr e at 0 xs dir s;
        Some (ret, s)
      })"

end
