(* ===== verification/Spec2Isabelle.thy ===== *)
theory Spec2Isabelle
  imports Store_Client_Properties Range_Pool Va_Manager Trans_Store_Helper Group_Gather Group_Dynamic Data_Op_Sdma_Properties
    Hcom_Transport_Properties Data_Op_Host_Rdma
begin

text \<open>
  Verification of the memory fabric's configuration store and address management.
\<close>

end
